(* ===== verification/Go_Prelude.thy ===== *)
theory Go_Prelude
  imports Main "HOL-Library.Word" "HOL-Library.AList" "HOL-Library.Multiset"
begin

text \<open>
  The fragment of Go that the replica is written in: machine integers, byte slices, run-time
  panics as values, maps, bounded channels, and the unspecified order of a \<^verbatim>\<open>range\<close> loop
  over a map. Nothing here is specific to the protocol.
\<close>

section \<open>Named collections\<close>

named_theorems go_simps \<open>unfolding rules of the Go fragment\<close>
named_theorems op_defs \<open>definitions of the replica's operations\<close>

section \<open>Machine integers, bytes, pointers\<close>

type_synonym u64 = "64 word"
type_synonym bytes = "8 word list"

text \<open>
  A pointer that may be nil is an \<open>option\<close>. A nil and an empty byte slice are both \<open>[]\<close>:
  the code tells them apart in two places only (a missing command of a client message and a
  missing signature of a certificate), and there the model returns an \<open>option\<close>.
\<close>

section \<open>Run-time panics\<close>

datatype go_panic =
    NilDereference       \<comment> \<open>a field or method of a nil pointer or nil interface\<close>
  | IndexOutOfRange      \<comment> \<open>a slice indexed beyond its length\<close>
  | DivideByZero         \<comment> \<open>integer remainder by zero\<close>
  | NilMapWrite          \<comment> \<open>a store into a nil map\<close>
  | TypeAssertion        \<comment> \<open>\<open>x.(T)\<close> on a value of another dynamic type\<close>
  | ExplicitPanic        \<comment> \<open>\<open>panic(err)\<close> in the source\<close>

type_synonym 'a result = "go_panic + 'a"

definition bind_r :: "'a result \<Rightarrow> ('a \<Rightarrow> 'b result) \<Rightarrow> 'b result" where
  "bind_r r f = (case r of Inl p \<Rightarrow> Inl p | Inr x \<Rightarrow> f x)"

definition deref :: "'a option \<Rightarrow> 'a result" where
  "deref p = (case p of None \<Rightarrow> Inl NilDereference | Some x \<Rightarrow> Inr x)"

text \<open>Evaluation does not look at a continuation before the result it continues from is known.\<close>

declare bind_r_def [code_unfold] deref_def [code_unfold]

lemma bind_r_simps [simp, go_simps]:
  "bind_r (Inl p) f = Inl p"
  "bind_r (Inr x) f = f x"
  by (simp_all add: bind_r_def)

lemma bind_r_eq_Inr: "bind_r r f = Inr y \<longleftrightarrow> (\<exists>x. r = Inr x \<and> f x = Inr y)"
  by (cases r) auto

lemma bind_r_assoc: "bind_r (bind_r r f) g = bind_r r (\<lambda>x. bind_r (f x) g)"
  by (cases r) auto

lemma bind_r_split:
  "P (bind_r r f) \<longleftrightarrow> (\<forall>p. r = Inl p \<longrightarrow> P (Inl p)) \<and> (\<forall>x. r = Inr x \<longrightarrow> P (f x))"
  by (cases r) auto

lemma deref_simps [simp, go_simps]:
  "deref None = Inl NilDereference"
  "deref (Some x) = Inr x"
  by (simp_all add: deref_def)

lemma deref_eq_Inr [simp]: "deref p = Inr x \<longleftrightarrow> p = Some x"
  by (cases p) auto

section \<open>Maps\<close>

text \<open>
  A Go map is an association list with distinct keys. The order of the list is \<^emph>\<open>not\<close> the
  order of a \<^verbatim>\<open>range\<close> loop, which Go leaves unspecified: a loop whose result may depend
  on the order takes it as an argument (below).
\<close>

type_synonym ('k, 'v) gomap = "('k \<times> 'v) list"

abbreviation mget :: "('k, 'v) gomap \<Rightarrow> 'k \<Rightarrow> 'v option" where
  "mget m k \<equiv> map_of m k"

abbreviation mput :: "'k \<Rightarrow> 'v \<Rightarrow> ('k, 'v) gomap \<Rightarrow> ('k, 'v) gomap" where
  "mput k v m \<equiv> AList.update k v m"

abbreviation mdelete :: "'k \<Rightarrow> ('k, 'v) gomap \<Rightarrow> ('k, 'v) gomap" where
  "mdelete k m \<equiv> AList.delete k m"

abbreviation mkeys :: "('k, 'v) gomap \<Rightarrow> 'k list" where
  "mkeys m \<equiv> map fst m"

definition wf_map :: "('k, 'v) gomap \<Rightarrow> bool" where
  "wf_map m \<longleftrightarrow> distinct (mkeys m)"

text \<open>Reading \<open>m[a][b]\<close>: an absent inner map is nil, and reading a nil map finds nothing.\<close>

definition mget2 :: "('k, ('l, 'v) gomap) gomap \<Rightarrow> 'k \<Rightarrow> 'l \<Rightarrow> 'v option" where
  "mget2 m a b = (case mget m a of None \<Rightarrow> None | Some r \<Rightarrow> mget r b)"

text \<open>
  The idiom \<open>if _, ok := m[a]; ok { m[a][b] = v } else { m[a] = make(..); m[a][b] = v }\<close>.
\<close>

definition mput2 :: "'k \<Rightarrow> 'l \<Rightarrow> 'v \<Rightarrow> ('k, ('l, 'v) gomap) gomap \<Rightarrow> ('k, ('l, 'v) gomap) gomap" where
  "mput2 a b v m = (case mget m a of
       Some r \<Rightarrow> mput a (mput b v r) m
     | None \<Rightarrow> mput a (mput b v []) m)"

lemma mget_mput [simp]: "mget (mput k v m) k' = (if k' = k then Some v else mget m k')"
  by (simp add: update_conv')

lemma mget_mdelete [simp]: "mget (mdelete k m) k' = (if k' = k then None else mget m k')"
  by (simp add: delete_conv')

lemma wf_map_Nil [simp, intro]: "wf_map []"
  by (simp add: wf_map_def)

lemma wf_map_mput [intro]: "wf_map m \<Longrightarrow> wf_map (mput k v m)"
  by (simp add: wf_map_def distinct_update)

lemma wf_map_mdelete [intro]: "wf_map m \<Longrightarrow> wf_map (mdelete k m)"
  by (simp add: wf_map_def distinct_delete)

lemma set_mkeys: "set (mkeys m) = dom (mget m)"
  by (simp add: dom_map_of_conv_image_fst)

lemma mget2_mput2 [simp]:
  "mget2 (mput2 a b v m) a' b' = (if a' = a \<and> b' = b then Some v else mget2 m a' b')"
  by (auto simp: mget2_def mput2_def split: option.splits)

lemma mget2_mput: "mget2 (mput a r m) a' b = (if a' = a then mget r b else mget2 m a' b)"
  by (simp add: mget2_def)

lemma mget2_Nil [simp]: "mget2 [] a b = None"
  by (simp add: mget2_def)

lemma mget_mput2: "mget (mput2 a b v m) a' = (if a' = a
    then Some (mput b v (case mget m a of Some r \<Rightarrow> r | None \<Rightarrow> [])) else mget m a')"
  by (auto simp: mput2_def split: option.splits)

lemma wf_map_mput2 [intro]: "wf_map m \<Longrightarrow> wf_map (mput2 a b v m)"
  by (auto simp: mput2_def split: option.splits)

lemma length_mput: "length (mput k v m) = (if mget m k = None then Suc (length m) else length m)"
  by (induction m) auto

lemma map_of_perm:
  assumes "wf_map m" and "mset m = mset m'"
  shows "wf_map m'" and "mget m' = mget m"
proof -
  have "mset (mkeys m') = mset (mkeys m)"
    using assms(2) by (metis mset_map)
  then show d: "wf_map m'"
    using assms(1) unfolding wf_map_def by (metis mset_eq_imp_distinct_iff)
  have "set m' = set m"
    using assms(2) by (metis set_mset_mset)
  then show "mget m' = mget m"
    using assms(1) d by (simp add: wf_map_def map_of_inject_set)
qed

section \<open>The order of a range loop\<close>

text \<open>
  A \<^verbatim>\<open>range\<close> loop over a map visits every key once, in an order that may differ from one
  execution of the loop to the next. The order of one execution is a function from the list of
  keys to a permutation of it; a handler that runs several such loops takes one order per loop,
  indexed by the position of the loop in the handler.
\<close>

type_synonym 'k order = "'k list \<Rightarrow> 'k list"

definition is_order :: "'k order \<Rightarrow> bool" where
  "is_order r \<longleftrightarrow> (\<forall>ks. mset (r ks) = mset ks)"

lemma is_order_id [simp, intro]: "is_order (\<lambda>ks. ks)"
  by (simp add: is_order_def)

lemma is_order_rev [simp, intro]: "is_order rev"
  by (simp add: is_order_def)

lemma is_orderD:
  assumes "is_order r"
  shows "set (r ks) = set ks" and "length (r ks) = length ks" and "distinct (r ks) \<longleftrightarrow> distinct ks"
proof -
  have m: "mset (r ks) = mset ks"
    using assms by (simp add: is_order_def)
  show "set (r ks) = set ks"
    using m by (metis set_mset_mset)
  show "length (r ks) = length ks"
    using m by (metis size_mset)
  show "distinct (r ks) \<longleftrightarrow> distinct ks"
    using m by (rule mset_eq_imp_distinct_iff)
qed

lemma is_order_sum:
  assumes "is_order r"
  shows "sum_list (map f (r ks)) = sum_list (map (f :: 'k \<Rightarrow> 'a::comm_monoid_add) ks)"
  using assms by (simp add: is_order_def sum_mset_sum_list [symmetric])

end
