(* ===== verification/Msg_Types.thy ===== *)
theory Msg_Types
  imports Go_Prelude
begin

text \<open>
  The data that nodes store and exchange: the protocol-buffer structs of
  \<^verbatim>\<open>chain/block.pb.go\<close> and \<^verbatim>\<open>msg/*.pb.go\<close> with their nil-safe getters. A pointer field is an
  \<open>option\<close>. The bookkeeping fields of the protobuf runtime (\<open>state\<close>, \<open>sizeCache\<close>,
  \<open>unknownFields\<close>) carry no protocol data and are left out.
\<close>

section \<open>Nil-safe getters\<close>

text \<open>Every generated getter has the shape \<open>if x != nil { return x.F }; return zero\<close>.\<close>

definition nil_safe :: "('a \<Rightarrow> 'b) \<Rightarrow> 'b \<Rightarrow> 'a option \<Rightarrow> 'b" where
  "nil_safe f z p = (case p of None \<Rightarrow> z | Some x \<Rightarrow> f x)"

lemma nil_safe_simps [simp, go_simps]:
  "nil_safe f z None = z"
  "nil_safe f z (Some x) = f x"
  by (simp_all add: nil_safe_def)

section \<open>Blocks (\<open>chain/block.pb.go\<close>)\<close>

text \<open>The hash type of the external package: a fixed array of bytes, zero-initialised.\<close>

type_synonym hash = bytes

record ProtoHeader =
  ph_ParentHash :: bytes
  ph_TxHash :: bytes
  ph_Height :: u64
  ph_Extra :: bytes

record ProtoBody =
  pbd_Txs :: "bytes list"
  pbd_Responses :: "bytes list"

record ProtoBlock =
  pb_Header :: "ProtoHeader option"
  pb_Body :: "ProtoBody option"
  pb_BlockHash :: bytes

definition ProtoHeader_GetParentHash :: "ProtoHeader option \<Rightarrow> bytes" where
  [go_simps]: "ProtoHeader_GetParentHash = nil_safe ph_ParentHash []"

definition ProtoHeader_GetTxHash :: "ProtoHeader option \<Rightarrow> bytes" where
  [go_simps]: "ProtoHeader_GetTxHash = nil_safe ph_TxHash []"

definition ProtoHeader_GetHeight :: "ProtoHeader option \<Rightarrow> u64" where
  [go_simps]: "ProtoHeader_GetHeight = nil_safe ph_Height 0"

definition ProtoHeader_GetExtra :: "ProtoHeader option \<Rightarrow> bytes" where
  [go_simps]: "ProtoHeader_GetExtra = nil_safe ph_Extra []"

definition ProtoBlock_GetHeader :: "ProtoBlock option \<Rightarrow> ProtoHeader option" where
  [go_simps]: "ProtoBlock_GetHeader = nil_safe pb_Header None"

definition ProtoBlock_GetBody :: "ProtoBlock option \<Rightarrow> ProtoBody option" where
  [go_simps]: "ProtoBlock_GetBody = nil_safe pb_Body None"

definition ProtoBlock_GetBlockHash :: "ProtoBlock option \<Rightarrow> bytes" where
  [go_simps]: "ProtoBlock_GetBlockHash = nil_safe pb_BlockHash []"

definition ProtoBody_GetTxs :: "ProtoBody option \<Rightarrow> bytes list" where
  [go_simps]: "ProtoBody_GetTxs = nil_safe pbd_Txs []"

section \<open>Votes and certificates (\<open>msg/vote.pb.go\<close>, \<open>msg/cert.pb.go\<close>)\<close>

record ProtoVoteData =
  vd_BlockHash :: bytes
  vd_View :: u64
  vd_Owner :: u64

record ProtoVoteBody =
  vb_Voter :: u64
  vb_Signature :: bytes

record ProtoVote =
  pv_Data :: "ProtoVoteData option"
  pv_Body :: "ProtoVoteBody option"

definition ProtoVoteData_GetBlockHash :: "ProtoVoteData option \<Rightarrow> bytes" where
  [go_simps]: "ProtoVoteData_GetBlockHash = nil_safe vd_BlockHash []"

definition ProtoVoteData_GetView :: "ProtoVoteData option \<Rightarrow> u64" where
  [go_simps]: "ProtoVoteData_GetView = nil_safe vd_View 0"

definition ProtoVoteBody_GetVoter :: "ProtoVoteBody option \<Rightarrow> u64" where
  [go_simps]: "ProtoVoteBody_GetVoter = nil_safe vb_Voter 0"

definition ProtoVoteBody_GetSignature :: "ProtoVoteBody option \<Rightarrow> bytes" where
  [go_simps]: "ProtoVoteBody_GetSignature = nil_safe vb_Signature []"

record Certificate =
  ct_Data :: bytes
  ct_Signatures :: "bytes list"
  ct_Ids :: "u64 list"

section \<open>Proposals (\<open>msg/proposal.pb.go\<close>)\<close>

record Proposal =
  pr_Block :: "ProtoBlock option"
  pr_ForwardSender :: u64
  pr_ForwardSig :: bytes
  pr_Miner :: u64
  pr_MiningProof :: bytes
  pr_View :: u64
  pr_ProposeEvidence :: bytes

section \<open>Evidence of misbehaviour (\<open>msg/evidence.pb.go\<close>)\<close>

record EvidenceData =
  ed_MisbehaviourTarget :: u64
  ed_View :: u64

record Evidence =
  ev_EvidenceData :: "EvidenceData option"
  ev_EvOrigin :: u64
  ev_OrSignature :: bytes

record EquivocationEvidence =
  eq_Evidence :: "Evidence option"
  eq_E1 :: "Proposal option"
  eq_E2 :: "Proposal option"

record MalicousProposalEvidence =
  mp_Evidence :: "Evidence option"
  mp_E :: "Proposal option"

record MalicousVoteEvidence =
  mv_Evidence :: "Evidence option"
  mv_E :: "ProtoVote option"

definition Proposal_GetBlock :: "Proposal option \<Rightarrow> ProtoBlock option" where
  [go_simps]: "Proposal_GetBlock = nil_safe pr_Block None"

definition Proposal_GetMiningProof :: "Proposal option \<Rightarrow> bytes" where
  [go_simps]: "Proposal_GetMiningProof = nil_safe pr_MiningProof []"

section \<open>The message envelope (\<open>msg/generic.pb.go\<close>, \<open>msg/clientAck.pb.go\<close>)\<close>

record CommitAck =
  ack_Block :: "ProtoBlock option"

datatype SyncHSMsg =
    Msg_nil
  | Msg_Prop Proposal
  | Msg_Eqevidence EquivocationEvidence
  | Msg_Mpevidence MalicousProposalEvidence
  | Msg_Mvevidence MalicousVoteEvidence
  | Msg_Ack CommitAck
  | Msg_Tx bytes
  | Msg_Vote ProtoVote

text \<open>\<open>GetTx\<close> and \<open>GetAck\<close> return nil unless the message is of that kind.\<close>

definition SyncHSMsg_GetTx :: "SyncHSMsg \<Rightarrow> bytes option" where
  "SyncHSMsg_GetTx m = (case m of Msg_Tx b \<Rightarrow> Some b | _ \<Rightarrow> None)"

definition SyncHSMsg_GetAck :: "SyncHSMsg \<Rightarrow> CommitAck option" where
  "SyncHSMsg_GetAck m = (case m of Msg_Ack a \<Rightarrow> Some a | _ \<Rightarrow> None)"

definition SyncHSMsg_GetVote :: "SyncHSMsg \<Rightarrow> ProtoVote option" where
  "SyncHSMsg_GetVote m = (case m of Msg_Vote v \<Rightarrow> Some v | _ \<Rightarrow> None)"

definition SyncHSMsg_GetProp :: "SyncHSMsg \<Rightarrow> Proposal option" where
  "SyncHSMsg_GetProp m = (case m of Msg_Prop p \<Rightarrow> Some p | _ \<Rightarrow> None)"

definition CommitAck_GetBlock :: "CommitAck option \<Rightarrow> ProtoBlock option" where
  [go_simps]: "CommitAck_GetBlock = nil_safe ack_Block None"

section \<open>The code outside the repository\<close>

text \<open>
  The packages the replica calls and that are not part of the repository (libchatter's
  \<^verbatim>\<open>crypto\<close>, the protobuf runtime, the transport) and \<^verbatim>\<open>math.Tanh\<close> are the fields of one
  parameter. A call that returns a value and an error returns a pair whose second component says
  whether the error is non-nil.
  \<^item> \<open>ToHash\<close>, \<open>DoHash\<close>, \<open>HashBytes\<close>: \<^verbatim>\<open>crypto.ToHash\<close>, \<^verbatim>\<open>crypto.DoHash\<close>,
    \<^verbatim>\<open>Hash.GetBytes\<close>;
  \<^item> \<open>Verify k d s\<close>: \<^verbatim>\<open>PubKey.Verify\<close>; \<open>Sign k d\<close>: \<^verbatim>\<open>PrivKey.Sign\<close>;
  \<^item> \<open>Marshal...\<close>, \<open>Unmarshal...\<close>: \<^verbatim>\<open>pb.Marshal\<close> and \<^verbatim>\<open>pb.Unmarshal\<close> at the types used;
  \<^item> \<open>Tanh\<close>: \<^verbatim>\<open>math.Tanh\<close> on \<^verbatim>\<open>float64\<close> values, as dyadic numbers \<open>m * 2 ^ e\<close>;
  \<^item> \<open>StreamOk i\<close>: whether writing and flushing to the stream of node \<open>i\<close> succeeds.
\<close>

type_synonym pubkey = bytes
type_synonym privkey = bytes

record env =
  ToHash :: "bytes \<Rightarrow> hash"
  DoHash :: "bytes \<Rightarrow> hash"
  HashBytes :: "hash \<Rightarrow> bytes"
  Verify :: "pubkey \<Rightarrow> bytes \<Rightarrow> bytes \<Rightarrow> bool \<times> bool"
  Sign :: "privkey \<Rightarrow> bytes \<Rightarrow> bytes \<times> bool"
  MarshalHeader :: "ProtoHeader option \<Rightarrow> bytes \<times> bool"
  MarshalVoteData :: "ProtoVoteData option \<Rightarrow> bytes \<times> bool"
  MarshalEvidenceData :: "EvidenceData option \<Rightarrow> bytes \<times> bool"
  MarshalCertificate :: "Certificate \<Rightarrow> bytes \<times> bool"
  MarshalMsg :: "SyncHSMsg \<Rightarrow> bytes \<times> bool"
  UnmarshalVoteData :: "bytes \<Rightarrow> ProtoVoteData"
  UnmarshalCertificate :: "bytes \<Rightarrow> Certificate"
  UnmarshalMsg :: "bytes \<Rightarrow> SyncHSMsg \<times> bool"
  Tanh :: "int \<times> int \<Rightarrow> int \<times> int"
  StreamOk :: "u64 \<Rightarrow> bool"

end
