(* ===== verification/Chain_Block.thy ===== *)
theory Chain_Block
  imports Msg_Types
begin

text \<open>
  Blocks and the block store: \<^verbatim>\<open>chain/extblock.go\<close>, \<^verbatim>\<open>chain/blocks.go\<close>,
  \<^verbatim>\<open>chain/types.go\<close> and \<^verbatim>\<open>chain/chain.go\<close>. An \<open>ExtBlock\<close> wraps the wire format and
  caches its hash and its wire form; the caches are \<^verbatim>\<open>atomic.Value\<close>s, empty (\<open>None\<close>) until the
  first \<open>Store\<close>.
\<close>

section \<open>Extended blocks\<close>

definition EmptyHash :: hash where
  "EmptyHash = replicate 32 0"

record ExtHeader =
  eh_ProtoHeader :: "ProtoHeader option"

record ExtBody =
  eB_ProtoBody :: "ProtoBody option"

record ExtBlock =
  eb_ExtHeader :: "ExtHeader option"
  eb_ExtBody :: "ExtBody option"
  eb_hash :: "hash option"
  eb_proto :: "ProtoBlock option option"

definition ExtBlock_zero :: ExtBlock where
  "ExtBlock_zero = \<lparr>eb_ExtHeader = None, eb_ExtBody = None, eb_hash = None, eb_proto = None\<rparr>"

text \<open>\<open>ExtHeader\<close> and \<open>ExtBody\<close>.\<close>

definition ExtHeader_ToProto :: "ExtHeader option \<Rightarrow> ProtoHeader option result" where
  "ExtHeader_ToProto eh = bind_r (deref eh) (\<lambda>h. Inr (eh_ProtoHeader h))"

definition ExtHeader_FromProto :: "ProtoHeader option \<Rightarrow> ExtHeader \<Rightarrow> ExtHeader" where
  "ExtHeader_FromProto data eh = eh\<lparr>eh_ProtoHeader := data\<rparr>"

definition ExtHeader_GetExtradata :: "ExtHeader \<Rightarrow> bytes" where
  "ExtHeader_GetExtradata eh = ProtoHeader_GetExtra (eh_ProtoHeader eh)"

definition ExtHeader_GetParentHash :: "env \<Rightarrow> ExtHeader \<Rightarrow> hash" where
  "ExtHeader_GetParentHash E eh = ToHash E (ProtoHeader_GetParentHash (eh_ProtoHeader eh))"

definition ExtHeader_GetTxHash :: "env \<Rightarrow> ExtHeader \<Rightarrow> hash" where
  "ExtHeader_GetTxHash E eh = ToHash E (ProtoHeader_GetTxHash (eh_ProtoHeader eh))"

definition ExtBody_GetTransactions :: "ExtBody \<Rightarrow> bytes list" where
  "ExtBody_GetTransactions eB = ProtoBody_GetTxs (eB_ProtoBody eB)"

definition ExtBody_FromProto :: "ProtoBody option \<Rightarrow> ExtBody \<Rightarrow> ExtBody" where
  "ExtBody_FromProto data eB = eB\<lparr>eB_ProtoBody := data\<rparr>"

text \<open>\<open>ExtBlock\<close>: methods promoted from the embedded header and body dereference them.\<close>

definition ExtBlock_GetSize :: "ExtBlock \<Rightarrow> u64 result" where
  "ExtBlock_GetSize eb = bind_r (deref (eb_ExtBody eb))
     (\<lambda>b. Inr (word_of_nat (length (ProtoBody_GetTxs (eB_ProtoBody b)))))"

definition ExtBlock_GetHeight :: "ExtBlock \<Rightarrow> u64 result" where
  "ExtBlock_GetHeight eb = bind_r (deref (eb_ExtHeader eb))
     (\<lambda>h. Inr (ProtoHeader_GetHeight (eh_ProtoHeader h)))"

definition ExtBlock_GetParentHash :: "env \<Rightarrow> ExtBlock \<Rightarrow> hash result" where
  "ExtBlock_GetParentHash E eb = bind_r (deref (eb_ExtHeader eb))
     (\<lambda>h. Inr (ExtHeader_GetParentHash E h))"

definition ExtBlock_GetHeader :: "ExtBlock \<Rightarrow> ExtHeader option" where
  "ExtBlock_GetHeader eb = eb_ExtHeader eb"

definition ExtBlock_GetBody :: "ExtBlock \<Rightarrow> ExtBody option" where
  "ExtBlock_GetBody eb = eb_ExtBody eb"

definition ExtBlock_IsValid :: "ExtBlock \<Rightarrow> bool" where
  "ExtBlock_IsValid eb = True"

text \<open>\<open>ComputeHash\<close> of \<^verbatim>\<open>chain/blocks.go\<close> hashes the encoding of the whole message, here \<open>marshal\<close>, and
  ignores its error.\<close>

definition ComputeHash :: "env \<Rightarrow> (ProtoBlock \<Rightarrow> bytes \<times> bool) \<Rightarrow> ProtoBlock \<Rightarrow> hash" where
  "ComputeHash E marshal b = DoHash E (fst (marshal b))"

text \<open>\<open>FromProto\<close> reads three fields of the message, so a nil message panics.\<close>

definition ExtBlock_FromProto :: "env \<Rightarrow> ProtoBlock option \<Rightarrow> ExtBlock \<Rightarrow> ExtBlock result" where
  "ExtBlock_FromProto E data eb = bind_r (deref data) (\<lambda>d. Inr (eb
     \<lparr>eb_ExtHeader := Some \<lparr>eh_ProtoHeader = pb_Header d\<rparr>,
      eb_ExtBody := Some \<lparr>eB_ProtoBody = pb_Body d\<rparr>,
      eb_proto := Some (Some d),
      eb_hash := Some (ToHash E (pb_BlockHash d))\<rparr>))"

text \<open>
  \<open>GetBlockHash\<close> returns the cached hash, unless there is none or it is the zero hash; then it
  converts the marshalled header. The receiver is a copy, so the deferred store is not seen by
  the caller.
\<close>

definition ExtBlock_computeHash :: "env \<Rightarrow> ExtBlock \<Rightarrow> hash result" where
  "ExtBlock_computeHash E eb = bind_r (ExtHeader_ToProto (eb_ExtHeader eb))
     (\<lambda>h. Inr (ToHash E (fst (MarshalHeader E h))))"

definition ExtBlock_GetBlockHash :: "env \<Rightarrow> ExtBlock \<Rightarrow> hash result" where
  "ExtBlock_GetBlockHash E eb = (case eb_hash eb of
       None \<Rightarrow> ExtBlock_computeHash E eb
     | Some h \<Rightarrow> if h = EmptyHash then ExtBlock_computeHash E eb else Inr h)"

text \<open>
  \<open>ToProto\<close> of a pointer: a nil receiver and an empty cache panic (the latter in the type
  assertion); a cached nil message is rebuilt and cached.
\<close>

definition ExtBlock_ToProto :: "env \<Rightarrow> ExtBlock option \<Rightarrow> (ProtoBlock \<times> ExtBlock) result" where
  "ExtBlock_ToProto E p = bind_r (deref p) (\<lambda>eb. case eb_proto eb of
       None \<Rightarrow> Inl TypeAssertion
     | Some (Some d) \<Rightarrow> Inr (d, eb)
     | Some None \<Rightarrow>
         bind_r (deref (eb_ExtHeader eb)) (\<lambda>h.
         bind_r (deref (eb_ExtBody eb)) (\<lambda>b.
         bind_r (ExtBlock_GetBlockHash E eb) (\<lambda>bh.
           let d = \<lparr>pb_Header = eh_ProtoHeader h, pb_Body = eB_ProtoBody b,
                    pb_BlockHash = HashBytes E bh\<rparr>
           in Inr (d, eb\<lparr>eb_proto := Some (Some d)\<rparr>)))))"

section \<open>The block store\<close>

record BlockChain =
  BlocksByHash :: "(hash, ExtBlock) gomap"
  BlocksByHeight :: "(u64, ExtBlock) gomap"
  Head :: u64

definition NewChain :: BlockChain where
  "NewChain = \<lparr>BlocksByHash = [], BlocksByHeight = [], Head = 0\<rparr>"

section \<open>What the wrapper guarantees\<close>

text \<open>A block built by \<open>FromProto\<close> from a message with claimed hash \<open>d\<close>.\<close>

definition ext_of :: "env \<Rightarrow> ProtoBlock \<Rightarrow> ExtBlock" where
  "ext_of E d = \<lparr>eb_ExtHeader = Some \<lparr>eh_ProtoHeader = pb_Header d\<rparr>,
     eb_ExtBody = Some \<lparr>eB_ProtoBody = pb_Body d\<rparr>,
     eb_hash = Some (ToHash E (pb_BlockHash d)), eb_proto = Some (Some d)\<rparr>"

lemma ExtBlock_FromProto_Some [simp]: "ExtBlock_FromProto E (Some d) eb = Inr (ext_of E d)"
  by (cases eb) (simp add: ExtBlock_FromProto_def ext_of_def)

lemma ExtBlock_FromProto_None [simp]: "ExtBlock_FromProto E None eb = Inl NilDereference"
  by (simp add: ExtBlock_FromProto_def)

lemma ext_of_sel [simp]:
  "eb_ExtHeader (ext_of E d) = Some \<lparr>eh_ProtoHeader = pb_Header d\<rparr>"
  "eb_ExtBody (ext_of E d) = Some \<lparr>eB_ProtoBody = pb_Body d\<rparr>"
  "eb_hash (ext_of E d) = Some (ToHash E (pb_BlockHash d))"
  "eb_proto (ext_of E d) = Some (Some d)"
  by (simp_all add: ext_of_def)

lemma ToProto_ext_of [simp]: "ExtBlock_ToProto E (Some (ext_of E d)) = Inr (d, ext_of E d)"
  by (simp add: ExtBlock_ToProto_def)

text \<open>The hash of a wrapped block is the claimed one, except for a claimed zero hash.\<close>

lemma GetBlockHash_ext_of:
  "ExtBlock_GetBlockHash E (ext_of E d) =
     Inr (if ToHash E (pb_BlockHash d) = EmptyHash then ToHash E (fst (MarshalHeader E (pb_Header d)))
          else ToHash E (pb_BlockHash d))"
  by (simp add: ExtBlock_GetBlockHash_def ExtBlock_computeHash_def ExtHeader_ToProto_def)

lemma GetHeight_ext_of [simp]:
  "ExtBlock_GetHeight (ext_of E d) = Inr (ProtoHeader_GetHeight (pb_Header d))"
  by (simp add: ExtBlock_GetHeight_def)

end
