(* ===== verification/Msg_Cert.thy ===== *)
theory Msg_Cert
  imports Chain_Block
begin

text \<open>
  Votes and certificates as the replica handles them: \<^verbatim>\<open>msg/types.go\<close>, \<^verbatim>\<open>msg/vote.go\<close>,
  \<^verbatim>\<open>msg/partcert.go\<close>, \<^verbatim>\<open>msg/blockcert.go\<close> and \<^verbatim>\<open>msg/proposal.go\<close>. A cached wire form is
  \<open>None\<close> before the first \<open>Store\<close>; the \<open>valid\<close> flag of a cache likewise.
\<close>

section \<open>Votes\<close>

text \<open>The intermediate structs \<open>VoteData\<close> and \<open>VoteBody\<close> only hold the pointer to the message
  part; \<open>FromProto\<close>, which every vote of the program goes through, allocates both.\<close>

record Vote =
  v_Data :: "ProtoVoteData option"
  v_Body :: "ProtoVoteBody option"
  v_proto :: "ProtoVote option"

definition Vote_ToProto :: "Vote \<Rightarrow> ProtoVote \<times> Vote" where
  "Vote_ToProto v = (case v_proto v of
       None \<Rightarrow> let pv = \<lparr>pv_Data = v_Data v, pv_Body = v_Body v\<rparr> in (pv, v\<lparr>v_proto := Some pv\<rparr>)
     | Some pv \<Rightarrow> (pv, v))"

definition Vote_FromProto :: "ProtoVote \<Rightarrow> Vote" where
  "Vote_FromProto data = \<lparr>v_Data = pv_Data data, v_Body = pv_Body data, v_proto = Some data\<rparr>"

definition Vote_GetVoter :: "Vote \<Rightarrow> u64" where
  "Vote_GetVoter v = ProtoVoteBody_GetVoter (v_Body v)"

definition Vote_GetSignature :: "Vote \<Rightarrow> bytes" where
  "Vote_GetSignature v = ProtoVoteBody_GetSignature (v_Body v)"

definition Vote_GetBlockHash :: "Vote \<Rightarrow> bytes" where
  "Vote_GetBlockHash v = ProtoVoteData_GetBlockHash (v_Data v)"

definition Vote_GetView :: "Vote \<Rightarrow> u64" where
  "Vote_GetView v = ProtoVoteData_GetView (v_Data v)"

text \<open>Reading the field \<open>v.Owner\<close> (not the getter) dereferences the vote data.\<close>

definition Vote_Owner :: "Vote \<Rightarrow> u64 result" where
  "Vote_Owner v = bind_r (deref (v_Data v)) (\<lambda>d. Inr (vd_Owner d))"

section \<open>Partial certificates\<close>

record PartialCertificate =
  pc_data :: bytes
  pc_ids :: "u64 list"
  pc_sigs :: "bytes list"
  pc_voteMap :: "(u64, bytes) gomap option"
  pc_proto :: "Certificate option"
  pc_valid :: "bool option"

definition PartialCertificate_zero :: PartialCertificate where
  "PartialCertificate_zero = \<lparr>pc_data = [], pc_ids = [], pc_sigs = [], pc_voteMap = None,
     pc_proto = None, pc_valid = None\<rparr>"

definition PC_Init :: "PartialCertificate \<Rightarrow> PartialCertificate" where
  "PC_Init pc = pc\<lparr>pc_voteMap := Some []\<rparr>"

definition PC_AddSignature :: "u64 \<Rightarrow> bytes \<Rightarrow> PartialCertificate \<Rightarrow> PartialCertificate result" where
  "PC_AddSignature signer sig pc = (case pc_voteMap pc of
       None \<Rightarrow> Inl NilMapWrite
     | Some m \<Rightarrow> Inr (pc\<lparr>pc_ids := pc_ids pc @ [signer], pc_sigs := pc_sigs pc @ [sig],
         pc_voteMap := Some (mput signer sig m), pc_valid := Some False\<rparr>))"

definition PC_SetData :: "bytes \<Rightarrow> PartialCertificate \<Rightarrow> PartialCertificate" where
  "PC_SetData data pc = pc\<lparr>pc_data := data, pc_valid := Some False\<rparr>"

definition PC_GetData :: "PartialCertificate \<Rightarrow> bytes" where
  "PC_GetData pc = pc_data pc"

definition PC_GetSigners :: "PartialCertificate \<Rightarrow> u64 list" where
  "PC_GetSigners pc = pc_ids pc"

definition PC_GetNumSigners :: "PartialCertificate \<Rightarrow> u64" where
  "PC_GetNumSigners pc = word_of_nat (length (pc_ids pc))"

definition PC_GetSignatureFromID :: "u64 \<Rightarrow> PartialCertificate \<Rightarrow> bytes option" where
  "PC_GetSignatureFromID i pc = (case pc_voteMap pc of None \<Rightarrow> None | Some m \<Rightarrow> mget m i)"

definition PC_FromProto :: "Certificate \<Rightarrow> PartialCertificate \<Rightarrow> PartialCertificate" where
  "PC_FromProto data pc = pc\<lparr>pc_data := ct_Data data, pc_ids := ct_Ids data, pc_sigs := ct_Signatures data\<rparr>"

text \<open>
  \<open>ToProto\<close> has a value receiver: the stores into the caches change a copy, which the recursive
  call (for a stale cache) goes on with.
\<close>

function PC_ToProto :: "PartialCertificate \<Rightarrow> Certificate" where
  "PC_ToProto pc =
     (let isValid = (case pc_valid pc of None \<Rightarrow> False | Some b \<Rightarrow> b);
          fresh = \<lparr>ct_Data = pc_data pc, ct_Signatures = pc_sigs pc, ct_Ids = pc_ids pc\<rparr>
      in case pc_proto pc of
           None \<Rightarrow> fresh
         | Some c \<Rightarrow>
             if \<not> isValid then fresh
             else if length (ct_Ids c) \<noteq> length (pc_ids pc) then PC_ToProto (pc\<lparr>pc_valid := Some False\<rparr>)
             else c)"
  by pat_completeness auto
termination
  by (relation "measure (\<lambda>pc. if pc_valid pc = Some True then 1 else 0)")
     (auto split: option.splits)

declare PC_ToProto.simps [simp del]

section \<open>Block certificates\<close>

record BlockCertificate =
  bc_Partial :: PartialCertificate
  bc_data :: ProtoVoteData
  bc_valid :: "bool option"
  bc_proto :: "Certificate option"

definition BlockCertificate_zero :: BlockCertificate where
  "BlockCertificate_zero = \<lparr>bc_Partial = PartialCertificate_zero,
     bc_data = \<lparr>vd_BlockHash = [], vd_View = 0, vd_Owner = 0\<rparr>, bc_valid = None, bc_proto = None\<rparr>"

definition GenesisCert :: "env \<Rightarrow> BlockCertificate" where
  "GenesisCert E = BlockCertificate_zero
     \<lparr>bc_data := \<lparr>vd_BlockHash = HashBytes E EmptyHash, vd_View = 1, vd_Owner = 0\<rparr>\<rparr>"

definition BC_GetBlockInfo :: "env \<Rightarrow> BlockCertificate \<Rightarrow> hash \<times> u64" where
  "BC_GetBlockInfo E bc = (ToHash E (vd_BlockHash (bc_data bc)), vd_View (bc_data bc))"

definition BC_Init :: "BlockCertificate \<Rightarrow> BlockCertificate" where
  "BC_Init bc = bc\<lparr>bc_Partial := PC_Init (bc_Partial bc)\<rparr>"

definition BC_AddVote :: "Vote \<Rightarrow> BlockCertificate \<Rightarrow> BlockCertificate result" where
  "BC_AddVote v bc = bind_r (PC_AddSignature (Vote_GetVoter v) (Vote_GetSignature v) (bc_Partial bc))
     (\<lambda>pc. Inr (bc\<lparr>bc_Partial := pc, bc_valid := Some False\<rparr>))"

definition BC_SetBlockInfo :: "env \<Rightarrow> hash \<Rightarrow> u64 \<Rightarrow> BlockCertificate \<Rightarrow> BlockCertificate" where
  "BC_SetBlockInfo E h view bc = bc\<lparr>bc_data := (bc_data bc)\<lparr>vd_BlockHash := HashBytes E h, vd_View := view\<rparr>,
     bc_valid := Some False\<rparr>"

definition BC_fresh :: "env \<Rightarrow> BlockCertificate \<Rightarrow> Certificate" where
  "BC_fresh E bc = \<lparr>ct_Data = fst (MarshalVoteData E (Some (bc_data bc))),
     ct_Signatures = pc_sigs (bc_Partial bc), ct_Ids = pc_ids (bc_Partial bc)\<rparr>"

text \<open>\<open>ToProto\<close> has a pointer receiver: the caches of the certificate itself are updated.\<close>

function BC_ToProto :: "env \<Rightarrow> BlockCertificate \<Rightarrow> Certificate \<times> BlockCertificate" where
  "BC_ToProto E bc =
     (let isValid = (case bc_valid bc of None \<Rightarrow> False | Some b \<Rightarrow> b);
          fresh = BC_fresh E bc
      in case bc_proto bc of
           None \<Rightarrow> (fresh, bc\<lparr>bc_proto := Some fresh, bc_valid := Some True\<rparr>)
         | Some c \<Rightarrow>
             if \<not> isValid then (fresh, bc\<lparr>bc_proto := Some fresh, bc_valid := Some True\<rparr>)
             else if length (ct_Ids c) \<noteq> length (pc_ids (bc_Partial bc))
                  then BC_ToProto E (bc\<lparr>bc_valid := Some False\<rparr>)
             else (c, bc))"
  by pat_completeness auto
termination
  by (relation "measure (\<lambda>(E, bc). if bc_valid bc = Some True then 1 else 0)")
     (auto split: option.splits)

declare BC_ToProto.simps [simp del]

text \<open>\<open>FromProto\<close> fills the signature map by indexing the signatures with the positions of the
  ids: fewer signatures than ids panic.\<close>

fun fill_votes :: "u64 list \<Rightarrow> bytes list \<Rightarrow> (u64, bytes) gomap \<Rightarrow> (u64, bytes) gomap result" where
  "fill_votes [] sigs m = Inr m"
| "fill_votes (i # ids) [] m = Inl IndexOutOfRange"
| "fill_votes (i # ids) (s # sigs) m = fill_votes ids sigs (mput i s m)"

definition BC_FromProto :: "env \<Rightarrow> Certificate \<Rightarrow> BlockCertificate \<Rightarrow> BlockCertificate result" where
  "BC_FromProto E data bc0 =
     (let bc = BC_Init bc0 in
      bind_r (fill_votes (ct_Ids data) (ct_Signatures data) []) (\<lambda>m.
        Inr (bc\<lparr>bc_data := UnmarshalVoteData E (ct_Data data),
                bc_Partial := (bc_Partial bc)\<lparr>pc_ids := ct_Ids data, pc_sigs := ct_Signatures data,
                  pc_data := ct_Data data, pc_voteMap := Some m\<rparr>,
                bc_proto := Some data\<rparr>)))"

section \<open>Extended proposals\<close>

record ExtProposal =
  ep_Proposal :: Proposal
  ep_ExtBlock :: ExtBlock
  ep_BlockCertificate :: BlockCertificate

definition ExtProposal_FromProto :: "env \<Rightarrow> Proposal \<Rightarrow> ExtProposal result" where
  "ExtProposal_FromProto E data =
     bind_r (ExtBlock_FromProto E (pr_Block data) ExtBlock_zero) (\<lambda>eb.
     bind_r (BC_FromProto E (UnmarshalCertificate E (pr_ProposeEvidence data)) BlockCertificate_zero) (\<lambda>bc.
       Inr \<lparr>ep_Proposal = data, ep_ExtBlock = eb, ep_BlockCertificate = bc\<rparr>))"

definition ExtProposal_ToProto :: "ExtProposal \<Rightarrow> Proposal" where
  "ExtProposal_ToProto ep = ep_Proposal ep"

end
