(* ===== verification/Big_Float.thy ===== *)
theory Big_Float
  imports Complex_Main Go_Prelude "HOL-Library.Log_Nat"
begin

text \<open>
  The part of Go's \<^verbatim>\<open>math/big.Float\<close> that the reputation code uses. A finite
  \<^verbatim>\<open>big.Float\<close> is a precision and a dyadic number \<open>m * 2 ^ e\<close>; every arithmetic operation
  computes the exact result and rounds it to the precision of the receiver, to nearest with ties
  to even (the default mode). A receiver with precision 0 (\<^verbatim>\<open>new(big.Float)\<close>) takes the larger
  precision of the operands, 64 from \<^verbatim>\<open>SetUint64\<close> and 53 from \<^verbatim>\<open>SetFloat64\<close>. Exponents
  stay far from the limits of \<^verbatim>\<open>big.Float\<close> (32 bits) and of \<^verbatim>\<open>float64\<close> in the replica, so
  overflow, infinities and denormal numbers are left out.
\<close>

section \<open>Rounding an integer mantissa\<close>

text \<open>\<open>round_nat p m\<close> is the multiple of a power of two with at most \<open>p\<close> significant bits
  that is nearest to \<open>m\<close>, ties to even.\<close>

definition round_shift :: "nat \<Rightarrow> nat \<Rightarrow> nat \<Rightarrow> nat" where
  "round_shift p s m = (let q = m div 2 ^ s; r = m mod 2 ^ s; h = 2 ^ (s - 1)
     in (if r > h \<or> (r = h \<and> odd q) then Suc q else q))"

definition round_nat :: "nat \<Rightarrow> nat \<Rightarrow> nat" where
  "round_nat p m = (let s = floorlog 2 m - p in if s = 0 then m else round_shift p s m * 2 ^ s)"

definition round_int :: "nat \<Rightarrow> int \<Rightarrow> int" where
  "round_int p m = sgn m * int (round_nat p (nat \<bar>m\<bar>))"

lemma round_nat_exact: "floorlog 2 m \<le> p \<Longrightarrow> round_nat p m = m"
  by (simp add: round_nat_def)

lemma round_nat_exact_pow: "m < 2 ^ p \<Longrightarrow> round_nat p m = m"
  by (rule round_nat_exact) (simp add: floorlog_le_iff)

lemma round_nat_0 [simp]: "round_nat p 0 = 0"
  by (simp add: round_nat_exact_pow)

lemma round_shift_bounds: "m div 2 ^ s \<le> round_shift p s m" "round_shift p s m \<le> Suc (m div 2 ^ s)"
  by (auto simp: round_shift_def Let_def)

lemma round_shift_mono: "m \<le> m' \<Longrightarrow> round_shift p s m \<le> round_shift p s m'"
proof -
  assume le: "m \<le> m'"
  then have q: "m div 2 ^ s \<le> m' div 2 ^ s"
    by (rule div_le_mono)
  show ?thesis
  proof (cases "m div 2 ^ s = m' div 2 ^ s")
    case True
    with le have "m mod 2 ^ s \<le> m' mod 2 ^ s"
      by (metis add_le_cancel_left div_mult_mod_eq)
    with True show ?thesis
      by (auto simp: round_shift_def Let_def)
  next
    case False
    with q have "Suc (m div 2 ^ s) \<le> m' div 2 ^ s"
      by simp
    then show ?thesis
      using round_shift_bounds(2) [of p s m] round_shift_bounds(1) [of m' s p] by linarith
  qed
qed

text \<open>The binade of \<open>m\<close>, in terms of the shift the rounding uses.\<close>

lemma shift_binade:
  assumes "0 < floorlog 2 m - p"
  shows "2 ^ (p + (floorlog 2 m - p) - 1) \<le> m" and "m < 2 ^ (p + (floorlog 2 m - p))"
proof -
  have m: "0 < m"
    using assms by (cases "m = 0") (auto simp: floorlog_def)
  have "p + (floorlog 2 m - p) = floorlog 2 m"
    using assms by simp
  with floorlog_bounds [OF m, of 2]
  show "2 ^ (p + (floorlog 2 m - p) - 1) \<le> m" and "m < 2 ^ (p + (floorlog 2 m - p))"
    by simp_all
qed

lemma round_nat_le_pow:
  assumes "m < 2 ^ (p + s)"
  shows "round_nat p m \<le> 2 ^ (p + s)"
proof (cases "floorlog 2 m - p = 0")
  case True
  with assms show ?thesis by (simp add: round_nat_def)
next
  case False
  let ?t = "floorlog 2 m - p"
  have ts: "?t \<le> s"
    using floorlog_leI [OF assms] by simp
  have "m div 2 ^ ?t < 2 ^ p"
    using shift_binade(2) [of m p] False by (intro less_mult_imp_div_less) (simp add: power_add [symmetric])
  then have "round_shift p ?t m \<le> 2 ^ p"
    using round_shift_bounds(2) [of p ?t m] by linarith
  then have "round_shift p ?t m * 2 ^ ?t \<le> 2 ^ p * 2 ^ ?t"
    by simp
  also have "\<dots> \<le> 2 ^ (p + s)"
    using ts by (simp add: power_add [symmetric])
  finally show ?thesis
    using False by (simp add: round_nat_def Let_def)
qed

lemma pow_le_round_nat:
  assumes "1 \<le> p" and "2 ^ (p + s - 1) \<le> m"
  shows "2 ^ (p + s - 1) \<le> round_nat p m"
proof (cases "floorlog 2 m - p = 0")
  case True
  with assms show ?thesis by (simp add: round_nat_def)
next
  case False
  let ?t = "floorlog 2 m - p"
  have "p + s \<le> p + ?t"
  proof -
    have "p + s \<le> floorlog 2 m"
      using assms(2) by (rule floorlog_geI) simp
    then show ?thesis using False by simp
  qed
  then have "(2::nat) ^ (p + s - 1) \<le> 2 ^ (p + ?t - 1)"
    by (intro power_increasing) auto
  also have "\<dots> = 2 ^ (p - 1) * 2 ^ ?t"
    using assms(1) by (simp add: power_add [symmetric])
  also have "\<dots> \<le> round_shift p ?t m * 2 ^ ?t"
  proof -
    have "2 ^ (p - 1) * 2 ^ ?t \<le> m"
      using shift_binade(1) [of m p] False assms(1) by (simp add: power_add [symmetric])
    then have "2 ^ (p - 1) \<le> m div 2 ^ ?t"
      by (simp add: div_le_mono less_eq_div_iff_mult_less_eq)
    then show ?thesis
      using round_shift_bounds(1) [of m ?t p] by simp
  qed
  finally show ?thesis
    using False by (simp add: round_nat_def Let_def)
qed

lemma round_nat_mono:
  assumes "1 \<le> p" and le: "a \<le> b"
  shows "round_nat p a \<le> round_nat p b"
proof -
  let ?s = "floorlog 2 a - p" and ?t = "floorlog 2 b - p"
  have st: "?s \<le> ?t"
    using floorlog_mono [OF le, of 2] by simp
  show ?thesis
  proof (cases "?s = ?t")
    case True
    with le show ?thesis
      by (auto simp: round_nat_def Let_def round_shift_mono)
  next
    case False
    with st have lt: "?s < ?t" by simp
    then have b: "2 ^ (p + ?t - 1) \<le> b"
      using shift_binade(1) [of b p] by simp
    have "a < 2 ^ (p + ?s)"
      by (rule floorlog_leD) auto
    then have "round_nat p a \<le> 2 ^ (p + ?s)"
      by (rule round_nat_le_pow)
    also have "\<dots> \<le> 2 ^ (p + ?t - 1)"
      using lt by (intro power_increasing) auto
    also have "\<dots> \<le> round_nat p b"
      by (rule pow_le_round_nat [OF assms(1) b])
    finally show ?thesis .
  qed
qed

lemma round_shift_scale:
  assumes "0 < s"
  shows "round_shift p (s + k) (m * 2 ^ k) = round_shift p s m"
proof -
  have "m * 2 ^ k div 2 ^ (s + k) = m div 2 ^ s"
    by (simp add: power_add)
  moreover have "m * 2 ^ k mod 2 ^ (s + k) = m mod 2 ^ s * 2 ^ k"
    by (simp add: power_add mult_mod_left)
  moreover have "(2::nat) ^ (s + k - 1) = 2 ^ (s - 1) * 2 ^ k"
    using assms by (simp add: power_add [symmetric])
  ultimately show ?thesis
    by (simp add: round_shift_def Let_def)
qed

lemma round_nat_dvd:
  assumes "2 ^ (floorlog 2 m - p) dvd m"
  shows "round_nat p m = m"
proof (cases "floorlog 2 m - p")
  case 0
  then show ?thesis by (simp add: round_nat_def)
next
  case (Suc n)
  with assms have "m mod 2 ^ Suc n = 0"
    by auto
  with assms Suc show ?thesis
    by (simp add: round_nat_def round_shift_def Let_def)
qed

lemma round_nat_scale: "round_nat p (m * 2 ^ k) = round_nat p m * 2 ^ k"
proof (cases "m = 0")
  case False
  then have fl: "floorlog 2 (m * 2 ^ k) = floorlog 2 m + k"
    by simp
  show ?thesis
  proof (cases "floorlog 2 m \<le> p")
    case True
    then have "(2::nat) ^ (floorlog 2 (m * 2 ^ k) - p) dvd m * 2 ^ k"
      unfolding fl by (intro dvd_mult le_imp_power_dvd) simp
    with True show ?thesis
      by (simp add: round_nat_dvd round_nat_exact)
  next
    case c: False
    define t where "t = floorlog 2 m - p"
    have t: "0 < t" "floorlog 2 (m * 2 ^ k) - p = t + k"
      using c by (simp_all add: t_def fl)
    then show ?thesis
      unfolding round_nat_def Let_def t_def [symmetric] by (simp add: round_shift_scale power_add)
  qed
qed simp

text \<open>The relative error is at most half a unit in the last place.\<close>

lemma round_shift_error:
  assumes "0 < s"
  shows "\<bar>int (round_shift p s m * 2 ^ s) - int m\<bar> \<le> 2 ^ (s - 1)"
proof -
  have m: "m = m div 2 ^ s * 2 ^ s + m mod 2 ^ s"
    by (rule div_mult_mod_eq [symmetric])
  have two: "(2::nat) ^ s = 2 * 2 ^ (s - 1)"
    using assms by (cases s) auto
  have r: "m mod 2 ^ s < 2 ^ s"
    by simp
  show ?thesis
  proof (cases "m mod 2 ^ s > 2 ^ (s - 1) \<or> (m mod 2 ^ s = 2 ^ (s - 1) \<and> odd (m div 2 ^ s))")
    case True
    then have rs: "round_shift p s m * 2 ^ s = m div 2 ^ s * 2 ^ s + 2 ^ s"
      by (simp add: round_shift_def Let_def)
    have "int m \<le> int (round_shift p s m * 2 ^ s)"
      using m r unfolding rs by linarith
    moreover have "int (round_shift p s m * 2 ^ s) - int m \<le> int (2 ^ (s - 1))"
      using m two True unfolding rs by linarith
    ultimately show ?thesis by simp
  next
    case False
    then have rs: "round_shift p s m * 2 ^ s = m div 2 ^ s * 2 ^ s"
      by (auto simp: round_shift_def Let_def)
    have "int (round_shift p s m * 2 ^ s) \<le> int m"
      unfolding rs using m by linarith
    moreover have "int m - int (round_shift p s m * 2 ^ s) \<le> int (2 ^ (s - 1))"
      using m False unfolding rs by linarith
    ultimately show ?thesis by simp
  qed
qed

lemma round_nat_error:
  assumes "1 \<le> p"
  shows "\<bar>int (round_nat p m) - int m\<bar> * 2 ^ p \<le> int m"
proof (cases "floorlog 2 m - p = 0")
  case True
  then show ?thesis by (simp add: round_nat_def)
next
  case False
  let ?s = "floorlog 2 m - p"
  have "\<bar>int (round_nat p m) - int m\<bar> \<le> 2 ^ (?s - 1)"
    using round_shift_error [of ?s p m] False by (simp add: round_nat_def Let_def)
  then have "\<bar>int (round_nat p m) - int m\<bar> * 2 ^ p \<le> 2 ^ (?s - 1) * 2 ^ p"
    by simp
  also have "\<dots> = int (2 ^ (p + ?s - 1))"
    using False by (simp add: power_add [symmetric])
  also have "\<dots> \<le> int m"
    using shift_binade(1) [of m p] False by (simp add: zle_int del: of_nat_power)
  finally show ?thesis .
qed

section \<open>Signed mantissas\<close>

lemma round_int_exact: "\<bar>m\<bar> < 2 ^ p \<Longrightarrow> round_int p m = m"
proof -
  assume "\<bar>m\<bar> < 2 ^ p"
  then have "nat \<bar>m\<bar> < 2 ^ p"
    by (simp add: nat_less_iff)
  then show ?thesis
    by (simp add: round_int_def round_nat_exact_pow sgn_mult_abs del: abs_sgn)
qed

lemma round_int_0 [simp]: "round_int p 0 = 0"
  by (simp add: round_int_def)

lemma round_int_nonneg: "0 \<le> m \<Longrightarrow> round_int p m = int (round_nat p (nat m))"
  by (cases "m = 0") (simp_all add: round_int_def)

lemma round_int_neg: "m < 0 \<Longrightarrow> round_int p m = - int (round_nat p (nat (- m)))"
  by (simp add: round_int_def)

lemma round_int_sign: "0 \<le> m \<Longrightarrow> 0 \<le> round_int p m" "m \<le> 0 \<Longrightarrow> round_int p m \<le> 0"
  by (auto simp: round_int_def sgn_if)

lemma round_int_mono:
  assumes "1 \<le> p" and "a \<le> b"
  shows "round_int p a \<le> round_int p b"
proof (cases "0 \<le> a")
  case True
  then show ?thesis
    using assms round_nat_mono [OF assms(1), of "nat a" "nat b"]
    by (simp add: round_int_nonneg nat_mono)
next
  case a: False
  show ?thesis
  proof (cases "0 \<le> b")
    case True
    then show ?thesis
      using a round_int_sign(1) [of b p] round_int_sign(2) [of a p] by linarith
  next
    case False
    then show ?thesis
      using a assms round_nat_mono [OF assms(1), of "nat (- b)" "nat (- a)"]
      by (simp add: round_int_neg)
  qed
qed

lemma round_int_scale: "round_int p (m * 2 ^ k) = round_int p m * 2 ^ k"
proof -
  have "nat \<bar>m * 2 ^ k\<bar> = nat \<bar>m\<bar> * 2 ^ k"
    by (simp add: abs_mult nat_mult_distrib nat_power_eq)
  then show ?thesis
    by (simp add: round_int_def round_nat_scale sgn_mult)
qed

lemma round_int_error:
  assumes "1 \<le> p"
  shows "\<bar>round_int p m - m\<bar> * 2 ^ p \<le> \<bar>m\<bar>"
proof (cases "0 \<le> m")
  case True
  then show ?thesis
    using round_nat_error [OF assms, of "nat m"] by (simp add: round_int_nonneg)
next
  case False
  then have e: "round_int p m - m = - (int (round_nat p (nat (- m))) - int (nat (- m)))"
    by (simp add: round_int_neg)
  show ?thesis
    unfolding e abs_minus_cancel using round_nat_error [OF assms, of "nat (- m)"] False by simp
qed

text \<open>The same rounding on integers only, for evaluation.\<close>

lemma round_int_code [code]:
  "round_int p m = (let a = \<bar>m\<bar>; s = nat (bitlen a - int p) in
     if s = 0 then m
     else (let q = a div 2 ^ s; r = a mod 2 ^ s; h = 2 ^ (s - 1)
           in sgn m * ((if r > h \<or> (r = h \<and> odd q) then q + 1 else q) * 2 ^ s)))"
proof -
  obtain a where a: "nat \<bar>m\<bar> = a" "\<bar>m\<bar> = int a"
    by (metis abs_ge_zero nonneg_int_cases nat_int)
  have s: "nat (bitlen (int a) - int p) = floorlog 2 a - p"
    by (simp add: bitlen_def nat_diff_distrib)
  have cmp: "int x mod 2 ^ s > 2 ^ t \<longleftrightarrow> x mod 2 ^ s > 2 ^ t" "int x mod 2 ^ s = 2 ^ t \<longleftrightarrow> x mod 2 ^ s = 2 ^ t"
    for x s t :: nat
    by (metis of_nat_less_iff of_nat_numeral of_nat_power zmod_int)
       (metis of_nat_eq_iff of_nat_numeral of_nat_power zmod_int)
  have odd: "odd (int x div 2 ^ s) \<longleftrightarrow> odd (x div 2 ^ s)" for x s :: nat
    by (metis even_of_nat of_nat_numeral of_nat_power zdiv_int)
  show ?thesis
  proof (cases "floorlog 2 a - p = 0")
    case True
    then show ?thesis
      unfolding round_int_def Let_def a(2) s nat_int by (simp add: round_nat_def a(2) [symmetric] sgn_mult_abs del: abs_sgn)
  next
    case False
    then show ?thesis
      unfolding round_int_def round_nat_def round_shift_def Let_def a(2) s nat_int cmp odd
      by (simp add: zdiv_int)
  qed
qed

section \<open>Dyadic numbers\<close>

text \<open>\<open>(m, e)\<close> is \<open>m * 2 ^ e\<close>; a \<^verbatim>\<open>float64\<close> value is a dyadic number too.\<close>

type_synonym dyadic = "int \<times> int"

definition dval :: "dyadic \<Rightarrow> real" where
  "dval d = of_int (fst d) * 2 powi snd d"

definition dmant :: "dyadic \<Rightarrow> int \<Rightarrow> int" where
  "dmant d e = fst d * 2 ^ nat (snd d - e)"

definition dadd :: "dyadic \<Rightarrow> dyadic \<Rightarrow> dyadic" where
  "dadd a b = (let e = min (snd a) (snd b) in (dmant a e + dmant b e, e))"

definition dsub :: "dyadic \<Rightarrow> dyadic \<Rightarrow> dyadic" where
  "dsub a b = (let e = min (snd a) (snd b) in (dmant a e - dmant b e, e))"

definition dmul :: "dyadic \<Rightarrow> dyadic \<Rightarrow> dyadic" where
  "dmul a b = (fst a * fst b, snd a + snd b)"

definition dcmp :: "dyadic \<Rightarrow> dyadic \<Rightarrow> int" where
  "dcmp a b = (let e = min (snd a) (snd b) in sgn (dmant a e - dmant b e))"

definition dround :: "nat \<Rightarrow> dyadic \<Rightarrow> dyadic" where
  "dround p d = (round_int p (fst d), snd d)"

lemma dval_dmant: "e \<le> snd d \<Longrightarrow> dval d = of_int (dmant d e) * 2 powi e"
proof -
  assume "e \<le> snd d"
  then have "(2::real) powi snd d = 2 ^ nat (snd d - e) * 2 powi e"
    by (simp add: power_int_add [symmetric] flip: power_int_of_nat)
  then show ?thesis
    by (simp add: dval_def dmant_def)
qed

lemma dval_pair: "dval (m, e) = of_int m * 2 powi e"
  by (simp add: dval_def)

lemma dval_dadd [simp]: "dval (dadd a b) = dval a + dval b"
  by (simp add: dadd_def Let_def dval_pair dval_dmant [of "min (snd a) (snd b)"] algebra_simps)

lemma dval_dsub [simp]: "dval (dsub a b) = dval a - dval b"
  by (simp add: dsub_def Let_def dval_pair dval_dmant [of "min (snd a) (snd b)"] algebra_simps)

lemma dval_dmul [simp]: "dval (dmul a b) = dval a * dval b"
  by (simp add: dmul_def dval_def power_int_add)

lemma dval_less_iff: "dval a < dval b \<longleftrightarrow> dmant a (min (snd a) (snd b)) < dmant b (min (snd a) (snd b))"
  by (simp add: dval_dmant [of "min (snd a) (snd b)"])

lemma dval_eq_iff: "dval a = dval b \<longleftrightarrow> dmant a (min (snd a) (snd b)) = dmant b (min (snd a) (snd b))"
  by (simp add: dval_dmant [of "min (snd a) (snd b)"])

lemma dcmp_simps:
  "dcmp a b = -1 \<longleftrightarrow> dval a < dval b"
  "dcmp a b = 0 \<longleftrightarrow> dval a = dval b"
  "dcmp a b = 1 \<longleftrightarrow> dval a > dval b"
proof -
  let ?e = "min (snd a) (snd b)"
  have lt: "dval a < dval b \<longleftrightarrow> dmant a ?e < dmant b ?e"
    by (rule dval_less_iff)
  have gt: "dval b < dval a \<longleftrightarrow> dmant b ?e < dmant a ?e"
    using dval_less_iff [of b a] by (simp add: min.commute)
  have eq: "dval a = dval b \<longleftrightarrow> dmant a ?e = dmant b ?e"
    by (rule dval_eq_iff)
  show "dcmp a b = -1 \<longleftrightarrow> dval a < dval b" "dcmp a b = 0 \<longleftrightarrow> dval a = dval b"
    "dcmp a b = 1 \<longleftrightarrow> dval a > dval b"
    unfolding lt gt eq by (auto simp: dcmp_def Let_def sgn_if)
qed

lemma dval_sign: "0 \<le> dval d \<longleftrightarrow> 0 \<le> fst d" "dval d = 0 \<longleftrightarrow> fst d = 0"
proof -
  have "(0::real) < 2 powi snd d"
    by simp
  from mult_le_cancel_right_pos [OF this, of 0 "of_int (fst d)"]
  show "0 \<le> dval d \<longleftrightarrow> 0 \<le> fst d" "dval d = 0 \<longleftrightarrow> fst d = 0"
    by (simp_all add: dval_def)
qed

lemma dround_dmant: "e \<le> snd d \<Longrightarrow> dval (dround p d) = of_int (round_int p (dmant d e)) * 2 powi e"
  using dval_dmant [of e "dround p d"]
  by (simp add: dround_def dmant_def round_int_scale)

theorem dround_mono:
  assumes "1 \<le> p" and "dval a \<le> dval b"
  shows "dval (dround p a) \<le> dval (dround p b)"
proof -
  let ?e = "min (snd a) (snd b)"
  have "dmant a ?e \<le> dmant b ?e"
    using assms(2) by (simp add: dval_dmant [of ?e])
  then have "round_int p (dmant a ?e) \<le> round_int p (dmant b ?e)"
    by (rule round_int_mono [OF assms(1)])
  then show ?thesis
    by (simp add: dround_dmant [of ?e])
qed

lemma dround_cong: "1 \<le> p \<Longrightarrow> dval a = dval b \<Longrightarrow> dval (dround p a) = dval (dround p b)"
  by (simp add: dround_mono antisym)

lemma dround_exact: "\<bar>fst d\<bar> < 2 ^ p \<Longrightarrow> dround p d = d"
  by (simp add: dround_def round_int_exact)

text \<open>Rounding a value that has a representation with \<open>p\<close> bits does nothing to the value.\<close>

lemma dround_representable:
  assumes "1 \<le> p" and "dval d = dval r" and "\<bar>fst r\<bar> < 2 ^ p"
  shows "dval (dround p d) = dval d"
  using dround_cong [OF assms(1,2)] assms(2,3) by (simp add: dround_exact)

lemma dround_error:
  assumes "1 \<le> p"
  shows "\<bar>dval (dround p d) - dval d\<bar> \<le> \<bar>dval d\<bar> / 2 ^ p"
proof -
  let ?m = "fst d"
  have "real_of_int (\<bar>round_int p ?m - ?m\<bar> * 2 ^ p) \<le> real_of_int \<bar>?m\<bar>"
    using round_int_error [OF assms, of ?m] by (rule of_int_le_iff [THEN iffD2])
  then have "\<bar>real_of_int (round_int p ?m) - ?m\<bar> \<le> \<bar>real_of_int ?m\<bar> / 2 ^ p"
    by (simp add: pos_le_divide_eq)
  then have "\<bar>real_of_int (round_int p ?m) - ?m\<bar> * 2 powi snd d \<le> \<bar>real_of_int ?m\<bar> / 2 ^ p * 2 powi snd d"
    by (rule mult_right_mono) simp
  moreover have "dval (dround p d) - dval d = (real_of_int (round_int p ?m) - ?m) * 2 powi snd d"
    by (simp add: dval_def dround_def algebra_simps)
  ultimately show ?thesis
    by (simp add: dval_def abs_mult)
qed

lemma dround_nonneg: "0 \<le> dval d \<Longrightarrow> 0 \<le> dval (dround p d)"
  by (simp add: dval_sign dround_def round_int_sign)

section \<open>The operations on \<open>*big.Float\<close>\<close>

record big_float =
  bf_prec :: nat
  bf_dy :: dyadic

definition bfval :: "big_float \<Rightarrow> real" where
  "bfval x = dval (bf_dy x)"

definition bf_round :: "nat \<Rightarrow> dyadic \<Rightarrow> big_float" where
  "bf_round p d = \<lparr>bf_prec = p, bf_dy = dround p d\<rparr>"

definition recv_prec :: "nat \<Rightarrow> big_float \<Rightarrow> big_float \<Rightarrow> nat" where
  "recv_prec zp x y = (if zp = 0 then max (bf_prec x) (bf_prec y) else zp)"

text \<open>\<^verbatim>\<open>new(big.Float).SetUint64(x)\<close> and \<^verbatim>\<open>new(big.Float).SetFloat64(x)\<close>.\<close>

definition SetUint64 :: "u64 \<Rightarrow> big_float" where
  "SetUint64 x = bf_round 64 (uint x, 0)"

definition SetFloat64 :: "dyadic \<Rightarrow> big_float" where
  "SetFloat64 d = bf_round 53 d"

text \<open>\<open>z.Add(x, y)\<close>, \<open>z.Sub(x, y)\<close>, \<open>z.Mul(x, y)\<close> for a receiver of precision \<open>zp\<close>.\<close>

definition bf_Add :: "nat \<Rightarrow> big_float \<Rightarrow> big_float \<Rightarrow> big_float" where
  "bf_Add zp x y = bf_round (recv_prec zp x y) (dadd (bf_dy x) (bf_dy y))"

definition bf_Sub :: "nat \<Rightarrow> big_float \<Rightarrow> big_float \<Rightarrow> big_float" where
  "bf_Sub zp x y = bf_round (recv_prec zp x y) (dsub (bf_dy x) (bf_dy y))"

definition bf_Mul :: "nat \<Rightarrow> big_float \<Rightarrow> big_float \<Rightarrow> big_float" where
  "bf_Mul zp x y = bf_round (recv_prec zp x y) (dmul (bf_dy x) (bf_dy y))"

definition bf_Cmp :: "big_float \<Rightarrow> big_float \<Rightarrow> int" where
  "bf_Cmp x y = dcmp (bf_dy x) (bf_dy y)"

definition bf_Float64 :: "big_float \<Rightarrow> dyadic" where
  "bf_Float64 x = dround 53 (bf_dy x)"

lemma bfval_round: "bfval (bf_round p d) = dval (dround p d)"
  by (simp add: bfval_def bf_round_def)

lemma bf_prec_simps [simp]:
  "bf_prec (bf_round p d) = p"
  "bf_prec (SetUint64 w) = 64"
  "bf_prec (SetFloat64 d) = 53"
  "bf_prec (bf_Add zp x y) = recv_prec zp x y"
  "bf_prec (bf_Sub zp x y) = recv_prec zp x y"
  "bf_prec (bf_Mul zp x y) = recv_prec zp x y"
  by (simp_all add: bf_round_def SetUint64_def SetFloat64_def bf_Add_def bf_Sub_def bf_Mul_def)

lemma bfval_SetUint64 [simp]: "bfval (SetUint64 x) = real (unat x)"
proof -
  have "uint x < 2 ^ 64"
    using uint_lt2p [of x] by simp
  then have "dround 64 (uint x, 0) = (uint x, 0)"
    by (simp add: dround_exact)
  then show ?thesis
    by (simp add: SetUint64_def bfval_round dval_pair)
qed

lemma bf_Cmp_simps:
  "bf_Cmp x y = -1 \<longleftrightarrow> bfval x < bfval y"
  "bf_Cmp x y = 0 \<longleftrightarrow> bfval x = bfval y"
  "bf_Cmp x y = 1 \<longleftrightarrow> bfval x > bfval y"
  by (simp_all add: bf_Cmp_def bfval_def dcmp_simps)

text \<open>An operation whose exact result is an integer below \<open>2 ^ p\<close> is exact.\<close>

lemma dround_integer:
  assumes "1 \<le> p" and "dval d = of_int k" and "\<bar>k\<bar> < 2 ^ p"
  shows "dval (dround p d) = of_int k"
  using dround_representable [OF assms(1), of d "(k, 0)"] assms(2,3) by (simp add: dval_pair)

lemma bf_Sub_integer:
  assumes "bfval x = of_int i" and "bfval y = of_int j" and "\<bar>i - j\<bar> < 2 ^ recv_prec zp x y"
    and "1 \<le> recv_prec zp x y"
  shows "bfval (bf_Sub zp x y) = of_int (i - j)"
  unfolding bf_Sub_def bfval_round
  by (rule dround_integer) (use assms in \<open>simp_all add: bfval_def\<close>)

lemma bf_Add_integer:
  assumes "bfval x = of_int i" and "bfval y = of_int j" and "\<bar>i + j\<bar> < 2 ^ recv_prec zp x y"
    and "1 \<le> recv_prec zp x y"
  shows "bfval (bf_Add zp x y) = of_int (i + j)"
  unfolding bf_Add_def bfval_round
  by (rule dround_integer) (use assms in \<open>simp_all add: bfval_def\<close>)

lemma bf_Add_mono:
  assumes "bfval x \<le> bfval x'" and "bfval y \<le> bfval y'"
    and "recv_prec zp x y = recv_prec zp x' y'" and "1 \<le> recv_prec zp x y"
  shows "bfval (bf_Add zp x y) \<le> bfval (bf_Add zp x' y')"
  using assms unfolding bf_Add_def bfval_round by (auto intro!: dround_mono simp: bfval_def add_mono)

lemma bf_Mul_mono:
  assumes "0 \<le> bfval x" and "bfval y \<le> bfval y'"
    and "recv_prec zp x y = recv_prec zp x y'" and "1 \<le> recv_prec zp x y"
  shows "bfval (bf_Mul zp x y) \<le> bfval (bf_Mul zp x y')"
  using assms unfolding bf_Mul_def bfval_round by (auto intro!: dround_mono simp: bfval_def mult_left_mono)

lemma bf_Mul_nonneg: "0 \<le> bfval x \<Longrightarrow> 0 \<le> bfval y \<Longrightarrow> 0 \<le> bfval (bf_Mul zp x y)"
  unfolding bf_Mul_def bfval_round by (rule dround_nonneg) (simp add: bfval_def)

lemma bf_Add_nonneg: "0 \<le> bfval x \<Longrightarrow> 0 \<le> bfval y \<Longrightarrow> 0 \<le> bfval (bf_Add zp x y)"
  unfolding bf_Add_def bfval_round by (rule dround_nonneg) (simp add: bfval_def)

lemma bf_Float64_mono: "bfval x \<le> bfval y \<Longrightarrow> dval (bf_Float64 x) \<le> dval (bf_Float64 y)"
  unfolding bf_Float64_def bfval_def by (rule dround_mono) simp_all

lemma bf_Float64_nonneg: "0 \<le> bfval x \<Longrightarrow> 0 \<le> dval (bf_Float64 x)"
  unfolding bf_Float64_def bfval_def by (rule dround_nonneg)

section \<open>Accumulated sums\<close>

text \<open>The loop \<open>for .. { z = z.Add(z, x) }\<close>: each addition rounds to the precision of \<open>z\<close>.\<close>

definition bf_acc :: "big_float \<Rightarrow> big_float list \<Rightarrow> big_float" where
  "bf_acc z xs = foldl (\<lambda>z x. bf_Add (bf_prec z) z x) z xs"

lemma bf_acc_simps [simp]:
  "bf_acc z [] = z"
  "bf_acc z (x # xs) = bf_acc (bf_Add (bf_prec z) z x) xs"
  by (simp_all add: bf_acc_def)

lemma bf_acc_append: "bf_acc z (xs @ ys) = bf_acc (bf_acc z xs) ys"
  by (simp add: bf_acc_def)

text \<open>The unit roundoff of precision 53.\<close>

definition ulp53 :: real where
  "ulp53 = 1 / 2 ^ 53"

lemma ulp53_bounds: "0 < ulp53" "ulp53 < 1"
  by (simp_all add: ulp53_def)

lemma bf_Add_53_error:
  assumes "bf_prec z = 53" and "0 \<le> bfval z" and "0 \<le> bfval x"
  shows "(1 - ulp53) * (bfval z + bfval x) \<le> bfval (bf_Add (bf_prec z) z x)"
    and "bfval (bf_Add (bf_prec z) z x) \<le> (1 + ulp53) * (bfval z + bfval x)"
proof -
  let ?d = "dadd (bf_dy z) (bf_dy x)"
  have v: "dval ?d = bfval z + bfval x"
    by (simp add: bfval_def)
  have "\<bar>dval (dround 53 ?d) - dval ?d\<bar> \<le> \<bar>dval ?d\<bar> * ulp53"
    using dround_error [of 53 ?d] by (simp add: ulp53_def)
  then have "\<bar>bfval (bf_Add (bf_prec z) z x) - (bfval z + bfval x)\<bar> \<le> (bfval z + bfval x) * ulp53"
    using assms v by (simp add: bf_Add_def bfval_round recv_prec_def)
  then show "(1 - ulp53) * (bfval z + bfval x) \<le> bfval (bf_Add (bf_prec z) z x)"
    and "bfval (bf_Add (bf_prec z) z x) \<le> (1 + ulp53) * (bfval z + bfval x)"
    by (simp_all add: abs_le_iff algebra_simps)
qed

lemma bf_acc_lower:
  assumes "bf_prec z = 53" and "0 \<le> bfval z" and "\<And>x. x \<in> set xs \<Longrightarrow> 0 \<le> bfval x"
  shows "(1 - ulp53) ^ length xs * (bfval z + sum_list (map bfval xs)) \<le> bfval (bf_acc z xs)"
  using assms
proof (induction xs arbitrary: z)
  case (Cons x xs)
  let ?z = "bf_Add (bf_prec z) z x" and ?S = "sum_list (map bfval xs)" and ?n = "length xs"
  have x: "0 \<le> bfval x" and S: "0 \<le> ?S"
    using Cons.prems by (auto intro!: sum_list_nonneg)
  have z: "bf_prec ?z = 53" "0 \<le> bfval ?z"
    using Cons.prems x by (simp_all add: recv_prec_def bf_Add_nonneg)
  have "(1 - ulp53) * (bfval z + bfval x + ?S) \<le> bfval ?z + ?S"
    using bf_Add_53_error(1) [OF Cons.prems(1,2) x] mult_nonneg_nonneg [OF _ S, of ulp53] ulp53_bounds
    by (simp add: algebra_simps)
  then have "(1 - ulp53) ^ ?n * ((1 - ulp53) * (bfval z + bfval x + ?S)) \<le> (1 - ulp53) ^ ?n * (bfval ?z + ?S)"
    using ulp53_bounds by (intro mult_left_mono) auto
  also have "\<dots> \<le> bfval (bf_acc ?z xs)"
    using Cons.IH [OF z] Cons.prems(3) by simp
  finally show ?case
    by (simp add: algebra_simps)
qed simp

lemma bf_acc_upper:
  assumes "bf_prec z = 53" and "0 \<le> bfval z" and "\<And>x. x \<in> set xs \<Longrightarrow> 0 \<le> bfval x"
  shows "bfval (bf_acc z xs) \<le> (1 + ulp53) ^ length xs * (bfval z + sum_list (map bfval xs))"
  using assms
proof (induction xs arbitrary: z)
  case (Cons x xs)
  let ?z = "bf_Add (bf_prec z) z x" and ?S = "sum_list (map bfval xs)" and ?n = "length xs"
  have x: "0 \<le> bfval x" and S: "0 \<le> ?S"
    using Cons.prems by (auto intro!: sum_list_nonneg)
  have z: "bf_prec ?z = 53" "0 \<le> bfval ?z"
    using Cons.prems x by (simp_all add: recv_prec_def bf_Add_nonneg)
  have "bfval ?z + ?S \<le> (1 + ulp53) * (bfval z + bfval x + ?S)"
    using bf_Add_53_error(2) [OF Cons.prems(1,2) x] mult_nonneg_nonneg [OF _ S, of ulp53] ulp53_bounds
    by (simp add: algebra_simps)
  then have "(1 + ulp53) ^ ?n * (bfval ?z + ?S) \<le> (1 + ulp53) ^ ?n * ((1 + ulp53) * (bfval z + bfval x + ?S))"
    using ulp53_bounds by (intro mult_left_mono) auto
  moreover have "bfval (bf_acc ?z xs) \<le> (1 + ulp53) ^ ?n * (bfval ?z + ?S)"
    using Cons.IH [OF z] Cons.prems(3) by simp
  ultimately show ?case
    by (simp add: algebra_simps)
qed simp

lemma bf_acc_nonneg:
  assumes "0 \<le> bfval z" and "\<And>x. x \<in> set xs \<Longrightarrow> 0 \<le> bfval x"
  shows "0 \<le> bfval (bf_acc z xs)"
  using assms by (induction xs arbitrary: z) (auto simp: bf_Add_nonneg)

lemma bf_prec_acc: "bf_prec z = 53 \<Longrightarrow> bf_prec (bf_acc z xs) = 53"
  by (induction xs arbitrary: z) (auto simp: recv_prec_def)

end
