(* ===== verification/Node_Config.thy ===== *)
theory Node_Config
  imports Msg_Types Big_Float
begin

text \<open>
  The configuration of a node: \<^verbatim>\<open>config/node-conf.go\<close> and \<^verbatim>\<open>config/config.go\<close> over the
  structs of \<^verbatim>\<open>config/*.pb.go\<close>. Getters promoted through an embedded pointer are nil-safe; reading a field
  of a missing map entry panics.
\<close>

section \<open>The stored structs\<close>

record ProtoInfo =
  pi_NodeSize :: u64
  pi_Faults :: u64
  pi_BlockSize :: u64

record SyncHSConfig =
  sc_Id :: u64
  sc_Info :: "ProtoInfo option"
  sc_Delta :: dyadic

record Address =
  ad_IP :: string
  ad_Port :: string

record NetConfig =
  nw_NodeAddressMap :: "(u64, Address) gomap"

record CryptoConfig =
  cc_KeyType :: string
  cc_PvtKey :: bytes
  cc_NodeKeyMap :: "(u64, bytes) gomap"

record NodeDataConfig =
  nd_ProtConfig :: "SyncHSConfig option"
  nd_NetConfig :: "NetConfig option"
  nd_ClientPort :: string
  nd_CryptoCon :: "CryptoConfig option"

record ClientDataConfig =
  cd_Info :: "ProtoInfo option"
  cd_NetConfig :: "NetConfig option"
  cd_CryptoCon :: "CryptoConfig option"

definition ProtoInfo_GetNodeSize :: "ProtoInfo option \<Rightarrow> u64" where
  [go_simps]: "ProtoInfo_GetNodeSize = nil_safe pi_NodeSize 0"

definition ProtoInfo_GetFaults :: "ProtoInfo option \<Rightarrow> u64" where
  [go_simps]: "ProtoInfo_GetFaults = nil_safe pi_Faults 0"

definition ProtoInfo_GetBlockSize :: "ProtoInfo option \<Rightarrow> u64" where
  [go_simps]: "ProtoInfo_GetBlockSize = nil_safe pi_BlockSize 0"

definition SyncHSConfig_GetId :: "SyncHSConfig option \<Rightarrow> u64" where
  [go_simps]: "SyncHSConfig_GetId = nil_safe sc_Id 0"

definition SyncHSConfig_GetInfo :: "SyncHSConfig option \<Rightarrow> ProtoInfo option" where
  [go_simps]: "SyncHSConfig_GetInfo = nil_safe sc_Info None"

definition SyncHSConfig_GetDelta :: "SyncHSConfig option \<Rightarrow> dyadic" where
  [go_simps]: "SyncHSConfig_GetDelta = nil_safe sc_Delta (0, 0)"

definition NetConfig_GetNodeAddressMap :: "NetConfig option \<Rightarrow> (u64, Address) gomap" where
  [go_simps]: "NetConfig_GetNodeAddressMap = nil_safe nw_NodeAddressMap []"

definition CryptoConfig_GetKeyType :: "CryptoConfig option \<Rightarrow> string" where
  [go_simps]: "CryptoConfig_GetKeyType = nil_safe cc_KeyType []"

definition CryptoConfig_GetPvtKey :: "CryptoConfig option \<Rightarrow> bytes" where
  [go_simps]: "CryptoConfig_GetPvtKey = nil_safe cc_PvtKey []"

definition CryptoConfig_GetNodeKeyMap :: "CryptoConfig option \<Rightarrow> (u64, bytes) gomap" where
  [go_simps]: "CryptoConfig_GetNodeKeyMap = nil_safe cc_NodeKeyMap []"

text \<open>
  The external key algorithms (\<^verbatim>\<open>crypto.GetAlgo\<close>, \<open>PrivKeyFromBytes\<close>, \<open>PubKeyFromBytes\<close>), named
  by their key type, the encoders (\<open>None\<close> is an error) and decoders of a configuration file, and the
  conversions of keys and addresses of \<^verbatim>\<open>libp2p\<close>.
\<close>

record pki =
  GetAlgo :: "string \<Rightarrow> string option"
  PrivKeyFromBytes :: "string \<Rightarrow> bytes \<Rightarrow> privkey"
  PubKeyFromBytes :: "string \<Rightarrow> bytes \<Rightarrow> pubkey"
  MarshalNodeData :: "NodeDataConfig \<Rightarrow> bytes option"
  MarshalClientData :: "ClientDataConfig \<Rightarrow> bytes option"
  JsonMarshalNodeData :: "NodeDataConfig \<Rightarrow> bytes option"
  JsonMarshalClientData :: "ClientDataConfig \<Rightarrow> bytes option"
  UnmarshalNodeData :: "bytes \<Rightarrow> NodeDataConfig option"
  UnmarshalClientData :: "bytes \<Rightarrow> ClientDataConfig option"
  JsonUnmarshalNodeData :: "bytes \<Rightarrow> NodeDataConfig \<Rightarrow> NodeDataConfig option"
  JsonUnmarshalClientData :: "bytes \<Rightarrow> ClientDataConfig \<Rightarrow> ClientDataConfig option"
  IDFromPublicKey :: "pubkey option \<Rightarrow> string option"
  NewMultiaddr :: "string \<Rightarrow> string option"

text \<open>The two fields of a \<^verbatim>\<open>peerstore.AddrInfo\<close>.\<close>

type_synonym addr_info = "string \<times> string list"

section \<open>Node configuration\<close>

record NodeConfig =
  nc_SyncHSConfig :: "SyncHSConfig option"
  nc_NetConfig :: "NetConfig option"
  nc_CryptoConfig :: "CryptoConfig option"
  nc_ClientPort :: string
  nc_alg :: "string option"
  nc_pvtKey :: privkey
  nc_nodeKeyMap :: "(u64, pubkey) gomap"
  nc_proto :: "NodeDataConfig option"

definition NodeConfig_zero :: NodeConfig where
  "NodeConfig_zero = \<lparr>nc_SyncHSConfig = None, nc_NetConfig = None, nc_CryptoConfig = None,
     nc_ClientPort = [], nc_alg = None, nc_pvtKey = [], nc_nodeKeyMap = [], nc_proto = None\<rparr>"

definition NodeConfig_ToProto :: "NodeConfig \<Rightarrow> NodeDataConfig \<times> NodeConfig" where
  "NodeConfig_ToProto nc = (case nc_proto nc of
       None \<Rightarrow> let d = \<lparr>nd_ProtConfig = nc_SyncHSConfig nc, nd_NetConfig = nc_NetConfig nc,
                       nd_ClientPort = nc_ClientPort nc, nd_CryptoCon = nc_CryptoConfig nc\<rparr>
               in (d, nc\<lparr>nc_proto := Some d\<rparr>)
     | Some d \<Rightarrow> (d, nc))"

definition NodeConfig_FromProto :: "NodeDataConfig \<Rightarrow> NodeConfig \<Rightarrow> NodeConfig" where
  "NodeConfig_FromProto data nc = nc\<lparr>nc_SyncHSConfig := nd_ProtConfig data,
     nc_NetConfig := nd_NetConfig data, nc_CryptoConfig := nd_CryptoCon data,
     nc_ClientPort := nd_ClientPort data, nc_proto := Some data\<rparr>"

text \<open>The loop of \<open>init\<close> stores one decoded key per entry, so its order does not matter.\<close>

definition NodeConfig_init :: "pki \<Rightarrow> NodeConfig \<Rightarrow> NodeConfig result" where
  "NodeConfig_init P nc = (case GetAlgo P (CryptoConfig_GetKeyType (nc_CryptoConfig nc)) of
       None \<Rightarrow> Inl ExplicitPanic
     | Some alg \<Rightarrow> Inr (nc\<lparr>nc_alg := Some alg,
         nc_pvtKey := PrivKeyFromBytes P alg (CryptoConfig_GetPvtKey (nc_CryptoConfig nc)),
         nc_nodeKeyMap := map (\<lambda>(i, b). (i, PubKeyFromBytes P alg b))
           (CryptoConfig_GetNodeKeyMap (nc_CryptoConfig nc))\<rparr>))"

definition NewNodeConfig :: "pki \<Rightarrow> NodeDataConfig \<Rightarrow> NodeConfig result" where
  "NewNodeConfig P con = NodeConfig_init P (NodeConfig_FromProto con NodeConfig_zero)"

text \<open>The receiver of the encoders is a copy, so the cache of the caller stays empty.\<close>

definition NodeConfig_MarshalBinary :: "pki \<Rightarrow> NodeConfig \<Rightarrow> bytes option" where
  "NodeConfig_MarshalBinary P nc = MarshalNodeData P (fst (NodeConfig_ToProto nc))"

definition NodeConfig_MarshalJSON :: "pki \<Rightarrow> NodeConfig \<Rightarrow> bytes option" where
  "NodeConfig_MarshalJSON P nc = JsonMarshalNodeData P (fst (NodeConfig_ToProto nc))"

text \<open>The boolean says whether the returned error is non-nil.\<close>

definition NodeConfig_UnmarshalBinary :: "pki \<Rightarrow> bytes \<Rightarrow> NodeConfig \<Rightarrow> (NodeConfig \<times> bool) result" where
  "NodeConfig_UnmarshalBinary P inp nc = (case UnmarshalNodeData P inp of
       None \<Rightarrow> Inr (nc, False)
     | Some data \<Rightarrow> bind_r (NodeConfig_init P (NodeConfig_FromProto data nc)) (\<lambda>nc'. Inr (nc', False)))"

definition NodeConfig_UnmarshalJSON :: "pki \<Rightarrow> bytes \<Rightarrow> NodeConfig \<Rightarrow> (NodeConfig \<times> bool) result" where
  "NodeConfig_UnmarshalJSON P inp nc = (let (d, nc1) = NodeConfig_ToProto nc in
     case JsonUnmarshalNodeData P inp d of
       None \<Rightarrow> Inr (nc1, True)
     | Some d' \<Rightarrow> bind_r (NodeConfig_init P (nc1\<lparr>nc_proto := Some d'\<rparr>)) (\<lambda>nc'. Inr (nc', False)))"

text \<open>\<^verbatim>\<open>config/config.go\<close>.\<close>

definition GetID :: "NodeConfig \<Rightarrow> u64" where
  "GetID nc = SyncHSConfig_GetId (nc_SyncHSConfig nc)"

definition GetMyKey :: "NodeConfig \<Rightarrow> privkey" where
  "GetMyKey nc = nc_pvtKey nc"

text \<open>A missing key is a nil interface, and calling \<open>Verify\<close> on it panics.\<close>

definition GetPubKeyFromID :: "NodeConfig \<Rightarrow> u64 \<Rightarrow> pubkey option" where
  "GetPubKeyFromID nc nid = mget (nc_nodeKeyMap nc) nid"

definition GetP2PAddrFromID :: "NodeConfig \<Rightarrow> u64 \<Rightarrow> string result" where
  "GetP2PAddrFromID nc rid = bind_r (deref (mget (NetConfig_GetNodeAddressMap (nc_NetConfig nc)) rid))
     (\<lambda>a. Inr (''/ip4/'' @ ad_IP a @ ''/tcp/'' @ ad_Port a))"

definition GetPeerFromID :: "pki \<Rightarrow> NodeConfig \<Rightarrow> u64 \<Rightarrow> addr_info result" where
  "GetPeerFromID P nc nid = (case IDFromPublicKey P (GetPubKeyFromID nc nid) of
       None \<Rightarrow> Inl ExplicitPanic
     | Some pID \<Rightarrow> bind_r (GetP2PAddrFromID nc nid) (\<lambda>a. case NewMultiaddr P a of
         None \<Rightarrow> Inl ExplicitPanic
       | Some addr \<Rightarrow> Inr (pID, [addr])))"

definition GetClientListenAddr :: "NodeConfig \<Rightarrow> string result" where
  "GetClientListenAddr nc = bind_r (deref (mget (NetConfig_GetNodeAddressMap (nc_NetConfig nc)) (GetID nc)))
     (\<lambda>a. Inr (''/ip4/'' @ ad_IP a @ ''/tcp/'' @ nc_ClientPort nc))"

definition GetNumNodes :: "NodeConfig \<Rightarrow> u64" where
  "GetNumNodes nc = ProtoInfo_GetNodeSize (SyncHSConfig_GetInfo (nc_SyncHSConfig nc))"

definition GetBlockSize :: "NodeConfig \<Rightarrow> u64" where
  "GetBlockSize nc = ProtoInfo_GetBlockSize (SyncHSConfig_GetInfo (nc_SyncHSConfig nc))"

definition GetNumberOfFaultyNodes :: "NodeConfig \<Rightarrow> u64" where
  "GetNumberOfFaultyNodes nc = ProtoInfo_GetFaults (SyncHSConfig_GetInfo (nc_SyncHSConfig nc))"

text \<open>Durations are integers of nanoseconds (64 bits, signed). The conversion \<open>int(x)\<close> of a
  \<^verbatim>\<open>float64\<close> truncates towards zero.\<close>

type_synonym duration = "64 word"

definition trunc_dyadic :: "dyadic \<Rightarrow> int" where
  "trunc_dyadic d = (if 0 \<le> snd d then fst d * 2 ^ nat (snd d)
     else sgn (fst d) * (\<bar>fst d\<bar> div 2 ^ nat (- snd d)))"

definition GetDelta :: "NodeConfig \<Rightarrow> duration" where
  "GetDelta nc = word_of_int (trunc_dyadic (dround 53
     (dmul (SyncHSConfig_GetDelta (nc_SyncHSConfig nc)) (1000, 0)))) * 1000000"

definition GetCommitWaitTime :: "NodeConfig \<Rightarrow> duration" where
  "GetCommitWaitTime nc = GetDelta nc * 4"

definition GetNPBlameWaitTime :: "NodeConfig \<Rightarrow> duration" where
  "GetNPBlameWaitTime nc = GetDelta nc * 3"

end
