(* ===== verification/Round_Timer.thy ===== *)
theory Round_Timer
  imports Go_Prelude
begin

text \<open>
  The timer of \<^verbatim>\<open>util/timer.go\<close>. \<open>Start\<close> leaves a goroutine behind that waits for the end of the
  duration or for a cancellation; \<open>tm_waiting\<close> counts these goroutines. The struct is copied by
  value in the code only before it is started. Two goroutines that were started in quick succession may
  read the same channel, so that one of them never wakes; in the step relation a waiting goroutine may
  expire but need not, which covers this.
\<close>

record 'c Timer =
  tm_callable :: "'c option"
  tm_dur :: u64
  tm_internal :: bool     \<comment> \<open>whether \<open>internalTimer\<close> points to a timer\<close>
  tm_cancel :: bool       \<comment> \<open>whether the channel \<open>cancel\<close> has been made\<close>
  tm_waiting :: nat

definition Timer_zero :: "'c Timer" where
  "Timer_zero = \<lparr>tm_callable = None, tm_dur = 0, tm_internal = False, tm_cancel = False, tm_waiting = 0\<rparr>"

definition NewTimer :: "'c \<Rightarrow> 'c Timer" where
  "NewTimer call = Timer_zero\<lparr>tm_callable := Some call, tm_cancel := True\<rparr>"

definition Timer_SetTime :: "u64 \<Rightarrow> 'c Timer \<Rightarrow> 'c Timer" where
  "Timer_SetTime dur t = t\<lparr>tm_dur := dur\<rparr>"

definition Timer_SetCallAndCancel :: "'c \<Rightarrow> 'c Timer \<Rightarrow> 'c Timer" where
  "Timer_SetCallAndCancel call t = t\<lparr>tm_callable := Some call, tm_cancel := True\<rparr>"

definition Timer_Start :: "'c Timer \<Rightarrow> 'c Timer" where
  "Timer_Start t = t\<lparr>tm_internal := True, tm_waiting := Suc (tm_waiting t)\<rparr>"

text \<open>The two cases of the \<^verbatim>\<open>select\<close> in the goroutine. A case that no goroutine waits for, or whose
  channel is nil, is not enabled (\<open>None\<close>); calling a nil function panics.\<close>

definition Timer_expire :: "'c Timer \<Rightarrow> ('c \<times> 'c Timer) result option" where
  "Timer_expire t = (case tm_waiting t of 0 \<Rightarrow> None
     | Suc n \<Rightarrow> Some (bind_r (deref (tm_callable t)) (\<lambda>call. Inr (call, t\<lparr>tm_waiting := n\<rparr>))))"

definition Timer_Cancel :: "'c Timer \<Rightarrow> 'c Timer option" where
  "Timer_Cancel t = (case tm_waiting t of 0 \<Rightarrow> None
     | Suc n \<Rightarrow> if tm_cancel t then Some (t\<lparr>tm_waiting := n\<rparr>) else None)"

text \<open>\<open>Reset\<close> gives the internal timer its duration again. A goroutine that waits goes on waiting, so only
  the use before a start is visible here: it dereferences a nil timer.\<close>

definition Timer_Reset :: "'c Timer \<Rightarrow> 'c Timer result" where
  "Timer_Reset t = (if tm_internal t then Inr t else Inl NilDereference)"

text \<open>Every start is answered by exactly one expiry or one cancellation.\<close>

lemma Timer_Start_expire:
  "tm_callable t = Some call \<Longrightarrow> Timer_expire (Timer_Start t) = Some (Inr (call, t\<lparr>tm_internal := True\<rparr>))"
  by (simp add: Timer_Start_def Timer_expire_def)

lemma Timer_Start_Cancel: "tm_cancel t \<Longrightarrow> Timer_Cancel (Timer_Start t) = Some (t\<lparr>tm_internal := True\<rparr>)"
  by (simp add: Timer_Start_def Timer_Cancel_def)

end
