(* ===== verification/Node_State.thy ===== *)
theory Node_State
  imports Msg_Cert Node_Config Round_Timer
begin

text \<open>
  The state of a replica: the struct \<open>SyncHS\<close> of \<^verbatim>\<open>consensus/types.go\<close>, with the
  goroutines it has started.
\<close>

section \<open>Goroutines\<close>

text \<open>
  A \<open>go\<close> statement adds a goroutine, the list of the actions it will perform one after the
  other. An action is one call of the code or one send on a channel; the scheduler of
  \<open>Node_Protocol\<close> interleaves them with the handlers.
\<close>

datatype attack = BestCase | WithWithhold | WithEquivocation | WithMaliciousPropsoal | WithMaliciousVote

datatype action =
    Act_Broadcast SyncHSMsg
  | Act_sendVote Vote
  | Act_sendPropose Proposal
  | Act_sendMaliPropose Proposal
  | Act_sendEqEvidence EquivocationEvidence
  | Act_sendMaliProEvidence MalicousProposalEvidence
  | Act_sendMaliVoteEvidence MalicousVoteEvidence
  | Act_sendSync
  | Act_addCert BlockCertificate u64
  | Act_addProposaltoMap
  | Act_forward Proposal
  | Act_sendMalivoteEvidenceCall Vote
  | Act_sendEqProEvidenceCall Proposal Proposal
  | Act_voteOrInject ExtProposal
  | Act_timerBody attack
  | Act_react bytes
  | Act_addCmds bytes

text \<open>The only function the timer of a replica ever calls.\<close>

datatype timer_call = Call_callback

section \<open>The replica\<close>

type_synonym score_map = "(u64, (u64, u64) gomap) gomap"
type_synonym reputation_map = "(u64, (u64, big_float) gomap) gomap"

text \<open>
  The fields of \<open>SyncHS\<close> with their names in the code, except for the embedded configuration
  (\<open>cfg\<close>), the libp2p hosts and the locks, which guard no invariant the model could break. The
  last group are the local variables of the two handler loops, the runtime's goroutines, and what has
  been written to the streams of nodes and clients.
\<close>

record SyncHS_maps =
  cfg :: NodeConfig
  pMap :: "(u64, string) gomap"
  cliMap :: "(nat, bool) gomap"
  streamMap :: "(u64, nat) gomap"
  pendingCommands :: "bytes list"
  certMap :: "(u64, BlockCertificate) gomap"
  voteMap :: score_map
  voteMaliMap :: score_map
  proposalMap :: score_map
  equiproposalMap :: score_map
  withproposalMap :: score_map
  maliproposalMap :: score_map
  reputationMap :: reputation_map
  proposalByviewMap :: "(u64, Proposal) gomap"

record SyncHS_chan = SyncHS_maps +
  msgChannel :: "SyncHSMsg list"
  voteChannel :: "Vote list"
  SyncChannel :: "bool list"
  proposeChannel :: "Proposal list"
  eqEvidenceChannel :: "EquivocationEvidence list"
  maliProEvidenceChannel :: "MalicousProposalEvidence list"
  maliVoteEvidenceChannel :: "MalicousVoteEvidence list"
  maliPropseChannel :: "Proposal list"

record SyncHS_proto = SyncHS_chan +
  bc :: BlockChain
  leader :: u64
  view :: u64
  equivocatingProposalInject :: bool
  withholdingProposalInject :: bool
  maliciousProposalInject :: bool
  maliciousVoteInject :: bool
  maliProspoalExists :: bool
  maliVoteExists :: bool
  callFuncNotFinish :: bool
  gcallFuncFinish :: bool
  timer :: "timer_call Timer"
  initialReplicaSore :: big_float

record SyncHS = SyncHS_proto +
  vh_voteMap :: "(u64, (u64, Vote) gomap) gomap"
  vh_isCertified :: "(u64, bool) gomap"
  fh_fpropMap :: "(u64, (u64, Proposal) gomap) gomap"
  goroutines :: "action list list"
  netOut :: "(u64 \<times> bytes) list"
  cliOut :: "(nat \<times> bytes) list"

text \<open>A replica before \<open>Init\<close>.\<close>

definition SyncHS_zero :: SyncHS where
  "SyncHS_zero = \<lparr>cfg = NodeConfig_zero, pMap = [], cliMap = [], streamMap = [], pendingCommands = [],
     certMap = [], voteMap = [], voteMaliMap = [], proposalMap = [], equiproposalMap = [],
     withproposalMap = [], maliproposalMap = [], reputationMap = [], proposalByviewMap = [],
     msgChannel = [], voteChannel = [], SyncChannel = [], proposeChannel = [], eqEvidenceChannel = [],
     maliProEvidenceChannel = [], maliVoteEvidenceChannel = [], maliPropseChannel = [],
     bc = NewChain, leader = 0, view = 0, equivocatingProposalInject = False,
     withholdingProposalInject = False, maliciousProposalInject = False, maliciousVoteInject = False,
     maliProspoalExists = False, maliVoteExists = False, callFuncNotFinish = False,
     gcallFuncFinish = False, timer = Timer_zero, initialReplicaSore = \<lparr>bf_prec = 0, bf_dy = (0, 0)\<rparr>,
     vh_voteMap = [], vh_isCertified = [], fh_fpropMap = [], goroutines = [], netOut = [], cliOut = []\<rparr>"

end
