(* ===== verification/Node_Ops.thy ===== *)
theory Node_Ops
  imports Node_State
begin

text \<open>
  The operations on the replica's own state: \<open>Init\<close> and the state part of \<open>Setup\<close>
  (\<^verbatim>\<open>consensus/protocol.go\<close>), leader rotation (\<^verbatim>\<open>consensus/leader.go\<close>), the command pool
  (\<^verbatim>\<open>consensus/command.go\<close>), certificates and blocks by index (\<^verbatim>\<open>consensus/cert.go\<close>,
  \<^verbatim>\<open>consensus/blocks.go\<close>) and the behaviour maps (\<^verbatim>\<open>consensus/vote.go\<close>,
  \<^verbatim>\<open>consensus/proposalAndForward.go\<close>).
\<close>

section \<open>Constants and initialisation\<close>

definition DefaultLeaderID :: u64 where
  "DefaultLeaderID = 0"

definition ProtocolMsgBuffer :: nat where
  "ProtocolMsgBuffer = 100"

text \<open>The \<^verbatim>\<open>float64\<close> nearest to \<open>1e-6\<close>.\<close>

definition f64_1em6 :: dyadic where
  "f64_1em6 = (4722366482869645, -72)"

definition Init :: "env \<Rightarrow> NodeConfig \<Rightarrow> SyncHS \<Rightarrow> SyncHS" where
  "Init E c s = s\<lparr>cfg := c, leader := DefaultLeaderID, view := 1,
     pendingCommands := replicate 1000 [], timer := Timer_zero,
     streamMap := [], cliMap := [], reputationMap := [], voteMap := [], proposalMap := [],
     maliproposalMap := [], equiproposalMap := [], withproposalMap := [], voteMaliMap := [],
     proposalByviewMap := [],
     msgChannel := [], voteChannel := [], proposeChannel := [], eqEvidenceChannel := [],
     maliProEvidenceChannel := [], maliVoteEvidenceChannel := [], maliPropseChannel := [],
     SyncChannel := [],
     certMap := mput 0 (GenesisCert E) [],
     callFuncNotFinish := True, gcallFuncFinish := True, maliciousVoteInject := False,
     equivocatingProposalInject := False, withholdingProposalInject := False,
     maliciousProposalInject := False, maliVoteExists := False, maliProspoalExists := False,
     initialReplicaSore := SetFloat64 f64_1em6\<rparr>"

text \<open>
  \<open>Setup\<close> creates an empty chain and opens one stream per peer, with at most 300 attempts each.
  Whether attempt \<open>k\<close> to reach node \<open>i\<close> succeeds is up to the network (\<open>dial\<close>); the stream is
  named by the attempt that opened it.
\<close>

fun open_stream :: "(u64 \<Rightarrow> nat \<Rightarrow> bool) \<Rightarrow> u64 \<Rightarrow> nat \<Rightarrow> nat option" where
  "open_stream dial i 0 = None"
| "open_stream dial i (Suc left) = (if dial i (300 - Suc left) then Some (300 - Suc left)
     else open_stream dial i left)"

definition Setup :: "(u64 \<Rightarrow> nat \<Rightarrow> bool) \<Rightarrow> (u64, string) gomap \<Rightarrow> SyncHS \<Rightarrow> SyncHS" where
  "Setup dial peers s = s\<lparr>pMap := peers, bc := NewChain,
     streamMap := foldl (\<lambda>m i. case open_stream dial i 300 of None \<Rightarrow> m | Some k \<Rightarrow> mput i k m)
       (streamMap s) (mkeys peers)\<rparr>"

section \<open>Spawning a goroutine\<close>

definition spawn :: "action list \<Rightarrow> SyncHS \<Rightarrow> SyncHS" where
  "spawn as s = s\<lparr>goroutines := goroutines s @ [as]\<rparr>"

section \<open>Leader rotation\<close>

definition changeLeader :: "SyncHS \<Rightarrow> SyncHS result" where
  "changeLeader s = (if GetNumNodes (cfg s) = 0 then Inl DivideByZero
     else Inr (s\<lparr>leader := (leader s + 1) mod GetNumNodes (cfg s)\<rparr>))"

section \<open>The command pool\<close>

text \<open>\<open>getCmdsIfSufficient\<close> returns the last \<open>blkSize\<close> commands and keeps the others; with fewer
  commands it returns \<open>nil, false\<close>.\<close>

definition getCmdsIfSufficient :: "SyncHS \<Rightarrow> bytes list option \<times> SyncHS" where
  "getCmdsIfSufficient s =
     (let blkSize = GetBlockSize (cfg s); numCmds = word_of_nat (length (pendingCommands s)) in
      if numCmds < blkSize then (None, s)
      else (Some (drop (unat (numCmds - blkSize)) (pendingCommands s)),
            s\<lparr>pendingCommands := take (unat (numCmds - blkSize)) (pendingCommands s)\<rparr>))"

section \<open>Certificates and blocks by index\<close>

definition addCert :: "BlockCertificate \<Rightarrow> u64 \<Rightarrow> SyncHS \<Rightarrow> SyncHS" where
  "addCert c blockNum s = s\<lparr>certMap := mput blockNum c (certMap s)\<rparr>"

definition getCertForBlockIndex :: "u64 \<Rightarrow> SyncHS \<Rightarrow> BlockCertificate option" where
  "getCertForBlockIndex idx s = mget (certMap s) idx"

definition getBlock :: "hash \<Rightarrow> SyncHS \<Rightarrow> ExtBlock option" where
  "getBlock bhash s = mget (BlocksByHash (bc s)) bhash"

definition addNewBlock :: "env \<Rightarrow> ExtBlock \<Rightarrow> SyncHS \<Rightarrow> SyncHS result" where
  "addNewBlock E blk s =
     bind_r (ExtBlock_GetHeight blk) (\<lambda>ht.
     bind_r (ExtBlock_GetBlockHash E blk) (\<lambda>bh.
       Inr (s\<lparr>bc := (bc s)\<lparr>BlocksByHeight := mput ht blk (BlocksByHeight (bc s)),
                          BlocksByHash := mput bh blk (BlocksByHash (bc s))\<rparr>\<rparr>)))"

section \<open>The behaviour maps\<close>

text \<open>Votes and malicious proposals accumulate per view; \<open>v.GetBody().Voter\<close> and \<open>prop.Miner\<close>
  dereference a pointer.\<close>

definition addMaliVotetoMap :: "ProtoVote \<Rightarrow> SyncHS \<Rightarrow> SyncHS result" where
  "addMaliVotetoMap v s = bind_r (deref (pv_Body v))
     (\<lambda>b. Inr (s\<lparr>voteMaliMap := mput2 (view s) (vb_Voter b) 1 (voteMaliMap s)\<rparr>))"

definition addVotetoMap :: "ProtoVote \<Rightarrow> SyncHS \<Rightarrow> SyncHS result" where
  "addVotetoMap v s = bind_r (deref (pv_Body v))
     (\<lambda>b. Inr (s\<lparr>voteMap := mput2 (view s) (vb_Voter b) 1 (voteMap s)\<rparr>))"

definition addMaliProposaltoMap :: "Proposal option \<Rightarrow> SyncHS \<Rightarrow> SyncHS result" where
  "addMaliProposaltoMap prop s = bind_r (deref prop)
     (\<lambda>p. Inr (s\<lparr>maliproposalMap := mput2 (view s) (pr_Miner p) 1 (maliproposalMap s)\<rparr>))"

text \<open>The leader's proposal, equivocation and withholding replace the entry of the view.\<close>

definition addEquiProposaltoMap :: "SyncHS \<Rightarrow> SyncHS" where
  "addEquiProposaltoMap s = (if mget2 (equiproposalMap s) (view s) (leader s) = Some 1 then s
     else s\<lparr>equiproposalMap := mput (view s) [(leader s, 1)] (equiproposalMap s)\<rparr>)"

definition addWitholdProposaltoMap :: "SyncHS \<Rightarrow> SyncHS" where
  "addWitholdProposaltoMap s = (if mget2 (withproposalMap s) (view s) (leader s) = Some 1 then s
     else s\<lparr>withproposalMap := mput (view s) [(leader s, 1)] (withproposalMap s)\<rparr>)"

definition addProposaltoMap :: "SyncHS \<Rightarrow> SyncHS" where
  "addProposaltoMap s = (if mget2 (proposalMap s) (view s) (leader s) = Some 1 then s
     else s\<lparr>proposalMap := mput (view s) [(leader s, 1)] (proposalMap s)\<rparr>)"

definition addProposaltoViewMap :: "Proposal \<Rightarrow> SyncHS \<Rightarrow> SyncHS" where
  "addProposaltoViewMap prop s = s\<lparr>proposalByviewMap := mput (view s) prop (proposalByviewMap s)\<rparr>"

section \<open>Laws of the state operations\<close>

lemma spawn_sel [simp]:
  "goroutines (spawn as s) = goroutines s @ [as]"
  "view (spawn as s) = view s" "leader (spawn as s) = leader s" "cfg (spawn as s) = cfg s"
  "certMap (spawn as s) = certMap s" "reputationMap (spawn as s) = reputationMap s"
  "bc (spawn as s) = bc s"
  by (simp_all add: spawn_def)

lemma changeLeader_lt:
  assumes "changeLeader s = Inr s'"
  shows "leader s' < GetNumNodes (cfg s')" and "view s' = view s" and "cfg s' = cfg s"
proof -
  have n: "GetNumNodes (cfg s) \<noteq> 0" and s': "s' = s\<lparr>leader := (leader s + 1) mod GetNumNodes (cfg s)\<rparr>"
    using assms by (auto simp: changeLeader_def split: if_splits)
  show "leader s' < GetNumNodes (cfg s')"
    using n by (simp add: s' word_less_nat_alt unat_mod unat_gt_0)
  show "view s' = view s" and "cfg s' = cfg s"
    by (simp_all add: s')
qed

text \<open>The leader after a rotation, as a natural number: no overflow for a leader below \<open>n\<close>.\<close>

lemma changeLeader_unat:
  assumes "changeLeader s = Inr s'" and "leader s < GetNumNodes (cfg s)"
  shows "unat (leader s') = Suc (unat (leader s)) mod unat (GetNumNodes (cfg s))"
proof -
  have "Suc (unat (leader s)) \<le> unat (GetNumNodes (cfg s))"
    using assms(2) by (simp add: word_less_nat_alt)
  also have "\<dots> < 2 ^ 64"
    using unsigned_less [of "GetNumNodes (cfg s)"] by simp
  finally have "unat (leader s + 1) = Suc (unat (leader s))"
    by (simp add: unat_word_ariths)
  then show ?thesis
    using assms(1) by (auto simp: changeLeader_def unat_mod split: if_splits)
qed

text \<open>The command pool as a stack: a block takes the most recent commands.\<close>

lemma getCmdsIfSufficient_cases:
  assumes len: "length (pendingCommands s) < 2 ^ 64"
  shows "getCmdsIfSufficient s =
    (let b = unat (GetBlockSize (cfg s)); n = length (pendingCommands s) in
     if n < b then (None, s)
     else (Some (drop (n - b) (pendingCommands s)), s\<lparr>pendingCommands := take (n - b) (pendingCommands s)\<rparr>))"
proof -
  let ?w = "word_of_nat (length (pendingCommands s)) :: u64" and ?b = "GetBlockSize (cfg s)"
  have u: "unat ?w = length (pendingCommands s)"
    using len by (simp add: unat_of_nat)
  have lt: "?w < ?b \<longleftrightarrow> length (pendingCommands s) < unat ?b"
    by (simp add: word_less_nat_alt u)
  have "unat (?w - ?b) = length (pendingCommands s) - unat ?b" if "\<not> ?w < ?b"
    using that by (simp add: unat_sub u not_less)
  then show ?thesis
    unfolding getCmdsIfSufficient_def Let_def lt by auto
qed

lemma getCmdsIfSufficient_Some:
  assumes "length (pendingCommands s) < 2 ^ 64" and "getCmdsIfSufficient s = (Some cmds, s')"
  shows "pendingCommands s = pendingCommands s' @ cmds"
    and "length cmds = unat (GetBlockSize (cfg s))"
    and "s' = s\<lparr>pendingCommands := pendingCommands s'\<rparr>"
  using assms(2) unfolding getCmdsIfSufficient_cases [OF assms(1)]
  by (auto simp: Let_def split: if_splits)

lemma getCmdsIfSufficient_frame:
  assumes "getCmdsIfSufficient s = (r, s')"
  shows "s' = s\<lparr>pendingCommands := pendingCommands s'\<rparr>"
  using assms by (auto simp: getCmdsIfSufficient_def Let_def split: if_splits)

section \<open>The contract of a behaviour record\<close>

text \<open>
  All six recorders promise the same: after a successful call the current view has the mark 1
  for the recorded node, marks of other views are untouched, and view, leader and configuration
  stay. A recorder that \<^emph>\<open>accumulates\<close> also keeps the marks of other nodes in the same view.
\<close>

locale behaviour_record =
  fixes recorder :: "SyncHS \<Rightarrow> SyncHS result"
    and marks :: "SyncHS \<Rightarrow> score_map"
    and target :: "SyncHS \<Rightarrow> u64"
  assumes marked: "recorder s = Inr s' \<Longrightarrow> mget2 (marks s') (view s) (target s) = Some 1"
    and other_views: "recorder s = Inr s' \<Longrightarrow> v \<noteq> view s \<Longrightarrow> mget (marks s') v = mget (marks s) v"
    and frame: "recorder s = Inr s' \<Longrightarrow> view s' = view s \<and> leader s' = leader s \<and> cfg s' = cfg s
      \<and> reputationMap s' = reputationMap s \<and> certMap s' = certMap s"
begin

lemma other_views2: "recorder s = Inr s' \<Longrightarrow> v \<noteq> view s \<Longrightarrow> mget2 (marks s') v t = mget2 (marks s) v t"
  using other_views [of s s' v] by (simp add: mget2_def)

text \<open>Marks of the recorded node are never lost, in any view.\<close>

lemma mark_monotone:
  assumes "recorder s = Inr s'" and "mget2 (marks s) v (target s) = Some 1"
  shows "mget2 (marks s') v (target s) = Some 1"
  using assms marked other_views2 by (cases "v = view s") auto

end

locale accumulating_record = behaviour_record +
  assumes keeps: "recorder s = Inr s' \<Longrightarrow> t \<noteq> target s \<Longrightarrow> mget2 (marks s') v t = mget2 (marks s) v t"
begin

lemma no_mark_lost:
  assumes "recorder s = Inr s'" and "mget2 (marks s) v t = Some 1"
  shows "mget2 (marks s') v t = Some 1"
  using assms keeps mark_monotone by (cases "t = target s") auto

end

interpretation vote_rec: accumulating_record "addVotetoMap pv" voteMap "\<lambda>s. vb_Voter (the (pv_Body pv))"
  for pv
  by unfold_locales (auto simp: addVotetoMap_def bind_r_eq_Inr mget_mput2)

interpretation malivote_rec: accumulating_record "addMaliVotetoMap pv" voteMaliMap "\<lambda>s. vb_Voter (the (pv_Body pv))"
  for pv
  by unfold_locales (auto simp: addMaliVotetoMap_def bind_r_eq_Inr mget_mput2)

interpretation maliprop_rec: accumulating_record "addMaliProposaltoMap p" maliproposalMap "\<lambda>s. pr_Miner (the p)"
  for p
  by unfold_locales (auto simp: addMaliProposaltoMap_def bind_r_eq_Inr mget_mput2)

interpretation equi_rec: behaviour_record "\<lambda>s. Inr (addEquiProposaltoMap s)" equiproposalMap leader
  by unfold_locales (auto simp: addEquiProposaltoMap_def mget2_mput split: if_splits)

interpretation with_rec: behaviour_record "\<lambda>s. Inr (addWitholdProposaltoMap s)" withproposalMap leader
  by unfold_locales (auto simp: addWitholdProposaltoMap_def mget2_mput split: if_splits)

interpretation prop_rec: behaviour_record "\<lambda>s. Inr (addProposaltoMap s)" proposalMap leader
  by unfold_locales (auto simp: addProposaltoMap_def mget2_mput split: if_splits)

end
