(* ===== verification/Sample_Node.thy ===== *)
theory Sample_Node
  imports Node_Ops
begin

text \<open>
  A concrete instance of the external code and a concrete replica, for the witnesses of the
  theorems that have hypotheses. The stand-ins satisfy what the documentation of the real
  packages promises: a signature is accepted exactly when it was made with the matching key over
  the same bytes, decoding inverts encoding, the hyperbolic tangent maps into the unit interval.
\<close>

section \<open>A self-delimiting encoding\<close>

definition enc_nat :: "nat \<Rightarrow> bytes" where
  "enc_nat n = replicate n 1 @ [0]"

fun dec_nat :: "bytes \<Rightarrow> nat \<times> bytes" where
  "dec_nat [] = (0, [])"
| "dec_nat (b # bs) = (if b = 1 then (let (n, r) = dec_nat bs in (Suc n, r)) else (0, bs))"

definition enc_bytes :: "bytes \<Rightarrow> bytes" where
  "enc_bytes b = enc_nat (length b) @ b"

definition dec_bytes :: "bytes \<Rightarrow> bytes \<times> bytes" where
  "dec_bytes b = (let (n, r) = dec_nat b in (take n r, drop n r))"

fun dec_many :: "(bytes \<Rightarrow> 'a \<times> bytes) \<Rightarrow> nat \<Rightarrow> bytes \<Rightarrow> 'a list \<times> bytes" where
  "dec_many d 0 b = ([], b)"
| "dec_many d (Suc n) b = (let (x, r) = d b; (xs, r') = dec_many d n r in (x # xs, r'))"

lemma dec_enc_nat [simp]: "dec_nat (enc_nat n @ r) = (n, r)"
  by (induction n) (simp_all add: enc_nat_def)

lemma dec_enc_bytes [simp]: "dec_bytes (enc_bytes b @ r) = (b, r)"
  by (simp add: enc_bytes_def dec_bytes_def)

lemma dec_enc_many:
  assumes "\<And>x r. d (e x @ r) = (x, r)"
  shows "dec_many d (length xs) (concat (map e xs) @ r) = (xs, r)"
  by (induction xs) (simp_all add: assms)

section \<open>The stand-ins\<close>

definition sample_hash :: "bytes \<Rightarrow> hash" where
  "sample_hash b = take 32 (b @ replicate 32 0)"

definition sample_enc_vd :: "ProtoVoteData \<Rightarrow> bytes" where
  "sample_enc_vd d = enc_nat (unat (vd_View d)) @ enc_nat (unat (vd_Owner d)) @ vd_BlockHash d"

definition sample_dec_vd :: "bytes \<Rightarrow> ProtoVoteData" where
  "sample_dec_vd b = (let (v, r) = dec_nat b; (w, h) = dec_nat r in
     \<lparr>vd_BlockHash = h, vd_View = word_of_nat v, vd_Owner = word_of_nat w\<rparr>)"

definition sample_enc_cert :: "Certificate \<Rightarrow> bytes" where
  "sample_enc_cert c = enc_bytes (ct_Data c)
     @ enc_nat (length (ct_Signatures c)) @ concat (map enc_bytes (ct_Signatures c))
     @ enc_nat (length (ct_Ids c)) @ concat (map (\<lambda>i. enc_nat (unat i)) (ct_Ids c))"

definition sample_dec_cert :: "bytes \<Rightarrow> Certificate" where
  "sample_dec_cert b = (let (d, r1) = dec_bytes b; (n, r2) = dec_nat r1;
     (sigs, r3) = dec_many dec_bytes n r2; (k, r4) = dec_nat r3;
     (ids, r5) = dec_many (\<lambda>x. let (i, r) = dec_nat x in (word_of_nat i, r)) k r4 in
     \<lparr>ct_Data = d, ct_Signatures = sigs, ct_Ids = ids\<rparr>)"

definition sample_enc_header :: "ProtoHeader option \<Rightarrow> bytes" where
  "sample_enc_header h = (case h of None \<Rightarrow> []
     | Some h \<Rightarrow> enc_nat (unat (ph_Height h)) @ ph_Extra h @ ph_TxHash h @ ph_ParentHash h)"

definition sample_enc_ed :: "EvidenceData option \<Rightarrow> bytes" where
  "sample_enc_ed d = (case d of None \<Rightarrow> []
     | Some d \<Rightarrow> enc_nat (unat (ed_MisbehaviourTarget d)) @ enc_nat (unat (ed_View d)))"

definition sample_tanh :: "dyadic \<Rightarrow> dyadic" where
  "sample_tanh d = (if dcmp d (1, 0) = 1 then (1, 0) else d)"

definition sample_env :: env where
  "sample_env = \<lparr>ToHash = sample_hash, DoHash = \<lambda>b. take 32 (2 # b @ replicate 32 0), HashBytes = \<lambda>h. h,
     Verify = \<lambda>k d s. (s = k @ d, False), Sign = \<lambda>k d. (k @ d, False),
     MarshalHeader = \<lambda>h. (sample_enc_header h, False),
     MarshalVoteData = \<lambda>d. (case d of None \<Rightarrow> [] | Some d \<Rightarrow> sample_enc_vd d, False),
     MarshalEvidenceData = \<lambda>d. (sample_enc_ed d, False),
     MarshalCertificate = \<lambda>c. (sample_enc_cert c, False),
     MarshalMsg = \<lambda>m. ([], False),
     UnmarshalVoteData = sample_dec_vd, UnmarshalCertificate = sample_dec_cert,
     UnmarshalMsg = \<lambda>b. (Msg_nil, True), Tanh = sample_tanh, StreamOk = \<lambda>i. True\<rparr>"

lemma sample_dec_enc_vd [simp]: "sample_dec_vd (sample_enc_vd d) = d"
  by (simp add: sample_dec_vd_def sample_enc_vd_def)

lemma sample_dec_enc_cert [simp]: "sample_dec_cert (sample_enc_cert c) = c"
proof -
  have "dec_many (\<lambda>x. let (i, r) = dec_nat x in (word_of_nat i, r)) (length is)
      (concat (map (\<lambda>i. enc_nat (unat i)) is)) = (is, [])" for "is" :: "u64 list"
    using dec_enc_many [where d = "\<lambda>x. let (i, r) = dec_nat x in (word_of_nat i, r)"
        and e = "\<lambda>i :: u64. enc_nat (unat i)" and xs = "is" and r = "[]"] by simp
  then show ?thesis
    by (simp add: sample_dec_cert_def sample_enc_cert_def dec_enc_many)
qed

section \<open>A replica\<close>

definition sample_cfg :: "nat \<Rightarrow> nat \<Rightarrow> NodeConfig" where
  "sample_cfg me n = NodeConfig_zero
     \<lparr>nc_SyncHSConfig := Some \<lparr>sc_Id = word_of_nat me,
        sc_Info = Some \<lparr>pi_NodeSize = word_of_nat n, pi_Faults = word_of_nat ((n - 1) div 2), pi_BlockSize = 1\<rparr>,
        sc_Delta = (1, 0)\<rparr>,
      nc_pvtKey := [word_of_nat me],
      nc_nodeKeyMap := map (\<lambda>i. (word_of_nat i, [word_of_nat i])) [0..<n]\<rparr>"

definition sample_node :: "nat \<Rightarrow> nat \<Rightarrow> SyncHS" where
  "sample_node me n = SyncHS_zero\<lparr>cfg := sample_cfg me n,
     pMap := map (\<lambda>i. (word_of_nat i, ''peer'')) (filter (\<lambda>i. i \<noteq> me) [0..<n]),
     view := 1, initialReplicaSore := SetFloat64 f64_1em6,
     certMap := [(0, GenesisCert sample_env)],
     callFuncNotFinish := True, gcallFuncFinish := True\<rparr>"

end
