(* ===== verification/Reputation.thy ===== *)
theory Reputation
  imports Sample_Node
begin

text \<open>
  The reputation mechanism: \<^verbatim>\<open>consensus/Reputation.go\<close> and \<open>initialReputationMap\<close> of
  \<^verbatim>\<open>consensus/client.go\<close>. The package-level counters of the code are written by the six
  calculators and read once by their only caller, so the model passes them as values.
\<close>

section \<open>Counting marks\<close>

text \<open>The values of a map in the order of one \<^verbatim>\<open>range\<close> loop.\<close>

definition range_values :: "'k order \<Rightarrow> ('k, 'v) gomap \<Rightarrow> 'v list" where
  "range_values r m = map (\<lambda>k. the (mget m k)) (r (mkeys m))"

text \<open>The loop body of every calculator: \<open>num, ok := inner[nodeID]; if ok && num == 1 { n++ }\<close>.\<close>

definition count_marks :: "(u64, u64) gomap list \<Rightarrow> u64 \<Rightarrow> u64" where
  "count_marks ms i = foldl (\<lambda>n m. if mget m i = Some 1 then n + 1 else n) 0 ms"

definition proposalNumCalculate :: "u64 order \<Rightarrow> SyncHS \<Rightarrow> u64 \<Rightarrow> u64" where
  "proposalNumCalculate r s nodeID = count_marks (range_values r (proposalMap s)) nodeID"

definition voteNumCalculate :: "u64 order \<Rightarrow> SyncHS \<Rightarrow> u64 \<Rightarrow> u64" where
  "voteNumCalculate r s nodeID = count_marks (range_values r (voteMap s)) nodeID"

definition maliproposalNumCalculate :: "u64 order \<Rightarrow> SyncHS \<Rightarrow> u64 \<Rightarrow> u64" where
  "maliproposalNumCalculate r s nodeID = count_marks (range_values r (maliproposalMap s)) nodeID"

definition withholdproposalNumCalculate :: "u64 order \<Rightarrow> SyncHS \<Rightarrow> u64 \<Rightarrow> u64" where
  "withholdproposalNumCalculate r s nodeID = count_marks (range_values r (withproposalMap s)) nodeID"

definition equivocationproposalNumCalculate :: "u64 order \<Rightarrow> SyncHS \<Rightarrow> u64 \<Rightarrow> u64" where
  "equivocationproposalNumCalculate r s nodeID = count_marks (range_values r (equiproposalMap s)) nodeID"

definition malivoteNumCalculate :: "u64 order \<Rightarrow> SyncHS \<Rightarrow> u64 \<Rightarrow> u64" where
  "malivoteNumCalculate r s nodeID = count_marks (range_values r (voteMaliMap s)) nodeID"

section \<open>The score\<close>

text \<open>The \<^verbatim>\<open>float64\<close> constants \<open>0.0001\<close> and \<open>1e-6\<close>.\<close>

definition gamma :: dyadic where
  "gamma = (7378697629483821, -66)"

definition initialNodescore :: dyadic where
  "initialNodescore = f64_1em6"

definition maxValueCheckNum :: "big_float \<Rightarrow> big_float" where
  "maxValueCheckNum a = (let b = SetUint64 0 in if bf_Cmp a b = -1 then b else a)"

definition maxValueCheckScore :: "big_float \<Rightarrow> big_float" where
  "maxValueCheckScore a = (let b = SetFloat64 initialNodescore in if bf_Cmp a b = -1 then b else a)"

text \<open>The six loops run in the orders \<open>rs 0\<close> to \<open>rs 5\<close>.\<close>

definition ReputationCalculateinCurrentRound :: "env \<Rightarrow> (nat \<Rightarrow> u64 order) \<Rightarrow> SyncHS \<Rightarrow> u64 \<Rightarrow> big_float" where
  "ReputationCalculateinCurrentRound E rs s nodeID =
    (let proposalnum = proposalNumCalculate (rs 0) s nodeID;
         votenum = voteNumCalculate (rs 1) s nodeID;
         withpropsoalnum = withholdproposalNumCalculate (rs 2) s nodeID;
         maliproposalnum = maliproposalNumCalculate (rs 3) s nodeID;
         equiprospoalnum = equivocationproposalNumCalculate (rs 4) s nodeID;
         malivotenum = malivoteNumCalculate (rs 5) s nodeID;
         proposalsc = SetUint64 proposalnum;
         misProprosalSc = SetUint64 (withpropsoalnum * 10 + equiprospoalnum * 10 + maliproposalnum * 2);
         proposalscore = maxValueCheckNum (bf_Sub 0 proposalsc misProprosalSc);
         votesc = SetUint64 votenum;
         misVotesc = SetUint64 (malivotenum * 2);
         votescore = maxValueCheckNum (bf_Sub 0 votesc misVotesc);
         calInitialNodescore = SetFloat64 initialNodescore;
         calGama = SetFloat64 gamma;
         transcriptNum = bf_Add 0 votescore proposalscore;
         gamaMulTranscript = bf_Mul 0 calGama transcriptNum;
         fltnum = bf_Float64 gamaMulTranscript;
         behaviourSocre = SetFloat64 (Tanh E fltnum);
         baseNodeSocre = bf_Add 0 behaviourSocre calInitialNodescore
     in maxValueCheckScore baseNodeSocre)"

text \<open>The loops \<open>for i := 0; i <= len(pMap); i++\<close> over the nodes.\<close>

definition node_ids :: "SyncHS \<Rightarrow> u64 list" where
  "node_ids s = map word_of_nat [0..<Suc (length (pMap s))]"

definition addNewViewReputaiontoMap :: "env \<Rightarrow> (u64 \<Rightarrow> nat \<Rightarrow> u64 order) \<Rightarrow> SyncHS \<Rightarrow> SyncHS" where
  "addNewViewReputaiontoMap E rss s = foldl (\<lambda>t i. t\<lparr>reputationMap :=
       mput2 (view t + 1) i (ReputationCalculateinCurrentRound E (rss i) t i) (reputationMap t)\<rparr>)
     s (node_ids s)"

definition initialReputationMap :: "SyncHS \<Rightarrow> SyncHS" where
  "initialReputationMap s = foldl (\<lambda>t i. t\<lparr>reputationMap :=
       mput2 (view t) i (initialReplicaSore t) (reputationMap t)\<rparr>) s (node_ids s)"

section \<open>The contract of a calculator\<close>

definition marked_views :: "score_map \<Rightarrow> u64 \<Rightarrow> u64 set" where
  "marked_views m i = {v. mget2 m v i = Some 1}"

lemma finite_marked_views [simp]: "finite (marked_views m i)"
proof (rule finite_subset)
  show "marked_views m i \<subseteq> set (mkeys m)"
    unfolding set_mkeys by (auto simp: marked_views_def mget2_def split: option.splits)
qed simp

lemma count_marks_filter:
  "count_marks ms i = word_of_nat (length (filter (\<lambda>m. mget m i = Some 1) ms))"
proof -
  have "foldl (\<lambda>n m. if mget m i = Some 1 then n + 1 else n) k ms
      = k + word_of_nat (length (filter (\<lambda>m. mget m i = Some 1) ms))" for k :: u64
    by (induction ms arbitrary: k) auto
  then show ?thesis
    by (simp add: count_marks_def)
qed

lemma count_marks_card:
  assumes r: "is_order r" and m: "wf_map m"
  shows "count_marks (range_values r m) i = word_of_nat (card (marked_views m i))"
proof -
  let ?P = "\<lambda>v. mget (the (mget m v)) i = Some 1"
  have "length (filter (\<lambda>x. mget x i = Some 1) (range_values r m)) = length (filter ?P (r (mkeys m)))"
    by (simp add: range_values_def filter_map comp_def)
  also have "\<dots> = card (set (filter ?P (r (mkeys m))))"
    using m is_orderD(3) [OF r, of "mkeys m"] by (simp add: wf_map_def distinct_card del: set_filter)
  also have "set (filter ?P (r (mkeys m))) = marked_views m i"
    unfolding set_filter is_orderD(1) [OF r] set_mkeys
    by (auto simp: marked_views_def mget2_def split: option.splits)
  finally show ?thesis
    by (simp add: count_marks_filter)
qed

text \<open>A calculator counts the views that mark the node, as a 64-bit number, in any loop order.\<close>

locale behaviour_count =
  fixes calc :: "u64 order \<Rightarrow> SyncHS \<Rightarrow> u64 \<Rightarrow> u64"
    and marks :: "SyncHS \<Rightarrow> score_map"
  assumes calc_card: "is_order r \<Longrightarrow> wf_map (marks s)
    \<Longrightarrow> calc r s i = word_of_nat (card (marked_views (marks s) i))"
begin

lemma order_irrelevant: "is_order r \<Longrightarrow> is_order r' \<Longrightarrow> wf_map (marks s) \<Longrightarrow> calc r s i = calc r' s i"
  by (simp add: calc_card)

lemma calc_cong:
  assumes "is_order r" "is_order r'" "wf_map (marks s)" "wf_map (marks s')"
    and "mget2 (marks s) = mget2 (marks s')"
  shows "calc r s i = calc r' s' i"
  using assms by (simp add: calc_card marked_views_def)

lemma calc_exact:
  assumes "is_order r" "wf_map (marks s)" "card (marked_views (marks s) i) < 2 ^ 64"
  shows "unat (calc r s i) = card (marked_views (marks s) i)"
  using assms by (simp add: calc_card unat_of_nat)

end

interpretation proposals: behaviour_count proposalNumCalculate proposalMap
  by unfold_locales (simp add: proposalNumCalculate_def count_marks_card)

interpretation votes: behaviour_count voteNumCalculate voteMap
  by unfold_locales (simp add: voteNumCalculate_def count_marks_card)

interpretation maliproposals: behaviour_count maliproposalNumCalculate maliproposalMap
  by unfold_locales (simp add: maliproposalNumCalculate_def count_marks_card)

interpretation withholds: behaviour_count withholdproposalNumCalculate withproposalMap
  by unfold_locales (simp add: withholdproposalNumCalculate_def count_marks_card)

interpretation equivocations: behaviour_count equivocationproposalNumCalculate equiproposalMap
  by unfold_locales (simp add: equivocationproposalNumCalculate_def count_marks_card)

interpretation malivotes: behaviour_count malivoteNumCalculate voteMaliMap
  by unfold_locales (simp add: malivoteNumCalculate_def count_marks_card)

section \<open>The specification: a net score through one monotone function\<close>

text \<open>
  The behaviour of a node as the mechanism sees it, and its net score: misbehaviour of a proposer
  is charged against its proposals only, a malicious vote against its votes only, and neither
  balance can go below zero.
\<close>

record conduct =
  n_proposals :: nat
  n_withheld :: nat
  n_equivocations :: nat
  n_maliproposals :: nat
  n_votes :: nat
  n_malivotes :: nat

definition conduct_of :: "SyncHS \<Rightarrow> u64 \<Rightarrow> conduct" where
  "conduct_of s i = \<lparr>n_proposals = card (marked_views (proposalMap s) i),
     n_withheld = card (marked_views (withproposalMap s) i),
     n_equivocations = card (marked_views (equiproposalMap s) i),
     n_maliproposals = card (marked_views (maliproposalMap s) i),
     n_votes = card (marked_views (voteMap s) i),
     n_malivotes = card (marked_views (voteMaliMap s) i)\<rparr>"

definition net_score :: "conduct \<Rightarrow> nat" where
  "net_score c = (n_proposals c - (10 * n_withheld c + 10 * n_equivocations c + 2 * n_maliproposals c))
     + (n_votes c - 2 * n_malivotes c)"

text \<open>No 64-bit counter wraps around.\<close>

definition conduct_bounded :: "conduct \<Rightarrow> bool" where
  "conduct_bounded c \<longleftrightarrow> n_proposals c + n_votes c < 2 ^ 64
     \<and> 10 * n_withheld c + 10 * n_equivocations c + 2 * n_maliproposals c < 2 ^ 64
     \<and> 2 * n_malivotes c < 2 ^ 64"

definition bf_nat :: "nat \<Rightarrow> big_float" where
  "bf_nat n = \<lparr>bf_prec = 64, bf_dy = (int n, 0)\<rparr>"

definition reputation_of :: "env \<Rightarrow> nat \<Rightarrow> big_float" where
  "reputation_of E n = maxValueCheckScore (bf_Add 0
     (SetFloat64 (Tanh E (bf_Float64 (bf_Mul 0 (SetFloat64 gamma) (bf_nat n)))))
     (SetFloat64 initialNodescore))"

lemma bfval_bf_nat [simp]: "bfval (bf_nat n) = real n" and bf_prec_bf_nat [simp]: "bf_prec (bf_nat n) = 64"
  by (simp_all add: bf_nat_def bfval_def dval_pair)

lemma SetUint64_bf_nat: "SetUint64 a = bf_nat (unat a)"
proof -
  have "\<bar>uint a\<bar> < 2 ^ 64"
    using uint_lt2p [of a] by simp
  then show ?thesis
    by (simp add: SetUint64_def bf_nat_def bf_round_def dround_exact)
qed

lemma bf_Sub_nat:
  assumes "a < 2 ^ 64" and "b < 2 ^ 64"
  shows "bf_Sub 0 (bf_nat a) (bf_nat b) = \<lparr>bf_prec = 64, bf_dy = (int a - int b, 0)\<rparr>"
proof -
  have "\<bar>int a - int b\<bar> < 2 ^ 64"
    using assms by simp
  then show ?thesis
    by (simp add: bf_Sub_def bf_round_def bf_nat_def recv_prec_def dsub_def dmant_def dround_exact)
qed

lemma bf_Add_nat:
  assumes "a + b < 2 ^ 64"
  shows "bf_Add 0 (bf_nat a) (bf_nat b) = bf_nat (a + b)"
proof -
  have "\<bar>int a + int b\<bar> < 2 ^ 64"
    using assms by (simp add: of_nat_add [symmetric] del: of_nat_add)
  then show ?thesis
    by (simp add: bf_Add_def bf_round_def bf_nat_def recv_prec_def dadd_def dmant_def dround_exact)
qed

lemma clamp_nat:
  assumes "a < 2 ^ 64" and "b < 2 ^ 64"
  shows "maxValueCheckNum (bf_Sub 0 (bf_nat a) (bf_nat b)) = bf_nat (a - b)"
proof -
  have v: "bfval \<lparr>bf_prec = 64, bf_dy = (int a - int b, 0)\<rparr> = real a - real b"
    by (simp add: bfval_def dval_pair)
  show ?thesis
    unfolding bf_Sub_nat [OF assms] maxValueCheckNum_def Let_def bf_Cmp_simps(1) v bfval_SetUint64
    by (simp add: SetUint64_bf_nat) (simp add: bf_nat_def of_nat_diff)
qed

text \<open>All six maps of a replica are well-formed.\<close>

definition wf_behaviour :: "SyncHS \<Rightarrow> bool" where
  "wf_behaviour s \<longleftrightarrow> wf_map (proposalMap s) \<and> wf_map (withproposalMap s) \<and> wf_map (equiproposalMap s)
     \<and> wf_map (maliproposalMap s) \<and> wf_map (voteMap s) \<and> wf_map (voteMaliMap s)"

lemmas calculators_card =
  proposals.calc_card votes.calc_card maliproposals.calc_card withholds.calc_card
  equivocations.calc_card malivotes.calc_card

lemma reputation_refines:
  assumes wf: "wf_behaviour s" and rs: "\<And>k. is_order (rs k)" and b: "conduct_bounded (conduct_of s i)"
  shows "ReputationCalculateinCurrentRound E rs s i = reputation_of E (net_score (conduct_of s i))"
proof -
  define c where "c = conduct_of s i"
  have sel: "proposalNumCalculate (rs 0) s i = word_of_nat (n_proposals c)"
    "voteNumCalculate (rs 1) s i = word_of_nat (n_votes c)"
    "withholdproposalNumCalculate (rs 2) s i = word_of_nat (n_withheld c)"
    "maliproposalNumCalculate (rs 3) s i = word_of_nat (n_maliproposals c)"
    "equivocationproposalNumCalculate (rs 4) s i = word_of_nat (n_equivocations c)"
    "malivoteNumCalculate (rs 5) s i = word_of_nat (n_malivotes c)"
    using wf rs by (simp_all add: c_def conduct_of_def wf_behaviour_def calculators_card)
  have mis: "word_of_nat (n_withheld c) * 10 + word_of_nat (n_equivocations c) * 10
      + word_of_nat (n_maliproposals c) * 2
    = (word_of_nat (10 * n_withheld c + 10 * n_equivocations c + 2 * n_maliproposals c) :: u64)"
    "word_of_nat (n_malivotes c) * 2 = (word_of_nat (2 * n_malivotes c) :: u64)"
    by (simp_all add: mult.commute)
  have bnd: "n_proposals c < 2 ^ 64" "n_votes c < 2 ^ 64" "2 * n_malivotes c < 2 ^ 64"
    "10 * n_withheld c + 10 * n_equivocations c + 2 * n_maliproposals c < 2 ^ 64"
    "(n_votes c - 2 * n_malivotes c) + (n_proposals c - (10 * n_withheld c + 10 * n_equivocations c
       + 2 * n_maliproposals c)) < 2 ^ 64"
    using b by (auto simp: conduct_bounded_def c_def)
  have u: "n < 2 ^ 64 \<Longrightarrow> SetUint64 (word_of_nat n) = bf_nat n" for n
    by (simp add: SetUint64_bf_nat unat_of_nat)
  show ?thesis
    unfolding ReputationCalculateinCurrentRound_def Let_def sel mis u [OF bnd(1)] u [OF bnd(2)]
      u [OF bnd(3)] u [OF bnd(4)] clamp_nat [OF bnd(1,4)] clamp_nat [OF bnd(2,3)] bf_Add_nat [OF bnd(5)]
    by (simp add: reputation_of_def net_score_def c_def [symmetric] add.commute)
qed

section \<open>What the mechanism needs from the hyperbolic tangent\<close>

text \<open>\<^verbatim>\<open>math.Tanh\<close> on non-negative arguments: into \<open>[0, 1]\<close>, increasing, zero at zero.\<close>

definition tanh_range :: "env \<Rightarrow> bool" where
  "tanh_range E \<longleftrightarrow> (\<forall>x. 0 \<le> dval x \<longrightarrow> 0 \<le> dval (Tanh E x) \<and> dval (Tanh E x) \<le> 1)"

definition tanh_mono :: "env \<Rightarrow> bool" where
  "tanh_mono E \<longleftrightarrow> (\<forall>x y. 0 \<le> dval x \<and> dval x \<le> dval y \<longrightarrow> dval (Tanh E x) \<le> dval (Tanh E y))"

definition tanh_zero :: "env \<Rightarrow> bool" where
  "tanh_zero E \<longleftrightarrow> (\<forall>x. dval x = 0 \<longrightarrow> dval (Tanh E x) = 0)"

lemma tanh_rangeD: "tanh_range E \<Longrightarrow> 0 \<le> dval x \<Longrightarrow> 0 \<le> dval (Tanh E x) \<and> dval (Tanh E x) \<le> 1"
  unfolding tanh_range_def by blast

text \<open>The argument of \<^verbatim>\<open>math.Tanh\<close> for a net score, and its value as a score.\<close>

definition tanh_arg :: "nat \<Rightarrow> dyadic" where
  "tanh_arg n = bf_Float64 (bf_Mul 0 (SetFloat64 gamma) (bf_nat n))"

lemma gamma_pos: "0 < bfval (SetFloat64 gamma)"
  by (simp add: SetFloat64_def bfval_round gamma_def dround_exact dval_pair)

lemma bfval_init: "bfval (SetFloat64 initialNodescore) = dval f64_1em6"
  by (simp add: SetFloat64_def bfval_round initialNodescore_def f64_1em6_def dround_exact)

lemma init_bounds: "0 < dval f64_1em6" "dval f64_1em6 \<le> 11 / 10000000"
  by (simp_all add: f64_1em6_def dval_pair power_int_minus field_simps)

lemma tanh_arg_nonneg: "0 \<le> dval (tanh_arg n)"
  unfolding tanh_arg_def using gamma_pos by (intro bf_Float64_nonneg bf_Mul_nonneg) auto

lemma tanh_arg_mono: "m \<le> n \<Longrightarrow> dval (tanh_arg m) \<le> dval (tanh_arg n)"
  unfolding tanh_arg_def using gamma_pos
  by (intro bf_Float64_mono bf_Mul_mono) (auto simp: recv_prec_def)

lemma tanh_arg_0: "dval (tanh_arg 0) = 0"
  by (simp add: tanh_arg_def bf_Float64_def bf_Mul_def bf_round_def dmul_def bf_nat_def dround_def dval_pair)

lemma bfval_SetFloat64_mono: "dval x \<le> dval y \<Longrightarrow> bfval (SetFloat64 x) \<le> bfval (SetFloat64 y)"
  by (simp add: SetFloat64_def bfval_round dround_mono)

lemma bfval_SetFloat64_nonneg: "0 \<le> dval x \<Longrightarrow> 0 \<le> bfval (SetFloat64 x)"
  by (simp add: SetFloat64_def bfval_round dround_nonneg)

lemma bfval_maxValueCheckScore: "bfval (maxValueCheckScore a) = max (bfval a) (dval f64_1em6)"
  by (auto simp: maxValueCheckScore_def Let_def bf_Cmp_simps bfval_init)

lemma reputation_of_value:
  "bfval (reputation_of E n) = max (dval f64_1em6)
     (bfval (bf_Add 0 (SetFloat64 (Tanh E (tanh_arg n))) (SetFloat64 initialNodescore)))"
  by (simp add: reputation_of_def tanh_arg_def bfval_maxValueCheckScore max.commute)

lemma reputation_of_mono:
  assumes "tanh_mono E" and "m \<le> n"
  shows "bfval (reputation_of E m) \<le> bfval (reputation_of E n)"
proof -
  have "dval (Tanh E (tanh_arg m)) \<le> dval (Tanh E (tanh_arg n))"
    using assms tanh_arg_nonneg tanh_arg_mono unfolding tanh_mono_def by blast
  then have "bfval (bf_Add 0 (SetFloat64 (Tanh E (tanh_arg m))) (SetFloat64 initialNodescore))
      \<le> bfval (bf_Add 0 (SetFloat64 (Tanh E (tanh_arg n))) (SetFloat64 initialNodescore))"
    by (intro bf_Add_mono bfval_SetFloat64_mono) (simp_all add: recv_prec_def)
  then show ?thesis
    by (simp add: reputation_of_value)
qed

lemma reputation_of_bounds:
  assumes "tanh_range E"
  shows "dval f64_1em6 \<le> bfval (reputation_of E n)" and "bfval (reputation_of E n) \<le> 1 + 1 / 500000"
proof -
  show "dval f64_1em6 \<le> bfval (reputation_of E n)"
    by (simp add: reputation_of_value)
  let ?b = "SetFloat64 (Tanh E (tanh_arg n))" and ?i = "SetFloat64 initialNodescore"
  have t: "0 \<le> dval (Tanh E (tanh_arg n))" "dval (Tanh E (tanh_arg n)) \<le> dval (1, 0)"
    using tanh_rangeD [OF assms tanh_arg_nonneg] by (simp_all add: dval_pair)
  have b: "0 \<le> bfval ?b" "bfval ?b \<le> 1"
    using bfval_SetFloat64_nonneg [OF t(1)] bfval_SetFloat64_mono [OF t(2)]
    by (simp_all add: SetFloat64_def [of "(1, 0)"] bfval_round dround_exact dval_pair)
  have i: "0 \<le> bfval ?i" "bfval ?i \<le> 11 / 10000000"
    using init_bounds by (simp_all add: bfval_init)
  have "bf_Add 0 ?b ?i = bf_Add (bf_prec ?b) ?b ?i"
    by (simp add: bf_Add_def recv_prec_def)
  then have "bfval (bf_Add 0 ?b ?i) \<le> (1 + ulp53) * (bfval ?b + bfval ?i)"
    using bf_Add_53_error(2) [of ?b ?i] b i by simp
  also have "\<dots> \<le> (1 + ulp53) * (1 + 11 / 10000000)"
    using b i ulp53_bounds by (intro mult_left_mono) auto
  also have "\<dots> \<le> 1 + 1 / 500000"
    by (simp add: ulp53_def field_simps)
  finally show "bfval (reputation_of E n) \<le> 1 + 1 / 500000"
    using init_bounds by (simp add: reputation_of_value)
qed

lemma reputation_of_0:
  assumes "tanh_zero E"
  shows "bfval (reputation_of E 0) = dval f64_1em6"
proof -
  have "dval (Tanh E (tanh_arg 0)) = 0"
    using assms tanh_arg_0 unfolding tanh_zero_def by blast
  then have "fst (Tanh E (tanh_arg 0)) = 0"
    by (simp add: dval_sign)
  then have "bfval (SetFloat64 (Tanh E (tanh_arg 0))) = 0"
    by (simp add: SetFloat64_def bfval_round dround_def dval_def)
  then have "dval (dadd (bf_dy (SetFloat64 (Tanh E (tanh_arg 0)))) (bf_dy (SetFloat64 initialNodescore)))
      = dval f64_1em6"
    using bfval_init by (simp add: bfval_def)
  then have "bfval (bf_Add 0 (SetFloat64 (Tanh E (tanh_arg 0))) (SetFloat64 initialNodescore)) = dval f64_1em6"
    unfolding bf_Add_def bfval_round
    by (subst dround_representable [where r = f64_1em6]) (simp_all add: recv_prec_def f64_1em6_def)
  then show ?thesis
    by (simp add: reputation_of_value)
qed

section \<open>The reputation maps\<close>

lemma node_ids_cong: "pMap s = pMap t \<Longrightarrow> node_ids s = node_ids t"
  by (simp add: node_ids_def)

lemma set_node_ids:
  assumes "length (pMap s) < 2 ^ 64 - 1"
  shows "i \<in> set (node_ids s) \<longleftrightarrow> unat i \<le> length (pMap s)"
proof
  assume "i \<in> set (node_ids s)"
  then obtain k where k: "k \<le> length (pMap s)" "i = word_of_nat k"
    by (auto simp: node_ids_def less_Suc_eq_le simp del: upt_Suc)
  then show "unat i \<le> length (pMap s)"
    using assms by (simp add: unat_of_nat)
next
  assume "unat i \<le> length (pMap s)"
  moreover have "i = word_of_nat (unat i)"
    by simp
  ultimately show "i \<in> set (node_ids s)"
    unfolding node_ids_def by (metis atLeastLessThan_iff image_eqI le_imp_less_Suc list.set_map
        set_upt zero_le)
qed

text \<open>Writing reputations of the next view changes nothing a calculator reads.\<close>

lemma ReputationCalculate_reputationMap [simp]:
  "ReputationCalculateinCurrentRound E rs (s\<lparr>reputationMap := m\<rparr>) i = ReputationCalculateinCurrentRound E rs s i"
  by (simp add: ReputationCalculateinCurrentRound_def proposalNumCalculate_def voteNumCalculate_def
      maliproposalNumCalculate_def withholdproposalNumCalculate_def equivocationproposalNumCalculate_def
      malivoteNumCalculate_def)

lemma new_view_loop:
  "foldl (\<lambda>t i. t\<lparr>reputationMap := mput2 (view t + 1) i (ReputationCalculateinCurrentRound E (rss i) t i)
       (reputationMap t)\<rparr>) s is
   = s\<lparr>reputationMap := foldl (\<lambda>m i. mput2 (view s + 1) i (ReputationCalculateinCurrentRound E (rss i) s i) m)
       (reputationMap s) is\<rparr>"
proof (induction "is" arbitrary: s)
  case (Cons i "is")
  show ?case
    unfolding foldl_Cons Cons.IH by simp
qed simp

lemma initial_loop:
  "foldl (\<lambda>t i. t\<lparr>reputationMap := mput2 (view t) i (initialReplicaSore t) (reputationMap t)\<rparr>) s is
   = s\<lparr>reputationMap := foldl (\<lambda>m i. mput2 (view s) i (initialReplicaSore s) m) (reputationMap s) is\<rparr>"
proof (induction "is" arbitrary: s)
  case (Cons i "is")
  show ?case
    unfolding foldl_Cons Cons.IH by simp
qed simp

lemma mget2_foldl_mput2:
  "mget2 (foldl (\<lambda>m i. mput2 a i (f i) m) m is) a' j
   = (if a' = a \<and> j \<in> set is then Some (f j) else mget2 m a' j)"
  by (induction "is" arbitrary: m) auto

lemma addNewView_eq:
  "addNewViewReputaiontoMap E rss s = s\<lparr>reputationMap :=
     foldl (\<lambda>m i. mput2 (view s + 1) i (ReputationCalculateinCurrentRound E (rss i) s i) m)
       (reputationMap s) (node_ids s)\<rparr>"
  by (simp add: addNewViewReputaiontoMap_def new_view_loop)

lemma initialReputation_eq:
  "initialReputationMap s = s\<lparr>reputationMap :=
     foldl (\<lambda>m i. mput2 (view s) i (initialReplicaSore s) m) (reputationMap s) (node_ids s)\<rparr>"
  by (simp add: initialReputationMap_def initial_loop)

lemma addNewView_lookup:
  "mget2 (reputationMap (addNewViewReputaiontoMap E rss s)) v i =
     (if v = view s + 1 \<and> i \<in> set (node_ids s)
      then Some (ReputationCalculateinCurrentRound E (rss i) s i) else mget2 (reputationMap s) v i)"
  by (simp add: addNewView_eq mget2_foldl_mput2)

lemma initialReputation_lookup:
  "mget2 (reputationMap (initialReputationMap s)) v i =
     (if v = view s \<and> i \<in> set (node_ids s) then Some (initialReplicaSore s) else mget2 (reputationMap s) v i)"
  by (simp add: initialReputation_eq mget2_foldl_mput2)

section \<open>Recording behaviour and the score\<close>

lemma marked_views_code [code]:
  "marked_views m i = set (filter (\<lambda>v. mget2 m v i = Some 1) (mkeys m))"
  unfolding set_filter set_mkeys by (auto simp: marked_views_def mget2_def split: option.splits)

text \<open>One conduct is no worse than another: no fewer good marks, no more bad ones.\<close>

definition no_worse :: "conduct \<Rightarrow> conduct \<Rightarrow> bool" where
  "no_worse c c' \<longleftrightarrow> n_proposals c \<le> n_proposals c' \<and> n_votes c \<le> n_votes c'
     \<and> n_withheld c' \<le> n_withheld c \<and> n_equivocations c' \<le> n_equivocations c
     \<and> n_maliproposals c' \<le> n_maliproposals c \<and> n_malivotes c' \<le> n_malivotes c"

lemma net_score_mono: "no_worse c c' \<Longrightarrow> net_score c \<le> net_score c'"
  unfolding net_score_def no_worse_def by (intro add_mono) linarith+

lemma marked_views_mono:
  assumes "\<And>v. mget2 m v i = Some 1 \<Longrightarrow> mget2 m' v i = Some 1"
  shows "card (marked_views m i) \<le> card (marked_views m' i)"
  using assms by (intro card_mono finite_marked_views) (auto simp: marked_views_def)

lemma reputation_mono:
  assumes "wf_behaviour s" "wf_behaviour s'" "\<And>k. is_order (rs k)" "\<And>k. is_order (rs' k)"
    and "conduct_bounded (conduct_of s i)" "conduct_bounded (conduct_of s' j)"
    and "no_worse (conduct_of s i) (conduct_of s' j)" and "tanh_mono E"
  shows "bfval (ReputationCalculateinCurrentRound E rs s i) \<le> bfval (ReputationCalculateinCurrentRound E rs' s' j)"
  using assms by (simp add: reputation_refines reputation_of_mono net_score_mono)

lemma conduct_addVote:
  assumes "addVotetoMap pv s = Inr s'"
  shows "no_worse (conduct_of s i) (conduct_of s' i)"
proof -
  obtain m where s': "s' = s\<lparr>voteMap := m\<rparr>"
    using assms by (auto simp: addVotetoMap_def bind_r_eq_Inr)
  have "card (marked_views (voteMap s) i) \<le> card (marked_views (voteMap s') i)"
    by (rule marked_views_mono) (rule vote_rec.no_mark_lost [OF assms])
  then show ?thesis
    by (simp add: no_worse_def conduct_of_def s')
qed

lemma conduct_addProposal: "no_worse (conduct_of s (leader s)) (conduct_of (addProposaltoMap s) (leader s))"
proof -
  have "card (marked_views (proposalMap s) (leader s)) \<le> card (marked_views (proposalMap (addProposaltoMap s)) (leader s))"
    by (rule marked_views_mono) (rule prop_rec.mark_monotone [OF refl])
  then show ?thesis
    by (simp add: no_worse_def conduct_of_def addProposaltoMap_def)
qed

lemma conduct_addMaliVote:
  assumes "addMaliVotetoMap pv s = Inr s'"
  shows "no_worse (conduct_of s' i) (conduct_of s i)"
proof -
  obtain m where s': "s' = s\<lparr>voteMaliMap := m\<rparr>"
    using assms by (auto simp: addMaliVotetoMap_def bind_r_eq_Inr)
  have "card (marked_views (voteMaliMap s) i) \<le> card (marked_views (voteMaliMap s') i)"
    by (rule marked_views_mono) (rule malivote_rec.no_mark_lost [OF assms])
  then show ?thesis
    by (simp add: no_worse_def conduct_of_def s')
qed

lemma conduct_addMaliProposal:
  assumes "addMaliProposaltoMap p s = Inr s'"
  shows "no_worse (conduct_of s' i) (conduct_of s i)"
proof -
  obtain m where s': "s' = s\<lparr>maliproposalMap := m\<rparr>"
    using assms by (auto simp: addMaliProposaltoMap_def bind_r_eq_Inr)
  have "card (marked_views (maliproposalMap s) i) \<le> card (marked_views (maliproposalMap s') i)"
    by (rule marked_views_mono) (rule maliprop_rec.no_mark_lost [OF assms])
  then show ?thesis
    by (simp add: no_worse_def conduct_of_def s')
qed

lemma conduct_addEqui: "no_worse (conduct_of (addEquiProposaltoMap s) (leader s)) (conduct_of s (leader s))"
proof -
  have "card (marked_views (equiproposalMap s) (leader s)) \<le> card (marked_views (equiproposalMap (addEquiProposaltoMap s)) (leader s))"
    by (rule marked_views_mono) (rule equi_rec.mark_monotone [OF refl])
  then show ?thesis
    by (simp add: no_worse_def conduct_of_def addEquiProposaltoMap_def)
qed

lemma conduct_addWithhold: "no_worse (conduct_of (addWitholdProposaltoMap s) (leader s)) (conduct_of s (leader s))"
proof -
  have "card (marked_views (withproposalMap s) (leader s)) \<le> card (marked_views (withproposalMap (addWitholdProposaltoMap s)) (leader s))"
    by (rule marked_views_mono) (rule with_rec.mark_monotone [OF refl])
  then show ?thesis
    by (simp add: no_worse_def conduct_of_def addWitholdProposaltoMap_def)
qed

lemma wf_behaviour_recorders:
  assumes "wf_behaviour s"
  shows "addVotetoMap pv s = Inr s' \<Longrightarrow> wf_behaviour s'"
    and "addMaliVotetoMap pv s = Inr s' \<Longrightarrow> wf_behaviour s'"
    and "addMaliProposaltoMap p s = Inr s' \<Longrightarrow> wf_behaviour s'"
    and "wf_behaviour (addEquiProposaltoMap s)" and "wf_behaviour (addWitholdProposaltoMap s)"
    and "wf_behaviour (addProposaltoMap s)"
  using assms by (auto simp: wf_behaviour_def addVotetoMap_def addMaliVotetoMap_def
      addMaliProposaltoMap_def addEquiProposaltoMap_def addWitholdProposaltoMap_def addProposaltoMap_def
      bind_r_eq_Inr wf_map_mput2 wf_map_mput)

text \<open>A history of fewer than \<open>2 ^ 58\<close> views cannot overflow a counter.\<close>

definition few_views :: "SyncHS \<Rightarrow> bool" where
  "few_views s \<longleftrightarrow> (\<forall>m \<in> {proposalMap s, withproposalMap s, equiproposalMap s, maliproposalMap s,
     voteMap s, voteMaliMap s}. length m < 2 ^ 58)"

lemma card_marked_views: "card (marked_views m i) \<le> length m"
proof -
  have "card (marked_views m i) \<le> length (filter (\<lambda>v. mget2 m v i = Some 1) (mkeys m))"
    unfolding marked_views_code by (rule card_length)
  also have "\<dots> \<le> length m"
    using length_filter_le [of _ "mkeys m"] by simp
  finally show ?thesis .
qed

lemma conduct_bounded_le:
  assumes "\<forall>m \<in> {proposalMap s, withproposalMap s, equiproposalMap s, maliproposalMap s,
     voteMap s, voteMaliMap s}. length m \<le> 2 ^ 58"
  shows "conduct_bounded (conduct_of s i)"
proof -
  have "card (marked_views m i) \<le> 2 ^ 58" if "m \<in> {proposalMap s, withproposalMap s,
      equiproposalMap s, maliproposalMap s, voteMap s, voteMaliMap s}" for m
    using assms that card_marked_views [of m i] le_trans by blast
  from this [of "proposalMap s"] this [of "withproposalMap s"] this [of "equiproposalMap s"]
    this [of "maliproposalMap s"] this [of "voteMap s"] this [of "voteMaliMap s"]
  show ?thesis
    by (simp add: conduct_bounded_def conduct_of_def)
qed

lemma few_views_bounded: "few_views s \<Longrightarrow> conduct_bounded (conduct_of s i)"
  by (rule conduct_bounded_le) (auto simp: few_views_def less_imp_le)

lemma length_mput2: "length (mput2 a b v m) = (if mget m a = None then Suc (length m) else length m)"
  by (simp add: mput2_def length_mput split: option.split)

lemma few_views_recorders:
  assumes "few_views s"
  shows "addVotetoMap pv s = Inr s' \<Longrightarrow> conduct_bounded (conduct_of s' i)"
    and "addMaliVotetoMap pv s = Inr s' \<Longrightarrow> conduct_bounded (conduct_of s' i)"
    and "addMaliProposaltoMap p s = Inr s' \<Longrightarrow> conduct_bounded (conduct_of s' i)"
    and "conduct_bounded (conduct_of (addEquiProposaltoMap s) i)"
    and "conduct_bounded (conduct_of (addWitholdProposaltoMap s) i)"
    and "conduct_bounded (conduct_of (addProposaltoMap s) i)"
  using assms
  by (auto simp: few_views_def length_mput2 addVotetoMap_def addMaliVotetoMap_def length_mput
      addMaliProposaltoMap_def addEquiProposaltoMap_def addWitholdProposaltoMap_def addProposaltoMap_def
      bind_r_eq_Inr intro!: conduct_bounded_le)

section \<open>Properties\<close>

text \<open>Replica 0 of four in view 3: node 1 proposed in view 2 and voted in views 1 and 2, node 2
  equivocated as the leader of view 3 and voted in view 1, node 3 cast a malicious vote.\<close>

definition sample_history :: SyncHS where
  "sample_history = (sample_node 0 4)\<lparr>view := 3, leader := 2,
     proposalMap := [(2, [(1, 1)])], voteMap := [(1, [(1, 1), (2, 1)]), (2, [(1, 1), (3, 1)])],
     equiproposalMap := [(3, [(2, 1)])], voteMaliMap := [(2, [(3, 1)])]\<rparr>"

lemma sample_conduct:
  "conduct_of sample_history 1 = \<lparr>n_proposals = 1, n_withheld = 0, n_equivocations = 0,
     n_maliproposals = 0, n_votes = 2, n_malivotes = 0\<rparr>"
  "conduct_of sample_history 2 = \<lparr>n_proposals = 0, n_withheld = 0, n_equivocations = 1,
     n_maliproposals = 0, n_votes = 1, n_malivotes = 0\<rparr>"
  "conduct_of sample_history 3 = \<lparr>n_proposals = 0, n_withheld = 0, n_equivocations = 0,
     n_maliproposals = 0, n_votes = 1, n_malivotes = 1\<rparr>"
  by code_simp+

lemma sample_bounded:
  "conduct_bounded (conduct_of sample_history 1)" "conduct_bounded (conduct_of sample_history 2)"
  "conduct_bounded (conduct_of sample_history 3)"
  by (simp_all add: sample_conduct conduct_bounded_def)

lemma sample_sel: "view sample_history = 3" "leader sample_history = 2" "length (pMap sample_history) = 3"
  by code_simp+

lemma sample_few: "few_views sample_history"
  by (simp add: few_views_def sample_history_def sample_node_def SyncHS_zero_def)

lemma sample_wf: "wf_behaviour sample_history"
  by code_simp

lemma sample_tanh_laws: "tanh_range sample_env" "tanh_mono sample_env" "tanh_zero sample_env"
  by (simp_all add: tanh_range_def tanh_mono_def tanh_zero_def sample_env_def sample_tanh_def
      dcmp_simps dval_pair)

text \<open>C11. The floating-point reputation code computes its specification: for every loop order of
  its six map ranges, the score of a node is one fixed function of the net score of its recorded
  conduct, with proposals and votes credited once per view, withheld and equivocating proposals
  charged ten, malicious proposals and votes charged two, and both balances cut off at zero. The
  hypotheses are that the maps have distinct keys and that no 64-bit counter wraps around.\<close>

theorem reputation_correct:
  assumes "wf_behaviour s" and "\<forall>k. is_order (rs k)" and "conduct_bounded (conduct_of s i)"
  shows "ReputationCalculateinCurrentRound E rs s i = reputation_of E (net_score (conduct_of s i))"
  using assms by (simp add: reputation_refines)

theorem reputation_correct_witness:
  "wf_behaviour sample_history \<and> conduct_bounded (conduct_of sample_history 1)
   \<and> ReputationCalculateinCurrentRound sample_env (\<lambda>_. rev) sample_history 1 = reputation_of sample_env 3"
  using reputation_correct [OF sample_wf _ sample_bounded(1), of "\<lambda>_. rev" sample_env]
  by (simp add: sample_wf sample_bounded) (simp add: sample_conduct net_score_def numeral_3_eq_3)

text \<open>C12. A reputation is never below the initial score 1e-6, and never above 1 + 2e-6, for any
  recorded conduct, when the hyperbolic tangent maps non-negative numbers into the unit interval.\<close>

theorem reputation_bounds:
  assumes "wf_behaviour s" and "\<forall>k. is_order (rs k)" and "conduct_bounded (conduct_of s i)"
    and "tanh_range E"
  shows "dval f64_1em6 \<le> bfval (ReputationCalculateinCurrentRound E rs s i)
    \<and> bfval (ReputationCalculateinCurrentRound E rs s i) \<le> 1 + 1 / 500000"
  using assms reputation_of_bounds [of E] by (simp only: reputation_refines simp_thms)

theorem reputation_bounds_witness:
  "dval f64_1em6 \<le> bfval (ReputationCalculateinCurrentRound sample_env (\<lambda>_ ks. ks) sample_history 2)
   \<and> bfval (ReputationCalculateinCurrentRound sample_env (\<lambda>_ ks. ks) sample_history 2) \<le> 1 + 1 / 500000"
  using reputation_bounds [OF sample_wf _ sample_bounded(2) sample_tanh_laws(1), of "\<lambda>_ ks. ks"] by simp

text \<open>The mechanism is fair: a node whose conduct is no worse than another's (no fewer
  proposals and votes, no more misbehaviour of any kind) has at least its reputation, also when
  the two are computed by different replicas.\<close>

lemma reputation_fair:
  assumes "wf_behaviour s" "wf_behaviour s'" "\<forall>k. is_order (rs k)" "\<forall>k. is_order (rs' k)"
    and "conduct_bounded (conduct_of s i)" "conduct_bounded (conduct_of s' j)"
    and "no_worse (conduct_of s i) (conduct_of s' j)" and "tanh_mono E"
  shows "bfval (ReputationCalculateinCurrentRound E rs s i) \<le> bfval (ReputationCalculateinCurrentRound E rs' s' j)"
  using assms by (intro reputation_mono) auto

text \<open>C13. Recording honest behaviour never costs reputation and recording misbehaviour never earns
  it: a recorded vote or proposal does not lower, and a recorded malicious vote, malicious proposal,
  equivocation or withholding does not raise the score of the node it is recorded for.\<close>

theorem behaviour_pays:
  assumes "wf_behaviour s" and "few_views s" and "\<forall>k. is_order (rs k)" and "tanh_mono E"
    and "addVotetoMap pv s = Inr s1" and "addMaliVotetoMap pv s = Inr s2"
    and "addMaliProposaltoMap p s = Inr s3"
  shows "let score = (\<lambda>t i. bfval (ReputationCalculateinCurrentRound E rs t i)); l = leader s in
    (\<forall>i. score s i \<le> score s1 i) \<and> score s l \<le> score (addProposaltoMap s) l
    \<and> (\<forall>i. score s2 i \<le> score s i) \<and> (\<forall>i. score s3 i \<le> score s i)
    \<and> score (addEquiProposaltoMap s) l \<le> score s l \<and> score (addWitholdProposaltoMap s) l \<le> score s l"
proof -
  have m: "bfval (ReputationCalculateinCurrentRound E rs t i) \<le> bfval (ReputationCalculateinCurrentRound E rs u i)"
    if "wf_behaviour t" "wf_behaviour u" "conduct_bounded (conduct_of t i)"
      "conduct_bounded (conduct_of u i)" "no_worse (conduct_of t i) (conduct_of u i)" for t u i
    using assms(3,4) that by (intro reputation_mono) auto
  note wf = assms(1) wf_behaviour_recorders(1) [OF assms(1,5)] wf_behaviour_recorders(2) [OF assms(1,6)]
    wf_behaviour_recorders(3) [OF assms(1,7)] wf_behaviour_recorders(4-6) [OF assms(1)]
  note bd = few_views_bounded [OF assms(2)] few_views_recorders(1) [OF assms(2,5)]
    few_views_recorders(2) [OF assms(2,6)] few_views_recorders(3) [OF assms(2,7)]
    few_views_recorders(4-6) [OF assms(2)]
  show ?thesis
    unfolding Let_def
    by (intro conjI allI m wf bd conduct_addVote [OF assms(5)] conduct_addProposal
        conduct_addMaliVote [OF assms(6)] conduct_addMaliProposal [OF assms(7)] conduct_addEqui
        conduct_addWithhold)
qed

theorem behaviour_pays_witness:
  "let s = sample_history; rs = (\<lambda>_ ks. ks); score = (\<lambda>t i. bfval (ReputationCalculateinCurrentRound sample_env rs t i))
   in (\<forall>i. score s i \<le> score (s\<lparr>voteMap := mput2 3 1 1 (voteMap s)\<rparr>) i)
    \<and> score s 2 \<le> score (addProposaltoMap s) 2
    \<and> (\<forall>i. score (s\<lparr>voteMaliMap := mput2 3 1 1 (voteMaliMap s)\<rparr>) i \<le> score s i)
    \<and> score (addWitholdProposaltoMap s) 2 \<le> score s 2"
proof -
  define pv where "pv = \<lparr>pv_Data = None, pv_Body = Some \<lparr>vb_Voter = 1, vb_Signature = []\<rparr>\<rparr>"
  define p where "p = \<lparr>pr_Block = None, pr_ForwardSender = 0, pr_ForwardSig = [], pr_Miner = 2,
    pr_MiningProof = [], pr_View = 3, pr_ProposeEvidence = []\<rparr>"
  let ?s = sample_history
  have h: "addVotetoMap pv ?s = Inr (?s\<lparr>voteMap := mput2 3 1 1 (voteMap ?s)\<rparr>)"
    "addMaliVotetoMap pv ?s = Inr (?s\<lparr>voteMaliMap := mput2 3 1 1 (voteMaliMap ?s)\<rparr>)"
    "addMaliProposaltoMap (Some p) ?s = Inr (?s\<lparr>maliproposalMap := mput2 3 2 1 (maliproposalMap ?s)\<rparr>)"
    by (simp_all add: pv_def p_def addVotetoMap_def addMaliVotetoMap_def addMaliProposaltoMap_def sample_sel)
  show ?thesis
    using behaviour_pays [OF sample_wf sample_few _ sample_tanh_laws(2) h, of "\<lambda>_ ks. ks"]
    by (simp only: Let_def sample_sel is_order_id simp_thms)
qed

text \<open>C14. Entering the next view extends the reputation map and nothing else: every node id up to
  the number of peers gets the score of its recorded conduct for the view after the current one,
  and the entries of all other views stay as they were.\<close>

theorem new_view_reputations:
  assumes "wf_behaviour s" and "few_views s" and "\<forall>i k. is_order (rss i k)"
    and "length (pMap s) < 2 ^ 64 - 1"
    and s'_def: "s' = addNewViewReputaiontoMap E rss s"
  shows "s' = s\<lparr>reputationMap := reputationMap s'\<rparr>
    \<and> (\<forall>i. unat i \<le> length (pMap s) \<longrightarrow>
         mget2 (reputationMap s') (view s + 1) i = Some (reputation_of E (net_score (conduct_of s i))))
    \<and> (\<forall>v i. v \<noteq> view s + 1 \<longrightarrow> mget2 (reputationMap s') v i = mget2 (reputationMap s) v i)"
proof (intro conjI allI impI)
  show "s' = s\<lparr>reputationMap := reputationMap s'\<rparr>"
    unfolding s'_def addNewView_eq by simp
  fix i :: u64 assume "unat i \<le> length (pMap s)"
  then show "mget2 (reputationMap s') (view s + 1) i = Some (reputation_of E (net_score (conduct_of s i)))"
    using assms(1-4) by (simp add: s'_def addNewView_lookup set_node_ids reputation_refines few_views_bounded)
next
  fix v i assume "v \<noteq> view s + 1"
  then show "mget2 (reputationMap s') v i = mget2 (reputationMap s) v i"
    by (simp add: s'_def addNewView_lookup)
qed

theorem new_view_reputations_witness:
  "mget2 (reputationMap (addNewViewReputaiontoMap sample_env (\<lambda>_ _. rev) sample_history)) 4 1
     = Some (reputation_of sample_env 3)
   \<and> mget2 (reputationMap (addNewViewReputaiontoMap sample_env (\<lambda>_ _. rev) sample_history)) 4 2
     = Some (reputation_of sample_env 1)"
proof -
  have n: "net_score (conduct_of sample_history 1) = 3" "net_score (conduct_of sample_history 2) = 1"
    by (simp_all add: sample_conduct net_score_def)
  show ?thesis
    using new_view_reputations [OF sample_wf sample_few _ _ refl, of "\<lambda>_ _. rev" sample_env,
        THEN conjunct2, THEN conjunct1]
    by (simp add: sample_sel n)
qed

end
