(* ===== verification/Cert_Laws.thy ===== *)
theory Cert_Laws
  imports Sample_Node
begin

text \<open>
  What the wrappers of \<open>Msg_Cert\<close> guarantee: their caches never return stale data, and votes
  and certificates survive the trip over the wire.
\<close>

section \<open>The contract of a cached wire form\<close>

text \<open>
  Every message wrapper promises the same to its users: what \<open>ToProto\<close> returns is the current
  content of the wrapper (\<open>content\<close>), a cache notwithstanding; it leaves content and cache
  coherent; and it returns the same a second time. The laws are relative to the coherence of the
  cache, which every operation of the wrapper keeps.
\<close>

locale wire_codec =
  fixes to_proto :: "'m \<Rightarrow> 'w \<times> 'm"
    and content :: "'m \<Rightarrow> 'w"
    and coherent :: "'m \<Rightarrow> bool"
  assumes to_proto_content: "coherent m \<Longrightarrow> fst (to_proto m) = content m"
    and content_kept: "coherent m \<Longrightarrow> content (snd (to_proto m)) = content m"
    and coherent_kept: "coherent m \<Longrightarrow> coherent (snd (to_proto m))"
begin

lemma to_proto_again: "coherent m \<Longrightarrow> fst (to_proto (snd (to_proto m))) = fst (to_proto m)"
  using to_proto_content content_kept coherent_kept by metis

end

text \<open>A wrapper that can be rebuilt from the wire: decoding gives a coherent wrapper of what was
  encoded, for the wire forms (\<open>sound\<close>) that decode.\<close>

locale wire_roundtrip = wire_codec to_proto content coherent
  for to_proto :: "'m \<Rightarrow> 'w \<times> 'm" and content coherent +
  fixes from_proto :: "'w \<Rightarrow> 'm result"
    and sound :: "'w \<Rightarrow> bool"
  assumes decodes: "sound w \<Longrightarrow> \<exists>m. from_proto w = Inr m \<and> coherent m \<and> content m = w"
begin

lemma decode_encode:
  assumes "sound w"
  obtains m where "from_proto w = Inr m" and "fst (to_proto m) = w"
  using decodes [OF assms] to_proto_content by blast

lemma encode_decode:
  assumes "coherent m" and "sound (content m)"
  obtains m' where "from_proto (fst (to_proto m)) = Inr m'" and "content m' = content m"
  using decodes [OF assms(2)] to_proto_content [OF assms(1)] by auto

end

subsection \<open>Votes\<close>

definition vote_content :: "Vote \<Rightarrow> ProtoVote" where
  "vote_content v = \<lparr>pv_Data = v_Data v, pv_Body = v_Body v\<rparr>"

definition vote_coherent :: "Vote \<Rightarrow> bool" where
  "vote_coherent v \<longleftrightarrow> (case v_proto v of None \<Rightarrow> True | Some pv \<Rightarrow> pv = vote_content v)"

interpretation vote_codec: wire_roundtrip Vote_ToProto vote_content vote_coherent
  "\<lambda>pv. Inr (Vote_FromProto pv)" "\<lambda>pv. True"
  by unfold_locales
     (auto simp: Vote_ToProto_def Vote_FromProto_def vote_content_def vote_coherent_def Let_def
       split: option.splits)

subsection \<open>Block certificates\<close>

definition cert_coherent :: "env \<Rightarrow> BlockCertificate \<Rightarrow> bool" where
  "cert_coherent E b \<longleftrightarrow> (bc_valid b = Some True \<longrightarrow> bc_proto b = Some (BC_fresh E b))"

lemma BC_fresh_caches [simp]:
  "BC_fresh E (b\<lparr>bc_proto := p\<rparr>) = BC_fresh E b" "BC_fresh E (b\<lparr>bc_valid := q\<rparr>) = BC_fresh E b"
  by (simp_all add: BC_fresh_def)

lemma BC_ToProto_coherent:
  assumes "cert_coherent E b"
  shows "BC_ToProto E b = (BC_fresh E b, b\<lparr>bc_proto := Some (BC_fresh E b), bc_valid := Some True\<rparr>)"
proof (cases "bc_valid b = Some True")
  case True
  then have "bc_proto b = Some (BC_fresh E b)"
    using assms by (simp add: cert_coherent_def)
  then show ?thesis
    using True by (simp add: BC_ToProto.simps [of E b]) (simp add: BC_fresh_def)
next
  case False
  then have "(case bc_valid b of None \<Rightarrow> False | Some b \<Rightarrow> b) = False"
    by (cases "bc_valid b") auto
  then show ?thesis
    by (simp add: BC_ToProto.simps [of E b] Let_def split: option.split)
qed

interpretation cert_codec: wire_codec "BC_ToProto E" "BC_fresh E" "cert_coherent E"
  for E
  by unfold_locales (simp_all add: BC_ToProto_coherent, simp add: cert_coherent_def)

text \<open>Every operation on a certificate keeps its cache coherent.\<close>

lemma cert_coherent_ops:
  shows "cert_coherent E (BC_Init b) \<longleftrightarrow> cert_coherent E b"
    and "cert_coherent E (BC_SetBlockInfo E h v b)"
    and "BC_AddVote vt b = Inr b' \<Longrightarrow> cert_coherent E b'"
    and "cert_coherent E BlockCertificate_zero"
    and "cert_coherent E (GenesisCert E)"
  by (auto simp: cert_coherent_def BC_Init_def PC_Init_def BC_SetBlockInfo_def BC_AddVote_def
      bind_r_eq_Inr BlockCertificate_zero_def GenesisCert_def BC_fresh_def)

section \<open>The signatures of a certificate\<close>

text \<open>\<open>fill_votes\<close> succeeds exactly when there is a signature for every id, and the map then
  gives each id its last signature.\<close>

lemma fill_votes_lookup:
  "length ids \<le> length sigs \<Longrightarrow> \<exists>m'. fill_votes ids sigs m = Inr m'
     \<and> mget m' = mget m ++ map_of (rev (zip ids sigs))"
proof (induction ids sigs m rule: fill_votes.induct)
  case (3 i ids s sigs m)
  then obtain m' where "fill_votes ids sigs (mput i s m) = Inr m'"
    "mget m' = mget (mput i s m) ++ map_of (rev (zip ids sigs))"
    by auto
  then show ?case
    by (simp add: map_add_def fun_eq_iff split: option.split)
qed auto

lemma fill_votes_short:
  "length sigs < length ids \<Longrightarrow> fill_votes ids sigs m = Inl IndexOutOfRange"
  by (induction ids sigs m rule: fill_votes.induct) auto

text \<open>The three fields of a partial certificate agree.\<close>

definition cert_sigs_ok :: "BlockCertificate \<Rightarrow> bool" where
  "cert_sigs_ok b \<longleftrightarrow> length (pc_ids (bc_Partial b)) = length (pc_sigs (bc_Partial b))
     \<and> (case pc_voteMap (bc_Partial b) of None \<Rightarrow> False
        | Some m \<Rightarrow> mget m = map_of (rev (zip (pc_ids (bc_Partial b)) (pc_sigs (bc_Partial b)))))"

lemma cert_sigs_ok_init: "cert_sigs_ok (BC_Init BlockCertificate_zero)"
  by (simp add: cert_sigs_ok_def BC_Init_def PC_Init_def BlockCertificate_zero_def PartialCertificate_zero_def)

lemma cert_sigs_ok_info: "cert_sigs_ok (BC_SetBlockInfo E h v b) = cert_sigs_ok b"
  by (simp add: cert_sigs_ok_def BC_SetBlockInfo_def split: option.split)

lemma BC_AddVote_ok:
  assumes "cert_sigs_ok b"
  shows "\<exists>b'. BC_AddVote v b = Inr b' \<and> cert_sigs_ok b'
    \<and> pc_ids (bc_Partial b') = pc_ids (bc_Partial b) @ [Vote_GetVoter v]
    \<and> pc_sigs (bc_Partial b') = pc_sigs (bc_Partial b) @ [Vote_GetSignature v]
    \<and> bc_data b' = bc_data b \<and> pc_data (bc_Partial b') = pc_data (bc_Partial b)"
  using assms by (auto simp: cert_sigs_ok_def BC_AddVote_def PC_AddSignature_def update_conv
      split: option.splits)

lemma GetSignature_AddVote:
  assumes "BC_AddVote v b = Inr b'"
  shows "PC_GetSignatureFromID i (bc_Partial b') =
    (if i = Vote_GetVoter v then Some (Vote_GetSignature v) else PC_GetSignatureFromID i (bc_Partial b))"
  using assms by (auto simp: BC_AddVote_def PC_AddSignature_def PC_GetSignatureFromID_def bind_r_eq_Inr
      split: option.splits)

lemma BC_FromProto_ok:
  assumes "length (ct_Ids c) = length (ct_Signatures c)"
  obtains b where "BC_FromProto E c BlockCertificate_zero = Inr b" "cert_sigs_ok b" "cert_coherent E b"
    "pc_ids (bc_Partial b) = ct_Ids c" "pc_sigs (bc_Partial b) = ct_Signatures c"
    "bc_data b = UnmarshalVoteData E (ct_Data c)" "pc_data (bc_Partial b) = ct_Data c"
proof -
  obtain m where "fill_votes (ct_Ids c) (ct_Signatures c) [] = Inr m"
    "mget m = map_of (rev (zip (ct_Ids c) (ct_Signatures c)))"
    using assms fill_votes_lookup [of "ct_Ids c" "ct_Signatures c" "[]"] by auto
  then have "BC_FromProto E c BlockCertificate_zero = Inr (BlockCertificate_zero
      \<lparr>bc_data := UnmarshalVoteData E (ct_Data c), bc_Partial := \<lparr>pc_data = ct_Data c, pc_ids = ct_Ids c,
         pc_sigs = ct_Signatures c, pc_voteMap = Some m, pc_proto = None, pc_valid = None\<rparr>,
       bc_proto := Some c\<rparr>)" (is "_ = Inr ?b")
    by (simp add: BC_FromProto_def BC_Init_def PC_Init_def BlockCertificate_zero_def
        PartialCertificate_zero_def Let_def)
  then show ?thesis
    using assms \<open>mget m = _\<close>
    by (intro that [of ?b]) (simp_all add: cert_sigs_ok_def cert_coherent_def BlockCertificate_zero_def)
qed

section \<open>The life of a certificate\<close>

text \<open>The certificates a replica can hold: built from nothing, by the operations of the code.\<close>

inductive built :: "env \<Rightarrow> BlockCertificate \<Rightarrow> bool" for E where
  zero: "built E BlockCertificate_zero"
| genesis: "built E (GenesisCert E)"
| init: "built E b \<Longrightarrow> built E (BC_Init b)"
| info: "built E b \<Longrightarrow> built E (BC_SetBlockInfo E h v b)"
| vote: "built E b \<Longrightarrow> BC_AddVote vt b = Inr b' \<Longrightarrow> built E b'"
| encoded: "built E b \<Longrightarrow> BC_ToProto E b = (c, b') \<Longrightarrow> built E b'"
| decoded: "BC_FromProto E c BlockCertificate_zero = Inr b \<Longrightarrow> built E b"

lemma built_coherent: "built E b \<Longrightarrow> cert_coherent E b"
proof (induction rule: built.induct)
  case (encoded b c b')
  then show ?case
    using cert_codec.coherent_kept [of E b] by simp
next
  case (decoded c b)
  then show ?case
    by (auto simp: BC_FromProto_def BC_Init_def bind_r_eq_Inr cert_coherent_def BlockCertificate_zero_def)
qed (auto simp: cert_coherent_ops)

lemma BC_FromProto_cases:
  "BC_FromProto E c b = Inl p \<longleftrightarrow> length (ct_Signatures c) < length (ct_Ids c) \<and> p = IndexOutOfRange"
proof (cases "length (ct_Ids c) \<le> length (ct_Signatures c)")
  case True
  then obtain m where "fill_votes (ct_Ids c) (ct_Signatures c) [] = Inr m"
    using fill_votes_lookup by blast
  then show ?thesis
    using True by (simp add: BC_FromProto_def Let_def)
next
  case False
  then show ?thesis
    by (auto simp: BC_FromProto_def fill_votes_short)
qed

section \<open>Properties\<close>

definition sample_vote :: Vote where
  "sample_vote = Vote_FromProto \<lparr>pv_Data = Some \<lparr>vd_BlockHash = [7], vd_View = 2, vd_Owner = 1\<rparr>,
     pv_Body = Some \<lparr>vb_Voter = 3, vb_Signature = [9, 9]\<rparr>\<rparr>"

definition sample_cert :: BlockCertificate where
  "sample_cert = (case BC_AddVote sample_vote (BC_SetBlockInfo sample_env (sample_hash [7]) 2
     (BC_Init BlockCertificate_zero)) of Inl _ \<Rightarrow> BlockCertificate_zero | Inr b \<Rightarrow> b)"

lemma sample_cert_step:
  "BC_AddVote sample_vote (BC_SetBlockInfo sample_env (sample_hash [7]) 2 (BC_Init BlockCertificate_zero))
     = Inr sample_cert"
  by code_simp

lemma sample_cert_built: "built sample_env sample_cert"
  by (rule built.vote [OF built.info [OF built.init [OF built.zero]] sample_cert_step])

lemma sample_cert_sigs: "cert_sigs_ok sample_cert"
  using BC_AddVote_ok [of "BC_SetBlockInfo sample_env (sample_hash [7]) 2 (BC_Init BlockCertificate_zero)" sample_vote]
  by (simp add: sample_cert_step cert_sigs_ok_info cert_sigs_ok_init)

text \<open>The cached wire form of a block certificate is never stale: whatever sequence of votes,
  block information, encodings and decodings built the certificate, \<open>ToProto\<close> returns its current
  block data, signers and signatures, and returns the same when it is called again.\<close>

lemma cert_never_stale:
  assumes "built E b" and "BC_ToProto E b = (c, b')"
  shows "c = BC_fresh E b \<and> fst (BC_ToProto E b') = c"
  using assms cert_codec.to_proto_content [OF built_coherent, of E b]
    cert_codec.to_proto_again [OF built_coherent, of E b] by simp

text \<open>C27. A certificate survives the wire: the certificate a replica built, encoded with
  \<open>ToProto\<close> and decoded by another replica with \<open>FromProto\<close>, has the same signers in the same
  order, the same signatures, the same block and view, gives the same signature for every id, and
  is re-encoded identically. The hypothesis on the codec is that decoding inverts encoding on the
  vote data of this certificate.\<close>

theorem cert_roundtrip:
  assumes "built E b" and "cert_sigs_ok b"
    and "UnmarshalVoteData E (fst (MarshalVoteData E (Some (bc_data b)))) = bc_data b"
  shows "\<exists>b'. BC_FromProto E (fst (BC_ToProto E b)) BlockCertificate_zero = Inr b'
    \<and> PC_GetSigners (bc_Partial b') = PC_GetSigners (bc_Partial b)
    \<and> (\<forall>i. PC_GetSignatureFromID i (bc_Partial b') = PC_GetSignatureFromID i (bc_Partial b))
    \<and> BC_GetBlockInfo E b' = BC_GetBlockInfo E b
    \<and> fst (BC_ToProto E b') = fst (BC_ToProto E b)"
proof -
  have c: "fst (BC_ToProto E b) = BC_fresh E b"
    using built_coherent [OF assms(1)] by (rule cert_codec.to_proto_content)
  have "length (ct_Ids (BC_fresh E b)) = length (ct_Signatures (BC_fresh E b))"
    using assms(2) by (simp add: BC_fresh_def cert_sigs_ok_def)
  then obtain b' where b': "BC_FromProto E (BC_fresh E b) BlockCertificate_zero = Inr b'"
    "cert_sigs_ok b'" "cert_coherent E b'" "pc_ids (bc_Partial b') = pc_ids (bc_Partial b)"
    "pc_sigs (bc_Partial b') = pc_sigs (bc_Partial b)" "bc_data b' = bc_data b"
    using BC_FromProto_ok [where E = E and c = "BC_fresh E b"] assms(3) by (auto simp: BC_fresh_def)
  have "PC_GetSignatureFromID i (bc_Partial b') = PC_GetSignatureFromID i (bc_Partial b)" for i
    using b'(2,4,5) assms(2) by (simp add: cert_sigs_ok_def PC_GetSignatureFromID_def split: option.splits)
  moreover have "fst (BC_ToProto E b') = BC_fresh E b"
    using cert_codec.to_proto_content [OF b'(3)] b'(4-6) by (simp add: BC_fresh_def)
  ultimately show ?thesis
    using b' c by (simp add: PC_GetSigners_def BC_GetBlockInfo_def)
qed

theorem cert_roundtrip_witness:
  "\<exists>b'. BC_FromProto sample_env (fst (BC_ToProto sample_env sample_cert)) BlockCertificate_zero = Inr b'
    \<and> PC_GetSigners (bc_Partial b') = [3] \<and> PC_GetSignatureFromID 3 (bc_Partial b') = Some [9, 9]"
proof -
  have "PC_GetSigners (bc_Partial sample_cert) = [3]"
    "PC_GetSignatureFromID 3 (bc_Partial sample_cert) = Some [9, 9]"
    by code_simp+
  then show ?thesis
    using cert_roundtrip [OF sample_cert_built sample_cert_sigs] by (auto simp: sample_env_def)
qed

text \<open>C28. Decoding a certificate panics exactly when it carries fewer signatures than ids, with an
  index out of range; no other certificate makes \<open>FromProto\<close> panic.\<close>

theorem decode_cert_panics_iff:
  "BC_FromProto E c b = Inl p \<longleftrightarrow> length (ct_Signatures c) < length (ct_Ids c) \<and> p = IndexOutOfRange"
  by (rule BC_FromProto_cases)

text \<open>A vote survives the wire: decoding what \<open>ToProto\<close> produced gives back the vote's data
  and body, for votes with a filled or an empty cache, and decoding then encoding is the identity
  on wire votes.\<close>

lemma vote_roundtrip:
  "fst (Vote_ToProto (Vote_FromProto pv)) = pv
   \<and> Vote_FromProto (fst (Vote_ToProto \<lparr>v_Data = d, v_Body = b, v_proto = None\<rparr>))
     = snd (Vote_ToProto \<lparr>v_Data = d, v_Body = b, v_proto = None\<rparr>)"
  by (simp add: Vote_ToProto_def Vote_FromProto_def Let_def)

end
