(* ===== verification/Quorum_Cert.thy ===== *)
theory Quorum_Cert
  imports Reputation Cert_Laws
begin

text \<open>
  Reputation quorums: the benchmark a certificate has to exceed (\<open>GetCertBenchMark\<close> of
  \<^verbatim>\<open>consensus/vote.go\<close>) and the construction and validation of certificates
  (\<^verbatim>\<open>consensus/cert.go\<close>), with what the rounding of the sums does to quorum intersection.
\<close>

section \<open>The code\<close>

text \<open>\<open>reputationMap[v]\<close> read as a map: an absent view is a nil map.\<close>

definition view_reps :: "u64 \<Rightarrow> SyncHS \<Rightarrow> (u64, big_float) gomap" where
  "view_reps v s = (case mget (reputationMap s) v of None \<Rightarrow> [] | Some m \<Rightarrow> m)"

definition GetCertBenchMark :: "u64 order \<Rightarrow> u64 \<Rightarrow> SyncHS \<Rightarrow> big_float" where
  "GetCertBenchMark r viewNum s =
     (let totalReputationScore = bf_acc (SetFloat64 (0, 0)) (range_values r (view_reps viewNum s));
          certBenchMark = SetFloat64 (1, -1)
      in bf_Mul 0 totalReputationScore certBenchMark)"

text \<open>The loops that sum up the reputations of given nodes; adding a nil score panics.\<close>

fun add_reps :: "(u64, big_float) gomap \<Rightarrow> u64 list \<Rightarrow> big_float \<Rightarrow> big_float result" where
  "add_reps reps [] acc = Inr acc"
| "add_reps reps (i # is) acc = bind_r (deref (mget reps i))
     (\<lambda>w. add_reps reps is (bf_Add (bf_prec acc) acc w))"

fun add_votes :: "Vote list \<Rightarrow> BlockCertificate \<Rightarrow> BlockCertificate result" where
  "add_votes [] c = Inr c"
| "add_votes (v # vs) c = bind_r (BC_AddVote v c) (add_votes vs)"

definition NewCert :: "env \<Rightarrow> u64 order \<Rightarrow> (u64, Vote) gomap \<Rightarrow> hash \<Rightarrow> u64 \<Rightarrow> BlockCertificate result" where
  "NewCert E r votes blockhash v =
     add_votes (range_values r votes) (BC_Init (BC_SetBlockInfo E blockhash v BlockCertificate_zero))"

text \<open>The signer loop of \<open>IsCertValid\<close>: \<open>Inr None\<close> is the early \<open>return false\<close>. The boolean
  result of \<open>Verify\<close> is discarded by the code, only its error is looked at.\<close>

fun check_signers :: "env \<Rightarrow> SyncHS \<Rightarrow> BlockCertificate \<Rightarrow> u64 list \<Rightarrow> big_float \<Rightarrow> big_float option result" where
  "check_signers E s c [] acc = Inr (Some acc)"
| "check_signers E s c (i # is) acc =
    (case PC_GetSignatureFromID i (bc_Partial c) of
       None \<Rightarrow> Inr None
     | Some sig \<Rightarrow> bind_r (deref (GetPubKeyFromID (cfg s) i)) (\<lambda>k.
         if snd (Verify E k (PC_GetData (bc_Partial c)) sig) then Inr None
         else bind_r (deref (mget (view_reps (view s - 1) s) i)) (\<lambda>w.
           check_signers E s c is (bf_Add (bf_prec acc) acc w))))"

definition IsCertValid :: "env \<Rightarrow> u64 order \<Rightarrow> SyncHS \<Rightarrow> BlockCertificate \<Rightarrow> bool result" where
  "IsCertValid E r s c =
    (let (h, _) = BC_GetBlockInfo E c in
     if h = EmptyHash then Inr True
     else bind_r (deref (mget (BlocksByHash (bc s)) h)) (\<lambda>exEmptyBlk.
          bind_r (deref (eb_ExtHeader exEmptyBlk)) (\<lambda>eh.
          if length (ProtoHeader_GetExtra (eh_ProtoHeader eh)) = 1 then Inr True
          else let benchmark = GetCertBenchMark r (view s - 1) s in
            bind_r (check_signers E s c (PC_GetSigners (bc_Partial c)) (SetFloat64 (0, 0))) (\<lambda>t.
            case t of None \<Rightarrow> Inr False
            | Some totalRepInCert \<Rightarrow>
                Inr (\<not> (bf_Cmp totalRepInCert benchmark = -1 \<or> bf_Cmp totalRepInCert benchmark = 0))))))"

section \<open>Weighted quorums with a slack\<close>

text \<open>
  What a reputation quorum is good for: two accepted groups of nodes share a node. Because the
  sums are rounded, a group is only known to weigh at least half of the total minus a slack.
\<close>

locale weighted_quorum =
  fixes members :: "'a set" and weight :: "'a \<Rightarrow> real" and slack :: real and accepts :: "'a set \<Rightarrow> bool"
  assumes finite_members: "finite members"
    and accepted: "accepts A \<Longrightarrow> A \<subseteq> members \<and> (\<forall>i \<in> members. 0 < weight i)
      \<and> (1 - slack) * (\<Sum>i\<in>members. weight i) / 2 \<le> (\<Sum>i\<in>A. weight i)"
begin

lemma two_accepted:
  assumes "accepts A" and "accepts B"
  shows "(1 - slack) * sum weight members \<le> sum weight (A \<union> B) + sum weight (A \<inter> B)"
    and "sum weight (A \<union> B) \<le> sum weight members"
proof -
  have fin: "finite A" "finite B"
    using accepted [OF assms(1)] accepted [OF assms(2)] finite_members by (auto intro: finite_subset)
  have "sum weight A + sum weight B = sum weight (A \<union> B) + sum weight (A \<inter> B)"
    using fin by (simp add: sum.union_inter)
  then show "(1 - slack) * sum weight members \<le> sum weight (A \<union> B) + sum weight (A \<inter> B)"
    using accepted [OF assms(1)] accepted [OF assms(2)] by (simp add: field_simps)
  show "sum weight (A \<union> B) \<le> sum weight members"
    using accepted [OF assms(1)] accepted [OF assms(2)] finite_members
    by (intro sum_mono2) (auto simp: less_imp_le)
qed

text \<open>Disjoint accepted groups split the total evenly, up to the slack, and miss almost nobody.\<close>

lemma disjoint_is_tie:
  assumes "accepts A" and "accepts B" and "A \<inter> B = {}"
  shows "sum weight A \<le> (1 + slack) * sum weight members / 2"
proof -
  have "sum weight A + sum weight B = sum weight (A \<union> B)"
    using assms accepted [OF assms(1)] accepted [OF assms(2)] finite_members
    by (intro sum.union_disjoint [symmetric]) (auto intro: finite_subset)
  then show ?thesis
    using two_accepted(2) [OF assms(1,2)] accepted [OF assms(2)] by (simp add: field_simps)
qed

lemma clear_majority_intersects:
  assumes "accepts A" and "accepts B" and "(1 + slack) * sum weight members / 2 < sum weight A"
  shows "A \<inter> B \<noteq> {}"
  using disjoint_is_tie [OF assms(1,2)] assms(3) by linarith

text \<open>With an odd number of equal weights there is no tie.\<close>

lemma odd_equal_intersects:
  assumes "accepts A" and "accepts B" and w: "\<And>i. i \<in> members \<Longrightarrow> weight i = w"
    and odd: "odd (card members)" and slack: "slack * card members < 1"
  shows "A \<inter> B \<noteq> {}"
proof -
  have n: "card members \<noteq> 0"
    using odd by (cases "card members") auto
  then obtain i where i: "i \<in> members"
    by (metis card.empty ex_in_conv)
  have pos: "0 < w"
    using accepted [OF assms(1)] w [OF i] i by auto
  have half: "card members < 2 * card X" if "accepts X" for X
  proof -
    have X: "X \<subseteq> members" "(1 - slack) * (card members * w) / 2 \<le> card X * w"
      using accepted [OF that] w by (auto simp: subset_iff)
    then have "w * ((1 - slack) * card members) \<le> w * (2 * card X)"
      by (simp add: field_simps)
    then have "(1 - slack) * card members \<le> 2 * card X"
      using pos by simp
    then have "real (card members) - 1 < real (2 * card X)"
      using slack by (simp add: algebra_simps)
    then have "card members \<le> 2 * card X"
      by linarith
    then show ?thesis
      using odd by (metis dvd_triv_left le_neq_implies_less)
  qed
  have "card (A \<union> B) \<le> card members"
    using accepted [OF assms(1)] accepted [OF assms(2)] finite_members by (intro card_mono) auto
  moreover have "card A + card B = card (A \<union> B) + card (A \<inter> B)"
    using accepted [OF assms(1)] accepted [OF assms(2)] finite_members
    by (intro card_Un_Int) (auto intro: finite_subset)
  ultimately have "0 < card (A \<inter> B)"
    using half [OF assms(1)] half [OF assms(2)] by linarith
  then show ?thesis
    by auto
qed

end

section \<open>The code's sums\<close>

lemma bfval_zero [simp]: "bfval (SetFloat64 (0, 0)) = 0"
  by (simp add: SetFloat64_def bfval_round dround_exact dval_pair)

lemma bfval_half [simp]: "bfval (SetFloat64 (1, -1)) = 1 / 2"
  by (simp add: SetFloat64_def bfval_round dround_exact dval_pair power_int_minus)

lemma bf_prec_SetFloat64 [simp]: "bf_prec (SetFloat64 x) = 53"
  by (simp add: SetFloat64_def bf_round_def)

lemma add_reps_acc:
  assumes "set is \<subseteq> dom (mget reps)"
  shows "add_reps reps is acc = Inr (bf_acc acc (map (\<lambda>i. the (mget reps i)) is))"
  using assms by (induction "is" arbitrary: acc) auto

lemma add_reps_panic:
  "\<not> set is \<subseteq> dom (mget reps) \<Longrightarrow> add_reps reps is acc = Inl NilDereference"
proof (induction "is" arbitrary: acc)
  case (Cons i "is")
  then show ?case
    by (cases "mget reps i") auto
qed simp

text \<open>The real weight of a node, and the total of a map.\<close>

definition rep_weight :: "(u64, big_float) gomap \<Rightarrow> u64 \<Rightarrow> real" where
  "rep_weight reps i = (case mget reps i of None \<Rightarrow> 0 | Some w \<Rightarrow> bfval w)"

definition rep_total :: "(u64, big_float) gomap \<Rightarrow> real" where
  "rep_total reps = (\<Sum>i\<in>set (mkeys reps). rep_weight reps i)"

definition reps_positive :: "(u64, big_float) gomap \<Rightarrow> bool" where
  "reps_positive reps \<longleftrightarrow> wf_map reps \<and> (\<forall>w \<in> set (map snd reps). 0 < fst (bf_dy w))"

definition rep_slack :: "(u64, big_float) gomap \<Rightarrow> real" where
  "rep_slack reps = real (2 * length reps + 1) * ulp53"

lemma reps_positiveD:
  assumes "reps_positive reps" and "i \<in> set (mkeys reps)"
  shows "0 < rep_weight reps i" and "rep_weight reps i = bfval (the (mget reps i))"
proof -
  obtain w where w: "mget reps i = Some w"
    using assms(2) unfolding set_mkeys by auto
  then have "0 < fst (bf_dy w)"
    using assms(1) map_of_SomeD [OF w] by (force simp: reps_positive_def)
  then have "0 < dval (bf_dy w)"
    using dval_sign [of "bf_dy w"] by linarith
  then show "0 < rep_weight reps i" and "rep_weight reps i = bfval (the (mget reps i))"
    using w by (simp_all add: rep_weight_def bfval_def)
qed

text \<open>Summing the reputations of a list of nodes is exact up to one rounding per node.\<close>

lemma acc_list_bounds:
  assumes "reps_positive reps" and "set is \<subseteq> set (mkeys reps)"
  defines "a \<equiv> bfval (bf_acc (SetFloat64 (0, 0)) (map (\<lambda>i. the (mget reps i)) is))"
  shows "(1 - ulp53) ^ length is * sum_list (map (rep_weight reps) is) \<le> a"
    and "a \<le> (1 + ulp53) ^ length is * sum_list (map (rep_weight reps) is)"
proof -
  let ?ws = "map (\<lambda>i. the (mget reps i)) is"
  have eq: "map bfval ?ws = map (rep_weight reps) is"
    using assms(2) reps_positiveD(2) [OF assms(1)] by (simp add: subset_iff)
  have nn: "0 \<le> bfval x" if "x \<in> set ?ws" for x
    using that assms(2) reps_positiveD [OF assms(1)] by (force simp: less_imp_le)
  show "(1 - ulp53) ^ length is * sum_list (map (rep_weight reps) is) \<le> a"
    using bf_acc_lower [of "SetFloat64 (0, 0)" ?ws, OF _ _ nn] unfolding eq a_def by simp
  show "a \<le> (1 + ulp53) ^ length is * sum_list (map (rep_weight reps) is)"
    using bf_acc_upper [of "SetFloat64 (0, 0)" ?ws, OF _ _ nn] unfolding eq a_def by simp
qed

lemma acc_bounds:
  assumes "reps_positive reps" and "distinct is" and "set is \<subseteq> set (mkeys reps)"
  defines "a \<equiv> bfval (bf_acc (SetFloat64 (0, 0)) (map (\<lambda>i. the (mget reps i)) is))"
  shows "(1 - ulp53) ^ length is * (\<Sum>i\<in>set is. rep_weight reps i) \<le> a"
    and "a \<le> (1 + ulp53) ^ length is * (\<Sum>i\<in>set is. rep_weight reps i)"
  using acc_list_bounds [OF assms(1,3)] sum_list_distinct_conv_sum_set [OF assms(2), of "rep_weight reps"]
  unfolding a_def by simp_all

lemma bf_Mul_half_error:
  assumes "bf_prec a = 53" and "0 \<le> bfval a"
  shows "(1 - ulp53) * (bfval a / 2) \<le> bfval (bf_Mul 0 a (SetFloat64 (1, -1)))"
    and "bfval (bf_Mul 0 a (SetFloat64 (1, -1))) \<le> (1 + ulp53) * (bfval a / 2)"
proof -
  let ?d = "dmul (bf_dy a) (bf_dy (SetFloat64 (1, -1)))"
  have v: "dval ?d = bfval a / 2"
    using bfval_half by (simp add: bfval_def)
  have "\<bar>dval (dround 53 ?d) - dval ?d\<bar> \<le> \<bar>dval ?d\<bar> * ulp53"
    using dround_error [of 53 ?d] by (simp add: ulp53_def)
  moreover have "bfval (bf_Mul 0 a (SetFloat64 (1, -1))) = dval (dround 53 ?d)"
    using assms(1) by (simp add: bf_Mul_def bfval_round recv_prec_def)
  ultimately have "\<bar>bfval (bf_Mul 0 a (SetFloat64 (1, -1))) - bfval a / 2\<bar> \<le> bfval a / 2 * ulp53"
    using assms(2) unfolding v by simp
  then show "(1 - ulp53) * (bfval a / 2) \<le> bfval (bf_Mul 0 a (SetFloat64 (1, -1)))"
    and "bfval (bf_Mul 0 a (SetFloat64 (1, -1))) \<le> (1 + ulp53) * (bfval a / 2)"
    unfolding abs_le_iff by (auto simp: algebra_simps)
qed

lemma benchmark_bounds:
  assumes "reps_positive (view_reps v s)" and "is_order r"
  defines "n \<equiv> length (view_reps v s)" and "t \<equiv> rep_total (view_reps v s)"
  shows "(1 - ulp53) ^ (n + 1) * (t / 2) \<le> bfval (GetCertBenchMark r v s)"
    and "bfval (GetCertBenchMark r v s) \<le> (1 + ulp53) ^ (n + 1) * (t / 2)"
proof -
  let ?m = "view_reps v s"
  let ?a = "bf_acc (SetFloat64 (0, 0)) (range_values r ?m)"
  have d: "distinct (r (mkeys ?m))" and st: "set (r (mkeys ?m)) = set (mkeys ?m)"
    and ln: "length (r (mkeys ?m)) = n"
    using assms(1) is_orderD [OF assms(2), of "mkeys ?m"] by (simp_all add: reps_positive_def wf_map_def n_def)
  have lo: "(1 - ulp53) ^ n * t \<le> bfval ?a" and hi: "bfval ?a \<le> (1 + ulp53) ^ n * t"
    using acc_bounds [OF assms(1) d] unfolding st ln range_values_def t_def rep_total_def by simp_all
  have t: "0 \<le> t"
    unfolding t_def rep_total_def using reps_positiveD(1) [OF assms(1)] by (intro sum_nonneg) (simp add: less_imp_le)
  have "0 \<le> (1 - ulp53) ^ n * t"
    using t ulp53_bounds by simp
  then have a: "0 \<le> bfval ?a" "bf_prec ?a = 53"
    using lo by (auto simp: bf_prec_acc)
  have eq: "GetCertBenchMark r v s = bf_Mul 0 ?a (SetFloat64 (1, -1))"
    by (simp add: GetCertBenchMark_def Let_def)
  have "(1 - ulp53) * ((1 - ulp53) ^ n * t / 2) \<le> (1 - ulp53) * (bfval ?a / 2)"
    using lo ulp53_bounds by (intro mult_left_mono) auto
  then show "(1 - ulp53) ^ (n + 1) * (t / 2) \<le> bfval (GetCertBenchMark r v s)"
    using bf_Mul_half_error(1) [OF a(2,1)] unfolding eq by (simp add: mult.assoc)
  have "(1 + ulp53) * (bfval ?a / 2) \<le> (1 + ulp53) * ((1 + ulp53) ^ n * t / 2)"
    using hi ulp53_bounds by (intro mult_left_mono) auto
  then show "bfval (GetCertBenchMark r v s) \<le> (1 + ulp53) ^ (n + 1) * (t / 2)"
    using bf_Mul_half_error(2) [OF a(2,1)] unfolding eq by (simp add: mult.assoc)
qed

text \<open>A rounded sum that reaches the rounded benchmark weighs half of the total, up to the slack.\<close>

lemma reaches_benchmark:
  assumes "reps_positive (view_reps v s)" and "is_order r"
    and "distinct is" and "set is \<subseteq> set (mkeys (view_reps v s))"
    and "bfval (GetCertBenchMark r v s)
      \<le> bfval (bf_acc (SetFloat64 (0, 0)) (map (\<lambda>i. the (mget (view_reps v s) i)) is))"
  shows "(1 - rep_slack (view_reps v s)) * rep_total (view_reps v s) / 2 \<le> (\<Sum>i\<in>set is. rep_weight (view_reps v s) i)"
proof -
  let ?m = "view_reps v s"
  let ?u = ulp53 and ?k = "length is" and ?n = "length ?m" and ?t = "rep_total ?m"
  let ?w = "\<Sum>i\<in>set is. rep_weight ?m i"
  have u: "0 < ?u" "?u < 1"
    by (rule ulp53_bounds)+
  have w: "0 \<le> ?w" and t: "0 \<le> ?t"
    unfolding rep_total_def using reps_positiveD(1) [OF assms(1), THEN less_imp_le] assms(4)
    by (intro sum_nonneg, blast)+
  have k: "?k \<le> ?n"
    using card_mono [OF _ assms(4)] card_length [of "mkeys ?m"] distinct_card [OF assms(3)] by simp
  have "(1 - ?u) ^ (?n + 1) * (?t / 2) \<le> (1 + ?u) ^ ?k * ?w"
    using benchmark_bounds(1) [OF assms(1,2)] assms(5) acc_bounds(2) [OF assms(1,3,4)] by linarith
  then have "(1 - ?u) ^ ?k * ((1 - ?u) ^ (?n + 1) * (?t / 2)) \<le> (1 - ?u) ^ ?k * ((1 + ?u) ^ ?k * ?w)"
    using u by (intro mult_left_mono) auto
  also have "(1 - ?u) ^ ?k * ((1 + ?u) ^ ?k * ?w) = (1 - ?u\<^sup>2) ^ ?k * ?w"
    by (simp add: power_mult_distrib [symmetric] mult.assoc [symmetric] algebra_simps power2_eq_square)
  also have "\<dots> \<le> 1 * ?w"
    using u w by (intro mult_right_mono power_le_one) (auto simp: power2_eq_square mult_le_one)
  finally have 1: "(1 - ?u) ^ (?k + (?n + 1)) * (?t / 2) \<le> ?w"
    by (simp only: power_add mult.assoc mult_1)
  have "1 - rep_slack ?m \<le> 1 - real (?k + (?n + 1)) * ?u"
    using k u by (simp add: rep_slack_def mult_right_mono)
  also have "\<dots> \<le> (1 - ?u) ^ (?k + (?n + 1))"
    using Bernoulli_inequality [of "- ?u" "?k + (?n + 1)"] u by simp
  finally have "(1 - rep_slack ?m) * (?t / 2) \<le> (1 - ?u) ^ (?k + (?n + 1)) * (?t / 2)"
    using t by (intro mult_right_mono) auto
  then show ?thesis
    using 1 by simp
qed

text \<open>Conversely, a weight clearly above half of the total exceeds every rounded benchmark. The weight
  is that of a list: a node that occurs twice counts twice.\<close>

lemma slack_power:
  assumes "k \<le> m" and "real m * ulp53 < 1 / 2" and "0 < m"
  shows "1 < (1 - ulp53) ^ k * (1 + 2 * (real m * ulp53))"
proof -
  let ?e = "real m * ulp53"
  have e: "0 < ?e"
    using assms(3) ulp53_bounds by simp
  then have "0 < ?e * (1 - 2 * ?e)"
    using assms(2) by simp
  then have "1 < (1 - ?e) * (1 + 2 * ?e)"
    by (simp add: algebra_simps)
  moreover have "1 - ?e \<le> 1 - real k * ulp53"
    using assms(1) ulp53_bounds by (simp add: mult_right_mono)
  moreover have "\<dots> \<le> (1 - ulp53) ^ k"
    using Bernoulli_inequality [of "- ulp53" k] ulp53_bounds by simp
  ultimately show ?thesis
    using e mult_right_mono [of "1 - ?e" "(1 - ulp53) ^ k" "1 + 2 * ?e"] by linarith
qed

lemma list_exceeds_benchmark:
  assumes "reps_positive (view_reps v s)" and "is_order r" and "view_reps v s \<noteq> []" and "set is \<subseteq> set (mkeys (view_reps v s))"
    and m: "length is + length (view_reps v s) + 1 \<le> m" "real m * ulp53 < 1 / 2"
    and w: "(1 + 2 * (real m * ulp53)) * rep_total (view_reps v s) / 2 \<le> sum_list (map (rep_weight (view_reps v s)) is)"
  shows "bfval (GetCertBenchMark r v s)
    < bfval (bf_acc (SetFloat64 (0, 0)) (map (\<lambda>i. the (mget (view_reps v s) i)) is))"
proof -
  let ?m = "view_reps v s"
  let ?u = ulp53 and ?n = "length ?m" and ?t = "rep_total ?m" and ?e = "real m * ulp53"
  let ?q = "(1 - ?u) ^ (?n + 1)" and ?p = "(1 - ?u) ^ length is"
  have u: "0 < ?u" "?u < 1"
    by (rule ulp53_bounds)+
  have t: "0 < ?t"
    unfolding rep_total_def using reps_positiveD(1) [OF assms(1)] assms(3) by (intro sum_pos) auto
  have q: "0 < ?q"
    using u by simp
  have 1: "1 < ?p * ?q * (1 + 2 * ?e)"
    using slack_power [of "length is + (?n + 1)" m] m unfolding power_add [of _ "length is"] by simp
  have 2: "(1 + ?u) ^ (?n + 1) * ?q \<le> 1"
    unfolding power_mult_distrib [symmetric] using u by (intro power_le_one) (auto simp: algebra_simps mult_le_one)
  have "?q * bfval (GetCertBenchMark r v s) \<le> ?q * ((1 + ?u) ^ (?n + 1) * (?t / 2))"
    using benchmark_bounds(2) [OF assms(1,2)] q by (intro mult_left_mono) auto
  also have "\<dots> \<le> 1 * (?t / 2)"
    using 2 t unfolding mult.assoc [symmetric] by (intro mult_right_mono) (auto simp: mult.commute)
  also have "\<dots> < (?p * ?q * (1 + 2 * ?e)) * (?t / 2)"
    using 1 t by (intro mult_strict_right_mono) simp_all
  also have "\<dots> = ?q * (?p * ((1 + 2 * ?e) * ?t / 2))"
    by simp
  also have "\<dots> \<le> ?q * (?p * sum_list (map (rep_weight ?m) is))"
    using w u by (intro mult_left_mono) auto
  also have "\<dots> \<le> ?q * bfval (bf_acc (SetFloat64 (0, 0)) (map (\<lambda>i. the (mget ?m i)) is))"
    using acc_list_bounds(1) [OF assms(1,4)] q by (intro mult_left_mono) auto
  finally show ?thesis
    using q by (simp add: mult_less_cancel_left_pos)
qed

lemma exceeds_benchmark:
  assumes "reps_positive (view_reps v s)" and "is_order r" and "view_reps v s \<noteq> []"
    and "distinct is" and "set is \<subseteq> set (mkeys (view_reps v s))"
    and "length (view_reps v s) < 2 ^ 50"
    and "(1 + 2 * rep_slack (view_reps v s)) * rep_total (view_reps v s) / 2
      \<le> (\<Sum>i\<in>set is. rep_weight (view_reps v s) i)"
  shows "bfval (GetCertBenchMark r v s)
    < bfval (bf_acc (SetFloat64 (0, 0)) (map (\<lambda>i. the (mget (view_reps v s) i)) is))"
proof (rule list_exceeds_benchmark [OF assms(1-3,5), of "2 * length (view_reps v s) + 1"])
  let ?n = "length (view_reps v s)"
  show "length is + ?n + 1 \<le> 2 * ?n + 1"
    using card_mono [OF _ assms(5)] card_length [of "mkeys (view_reps v s)"] distinct_card [OF assms(4)] by simp
  have "real ?n < 2 ^ 50"
    using assms(6) by (metis of_nat_less_iff of_nat_numeral of_nat_power)
  then have "real (2 * ?n + 1) < 2 ^ 52"
    by simp
  then show "real (2 * ?n + 1) * ulp53 < 1 / 2"
    by (simp add: ulp53_def)
qed (use assms(7) sum_list_distinct_conv_sum_set [OF assms(4), of "rep_weight (view_reps v s)"] in
    \<open>simp_all only: rep_slack_def\<close>)

section \<open>The test of the vote handler\<close>

text \<open>The sum over the recorded voters against the benchmark, which the code computes twice, each
  time in the order of another \<^verbatim>\<open>range\<close> loop.\<close>

definition enough_reputation :: "(nat \<Rightarrow> u64 order) \<Rightarrow> SyncHS \<Rightarrow> u64 list \<Rightarrow> bool result" where
  "enough_reputation rs s voters =
     bind_r (add_reps (view_reps (view s) s) (rs 0 voters) (SetFloat64 (0, 0))) (\<lambda>repSumInCert.
       Inr (\<not> (bf_Cmp repSumInCert (GetCertBenchMark (rs 1) (view s) s) = -1
             \<or> bf_Cmp repSumInCert (GetCertBenchMark (rs 2) (view s) s) = 0)))"

text \<open>The groups of nodes for which the handler builds a certificate, for some loop orders.\<close>

definition vote_accepts :: "SyncHS \<Rightarrow> u64 set \<Rightarrow> bool" where
  "vote_accepts s A \<longleftrightarrow> reps_positive (view_reps (view s) s)
     \<and> (\<exists>rs voters. (\<forall>k. is_order (rs k)) \<and> distinct voters \<and> set voters = A
          \<and> enough_reputation rs s voters = Inr True)"

lemma enough_reputation_panic:
  assumes "is_order (rs 0)" and "\<not> set voters \<subseteq> dom (mget (view_reps (view s) s))"
  shows "enough_reputation rs s voters = Inl NilDereference"
  using assms is_orderD(1) [OF assms(1), of voters] by (simp add: enough_reputation_def add_reps_panic)

lemma enough_reputation_weight:
  assumes "reps_positive (view_reps (view s) s)" and "\<forall>k. is_order (rs k)" and "distinct voters"
    and "enough_reputation rs s voters = Inr True"
  shows "set voters \<subseteq> set (mkeys (view_reps (view s) s))"
    and "(1 - rep_slack (view_reps (view s) s)) * rep_total (view_reps (view s) s) / 2
      \<le> (\<Sum>i\<in>set voters. rep_weight (view_reps (view s) s) i)"
proof -
  let ?m = "view_reps (view s) s"
  have st: "set (rs 0 voters) = set voters" and d: "distinct (rs 0 voters)"
    using is_orderD [of "rs 0" voters] assms(2,3) by auto
  show sub: "set voters \<subseteq> set (mkeys ?m)"
  proof (rule ccontr)
    assume "\<not> set voters \<subseteq> set (mkeys ?m)"
    then show False
      using enough_reputation_panic [of rs voters s] assms(2,4) unfolding set_mkeys by simp
  qed
  then have "add_reps ?m (rs 0 voters) (SetFloat64 (0, 0))
      = Inr (bf_acc (SetFloat64 (0, 0)) (map (\<lambda>i. the (mget ?m i)) (rs 0 voters)))"
    unfolding set_mkeys using st by (intro add_reps_acc) simp
  then have "bfval (GetCertBenchMark (rs 1) (view s) s)
      \<le> bfval (bf_acc (SetFloat64 (0, 0)) (map (\<lambda>i. the (mget ?m i)) (rs 0 voters)))"
    using assms(4) by (simp add: enough_reputation_def bf_Cmp_simps)
  then show "(1 - rep_slack ?m) * rep_total ?m / 2 \<le> (\<Sum>i\<in>set voters. rep_weight ?m i)"
    using reaches_benchmark [OF assms(1) _ d, of "rs 1"] assms(2) st sub by simp
qed

interpretation vote_quorum: weighted_quorum "set (mkeys (view_reps (view s) s))"
  "rep_weight (view_reps (view s) s)" "rep_slack (view_reps (view s) s)" "vote_accepts s"
  for s
proof unfold_locales
  fix A assume "vote_accepts s A"
  then obtain rs voters where *: "reps_positive (view_reps (view s) s)" "\<forall>k. is_order (rs k)" "distinct voters"
    "set voters = A" "enough_reputation rs s voters = Inr True"
    by (auto simp: vote_accepts_def)
  show "A \<subseteq> set (mkeys (view_reps (view s) s)) \<and> (\<forall>i\<in>set (mkeys (view_reps (view s) s)). 0 < rep_weight (view_reps (view s) s) i)
      \<and> (1 - rep_slack (view_reps (view s) s)) * sum (rep_weight (view_reps (view s) s)) (set (mkeys (view_reps (view s) s))) / 2
        \<le> sum (rep_weight (view_reps (view s) s)) A"
    using enough_reputation_weight [OF *(1-3,5)] reps_positiveD(1) [OF *(1)] *(4)
    unfolding rep_total_def by blast
qed simp

section \<open>The test of a received certificate\<close>

lemma check_signers_Some:
  "check_signers E s c is acc = Inr (Some t) \<Longrightarrow>
     set is \<subseteq> dom (mget (view_reps (view s - 1) s))
     \<and> t = bf_acc acc (map (\<lambda>i. the (mget (view_reps (view s - 1) s) i)) is)"
proof (induction "is" arbitrary: acc)
  case (Cons i "is")
  then show ?case
    by (auto simp: bind_r_eq_Inr split: option.splits if_splits)
qed simp

text \<open>An ordinary certificate: not for the genesis block and not for an empty block.\<close>

definition ordinary_cert :: "env \<Rightarrow> SyncHS \<Rightarrow> BlockCertificate \<Rightarrow> bool" where
  "ordinary_cert E s c \<longleftrightarrow> fst (BC_GetBlockInfo E c) \<noteq> EmptyHash
     \<and> (case mget (BlocksByHash (bc s)) (fst (BC_GetBlockInfo E c)) of None \<Rightarrow> True
        | Some b \<Rightarrow> (case eb_ExtHeader b of None \<Rightarrow> True
           | Some eh \<Rightarrow> length (ProtoHeader_GetExtra (eh_ProtoHeader eh)) \<noteq> 1))"

definition cert_accepts :: "env \<Rightarrow> SyncHS \<Rightarrow> u64 set \<Rightarrow> bool" where
  "cert_accepts E s A \<longleftrightarrow> reps_positive (view_reps (view s - 1) s)
     \<and> (\<exists>r c. is_order r \<and> ordinary_cert E s c \<and> distinct (PC_GetSigners (bc_Partial c))
          \<and> set (PC_GetSigners (bc_Partial c)) = A \<and> IsCertValid E r s c = Inr True)"

lemma IsCertValid_weight:
  assumes "reps_positive (view_reps (view s - 1) s)" and "is_order r" and "ordinary_cert E s c"
    and "distinct (PC_GetSigners (bc_Partial c))" and "IsCertValid E r s c = Inr True"
  shows "set (PC_GetSigners (bc_Partial c)) \<subseteq> set (mkeys (view_reps (view s - 1) s))"
    and "(1 - rep_slack (view_reps (view s - 1) s)) * rep_total (view_reps (view s - 1) s) / 2
      \<le> (\<Sum>i\<in>set (PC_GetSigners (bc_Partial c)). rep_weight (view_reps (view s - 1) s) i)"
proof -
  let ?m = "view_reps (view s - 1) s" and ?is = "PC_GetSigners (bc_Partial c)"
  obtain t where t: "check_signers E s c ?is (SetFloat64 (0, 0)) = Inr (Some t)"
    and b: "bf_Cmp t (GetCertBenchMark r (view s - 1) s) \<noteq> -1"
    using assms(3,5)
    by (auto simp: IsCertValid_def ordinary_cert_def Let_def bind_r_eq_Inr split: prod.splits option.splits if_splits)
  note c = check_signers_Some [OF t]
  then show sub: "set ?is \<subseteq> set (mkeys ?m)"
    unfolding set_mkeys by blast
  show "(1 - rep_slack ?m) * rep_total ?m / 2 \<le> (\<Sum>i\<in>set ?is. rep_weight ?m i)"
    using reaches_benchmark [OF assms(1,2,4) sub] b c by (simp add: bf_Cmp_simps)
qed

interpretation cert_quorum: weighted_quorum "set (mkeys (view_reps (view s - 1) s))"
  "rep_weight (view_reps (view s - 1) s)" "rep_slack (view_reps (view s - 1) s)" "cert_accepts E s"
  for E s
proof unfold_locales
  fix A assume "cert_accepts E s A"
  then obtain r c where *: "reps_positive (view_reps (view s - 1) s)" "is_order r" "ordinary_cert E s c"
    "distinct (PC_GetSigners (bc_Partial c))" "IsCertValid E r s c = Inr True"
    "set (PC_GetSigners (bc_Partial c)) = A"
    by (auto simp: cert_accepts_def)
  show "A \<subseteq> set (mkeys (view_reps (view s - 1) s))
      \<and> (\<forall>i\<in>set (mkeys (view_reps (view s - 1) s)). 0 < rep_weight (view_reps (view s - 1) s) i)
      \<and> (1 - rep_slack (view_reps (view s - 1) s)) * sum (rep_weight (view_reps (view s - 1) s)) (set (mkeys (view_reps (view s - 1) s))) / 2
        \<le> sum (rep_weight (view_reps (view s - 1) s)) A"
    using IsCertValid_weight [OF *(1-5)] reps_positiveD(1) [OF *(1)] *(6)
    unfolding rep_total_def by blast
qed simp

section \<open>Building a certificate\<close>

lemma add_votes_ok:
  "cert_sigs_ok c \<Longrightarrow> \<exists>c'. add_votes vs c = Inr c' \<and> cert_sigs_ok c'
     \<and> pc_ids (bc_Partial c') = pc_ids (bc_Partial c) @ map Vote_GetVoter vs
     \<and> pc_sigs (bc_Partial c') = pc_sigs (bc_Partial c) @ map Vote_GetSignature vs
     \<and> bc_data c' = bc_data c"
proof (induction vs arbitrary: c)
  case (Cons v vs)
  from BC_AddVote_ok [OF Cons.prems, of v] obtain c1 where c1: "BC_AddVote v c = Inr c1" "cert_sigs_ok c1"
    "pc_ids (bc_Partial c1) = pc_ids (bc_Partial c) @ [Vote_GetVoter v]"
    "pc_sigs (bc_Partial c1) = pc_sigs (bc_Partial c) @ [Vote_GetSignature v]" "bc_data c1 = bc_data c"
    by blast
  show ?case
    using Cons.IH [OF c1(2)] c1 by auto
qed simp

lemma add_votes_built: "built E c \<Longrightarrow> add_votes vs c = Inr c' \<Longrightarrow> built E c'"
  by (induction vs arbitrary: c) (auto simp: bind_r_eq_Inr intro: built.vote)

lemma BC_Init_SetBlockInfo_zero:
  "cert_sigs_ok (BC_Init (BC_SetBlockInfo E h v BlockCertificate_zero))"
  "pc_ids (bc_Partial (BC_Init (BC_SetBlockInfo E h v BlockCertificate_zero))) = []"
  "pc_sigs (bc_Partial (BC_Init (BC_SetBlockInfo E h v BlockCertificate_zero))) = []"
  "bc_data (BC_Init (BC_SetBlockInfo E h v BlockCertificate_zero))
     = \<lparr>vd_BlockHash = HashBytes E h, vd_View = v, vd_Owner = 0\<rparr>"
  by (simp_all add: cert_sigs_ok_def BC_Init_def PC_Init_def BC_SetBlockInfo_def BlockCertificate_zero_def
      PartialCertificate_zero_def)

lemma NewCert_ok:
  obtains c where "NewCert E r votes h v = Inr c" "cert_sigs_ok c" "built E c"
    "pc_ids (bc_Partial c) = map Vote_GetVoter (range_values r votes)"
    "pc_sigs (bc_Partial c) = map Vote_GetSignature (range_values r votes)"
    "bc_data c = \<lparr>vd_BlockHash = HashBytes E h, vd_View = v, vd_Owner = 0\<rparr>"
proof -
  have "built E (BC_Init (BC_SetBlockInfo E h v BlockCertificate_zero))"
    by (intro built.intros)
  then show ?thesis
    using add_votes_ok [OF BC_Init_SetBlockInfo_zero(1) [of E h v], of "range_values r votes"] add_votes_built that
    by (auto simp: NewCert_def BC_Init_SetBlockInfo_zero)
qed

section \<open>The reputations of one view\<close>

lemma mget_view_reps: "mget (view_reps v s) i = mget2 (reputationMap s) v i"
  by (simp add: view_reps_def mget2_def split: option.split)

lemma inner_foldl:
  "(case mget (foldl (\<lambda>m i. mput2 a i (f i) m) m is) a of None \<Rightarrow> [] | Some r \<Rightarrow> r)
   = foldl (\<lambda>r i. mput i (f i) r) (case mget m a of None \<Rightarrow> [] | Some r \<Rightarrow> r) is"
  by (induction "is" arbitrary: m) (simp_all add: mget_mput2)

lemma wf_map_foldl: "wf_map m \<Longrightarrow> wf_map (foldl (\<lambda>r i. mput i (f i) r) m is)"
  by (induction "is" arbitrary: m) auto

lemma initial_view_reps:
  assumes "view_reps (view s) s = []" and "length (pMap s) < 2 ^ 64 - 1"
  shows "wf_map (view_reps (view s) (initialReputationMap s))"
    and "set (mkeys (view_reps (view s) (initialReputationMap s))) = set (node_ids s)"
    and "length (view_reps (view s) (initialReputationMap s)) = Suc (length (pMap s))"
    and "i \<in> set (node_ids s) \<Longrightarrow> mget (view_reps (view s) (initialReputationMap s)) i = Some (initialReplicaSore s)"
proof -
  let ?m = "view_reps (view s) (initialReputationMap s)"
  have "?m = foldl (\<lambda>r i. mput i (initialReplicaSore s) r) [] (node_ids s)"
    using inner_foldl [of "view s" "\<lambda>_. initialReplicaSore s" "reputationMap s" "node_ids s"] assms(1)
    by (simp add: view_reps_def initialReputation_eq)
  then show wf: "wf_map ?m"
    by (simp add: wf_map_foldl)
  have look: "mget ?m i = (if i \<in> set (node_ids s) then Some (initialReplicaSore s) else None)" for i
  proof -
    have "mget2 (reputationMap s) (view s) i = None"
      using assms(1) mget_view_reps [of "view s" s i] by simp
    then show ?thesis
      by (simp add: mget_view_reps initialReputation_lookup)
  qed
  then show dom: "set (mkeys ?m) = set (node_ids s)"
    unfolding set_mkeys by (auto split: if_splits)
  show "i \<in> set (node_ids s) \<Longrightarrow> mget ?m i = Some (initialReplicaSore s)"
    by (simp add: look)
  have "distinct (node_ids s)"
    using assms(2) by (simp add: node_ids_def distinct_map inj_on_def word_unat_eq_iff unat_of_nat del: upt_Suc)
  then have "card (set (node_ids s)) = Suc (length (pMap s))"
    by (metis distinct_card node_ids_def diff_zero length_map length_upt)
  then show "length ?m = Suc (length (pMap s))"
    using wf distinct_card [of "mkeys ?m"] dom by (simp add: wf_map_def)
qed

section \<open>Properties\<close>

lemma node_ids_initial [simp]:
  "view (initialReputationMap s) = view s"
  by (simp add: initialReputation_eq)

text \<open>A network of \<open>n\<close> nodes in its first view, seen from node 0.\<close>

definition sample_first_view :: "nat \<Rightarrow> SyncHS" where
  "sample_first_view n = initialReputationMap (sample_node 0 n)"

lemma sample_positive:
  "reps_positive (view_reps (view (sample_first_view 3)) (sample_first_view 3))"
  by code_simp

text \<open>The weights in the first view of three nodes.\<close>

lemma sample_reps:
  "view (sample_first_view 3) = 1"
  "view_reps 1 (sample_first_view 3) = [(0, SetFloat64 f64_1em6), (1, SetFloat64 f64_1em6), (2, SetFloat64 f64_1em6)]"
  by code_simp+

lemma sample_weights:
  "rep_weight [(0, SetFloat64 f64_1em6), (1, SetFloat64 f64_1em6), (2, SetFloat64 f64_1em6)] i
     = (if i \<in> {0, 1, 2} then dval f64_1em6 else 0)"
  "rep_total [(0, SetFloat64 f64_1em6), (1, SetFloat64 f64_1em6), (2, SetFloat64 f64_1em6)] = 3 * dval f64_1em6"
  using bfval_init by (simp_all add: rep_total_def rep_weight_def initialNodescore_def)

lemma sample_margins:
  "(1 + 2 * rep_slack [x, y, z]) * (3 * dval f64_1em6) \<le> 4 * dval f64_1em6"
  "(1 + rep_slack [x, y, z]) * (3 * dval f64_1em6) < 4 * dval f64_1em6"
  using init_bounds(1) by (simp_all add: rep_slack_def ulp53_def)

text \<open>Completeness of the vote quorum: voters whose real reputation exceeds half of the total
  by twice that error get their certificate, in every order of the loops.\<close>

lemma quorum_complete:
  assumes "reps_positive (view_reps (view s) s)" and "\<forall>k. is_order (rs k)" and "distinct voters"
    and "view_reps (view s) s \<noteq> []" and "length (view_reps (view s) s) < 2 ^ 50"
    and "set voters \<subseteq> set (mkeys (view_reps (view s) s))"
    and "(1 + 2 * rep_slack (view_reps (view s) s)) * rep_total (view_reps (view s) s) / 2
      \<le> (\<Sum>i\<in>set voters. rep_weight (view_reps (view s) s) i)"
  shows "enough_reputation rs s voters = Inr True"
proof -
  let ?m = "view_reps (view s) s"
  have st: "set (rs 0 voters) = set voters" and d: "distinct (rs 0 voters)"
    using is_orderD [of "rs 0" voters] assms(2,3) by auto
  have "set (rs 0 voters) \<subseteq> dom (mget ?m)"
    using assms(6) st unfolding set_mkeys by simp
  then have "add_reps ?m (rs 0 voters) (SetFloat64 (0, 0))
      = Inr (bf_acc (SetFloat64 (0, 0)) (map (\<lambda>i. the (mget ?m i)) (rs 0 voters)))"
    by (rule add_reps_acc)
  moreover have "bfval (GetCertBenchMark (rs k) (view s) s)
      < bfval (bf_acc (SetFloat64 (0, 0)) (map (\<lambda>i. the (mget ?m i)) (rs 0 voters)))" for k
    using exceeds_benchmark [OF assms(1) _ assms(4) d _ assms(5)] assms(2,6,7) st by simp
  ultimately show ?thesis
    by (simp add: enough_reputation_def bf_Cmp_simps not_less less_imp_le less_imp_neq [symmetric])
qed

text \<open>Quorum intersection: two groups of nodes that the handler accepts in the same view share
  a node, unless each of them holds half of the total up to the rounding error.\<close>

lemma quorum_intersection:
  assumes "vote_accepts s A" and "vote_accepts s B"
    and "(1 + rep_slack (view_reps (view s) s)) * rep_total (view_reps (view s) s) / 2
      < (\<Sum>i\<in>A. rep_weight (view_reps (view s) s) i)"
  shows "A \<inter> B \<noteq> {}"
  using assms unfolding rep_total_def by (rule vote_quorum.clear_majority_intersects)

text \<open>In the first view of a network with an odd number of nodes (all of them with the initial
  reputation), any two accepted groups intersect.\<close>

lemma first_view_odd_intersection:
  assumes "view_reps (view s) s = []" and "even (length (pMap s))" and "length (pMap s) < 2 ^ 25"
    and "vote_accepts (initialReputationMap s) A" and "vote_accepts (initialReputationMap s) B"
  shows "A \<inter> B \<noteq> {}"
proof -
  let ?m = "view_reps (view s) (initialReputationMap s)"
  have len: "length (pMap s) < 2 ^ 64 - 1"
    using assms(3) by simp
  note init = initial_view_reps [OF assms(1) len]
  have card: "card (set (mkeys ?m)) = Suc (length (pMap s))"
    using distinct_card [of "mkeys ?m"] init(1,3) by (simp add: wf_map_def)
  have "real (length (pMap s)) < 2 ^ 25"
    using assms(3) by (metis of_nat_less_iff of_nat_numeral of_nat_power)
  then have n: "real (Suc (length (pMap s))) \<le> 2 ^ 26" "real (2 * Suc (length (pMap s)) + 1) \<le> 2 ^ 26 + 3"
    by simp_all
  have "real (2 * Suc (length (pMap s)) + 1) * real (Suc (length (pMap s))) \<le> (2 ^ 26 + 3) * 2 ^ 26"
    using n by (intro mult_mono) auto
  then have slack: "rep_slack ?m * card (set (mkeys ?m)) < 1"
    unfolding card by (simp add: rep_slack_def init(3) ulp53_def)
  show ?thesis
  proof (rule vote_quorum.odd_equal_intersects [OF assms(4,5)])
    show "rep_weight (view_reps (view (initialReputationMap s)) (initialReputationMap s)) i = bfval (initialReplicaSore s)"
      if "i \<in> set (mkeys (view_reps (view (initialReputationMap s)) (initialReputationMap s)))" for i
      using that init(2,4) by (simp add: rep_weight_def)
  qed (use card assms(2) slack in simp_all)
qed

text \<open>With equal reputations a sum depends only on the number of the nodes.\<close>

lemma map_const_replicate: "\<forall>i \<in> set is. f i = w \<Longrightarrow> map f is = replicate (length is) w"
  by (induction "is") simp_all

lemma equal_reputations:
  assumes "\<forall>i \<in> set (mkeys (view_reps (view s) s)). mget (view_reps (view s) s) i = Some w"
    and "\<forall>k. is_order (rs k)" and "set voters \<subseteq> set (mkeys (view_reps (view s) s))"
  shows "enough_reputation rs s voters =
    (let sum = bf_acc (SetFloat64 (0, 0)) (replicate (length voters) w);
         benchmark = bf_Mul 0 (bf_acc (SetFloat64 (0, 0)) (replicate (length (view_reps (view s) s)) w)) (SetFloat64 (1, -1))
     in Inr (\<not> (bf_Cmp sum benchmark = -1 \<or> bf_Cmp sum benchmark = 0)))"
proof -
  let ?m = "view_reps (view s) s"
  have ord: "set (rs k is) = set is" "length (rs k is) = length is" for k "is"
    using is_orderD [of "rs k" "is"] assms(2) by auto
  have all: "map (\<lambda>i. the (mget ?m i)) is = replicate (length is) w" if "set is \<subseteq> set (mkeys ?m)" for "is"
  proof (intro map_const_replicate ballI)
    fix i assume "i \<in> set is"
    then have "i \<in> set (mkeys ?m)"
      using that by blast
    from bspec [OF assms(1) this] show "the (mget ?m i) = w"
      by simp
  qed
  have "add_reps ?m (rs 0 voters) (SetFloat64 (0, 0)) = Inr (bf_acc (SetFloat64 (0, 0)) (replicate (length voters) w))"
    using add_reps_acc [of "rs 0 voters" ?m] all [of "rs 0 voters"] assms(3) ord unfolding set_mkeys by simp
  moreover have "range_values (rs k) ?m = replicate (length ?m) w" for k
    using all [of "rs k (mkeys ?m)"] ord by (simp add: range_values_def)
  ultimately show ?thesis
    by (simp add: enough_reputation_def GetCertBenchMark_def Let_def)
qed

text \<open>C16. The rounding error is not harmless. When a replica with five peers initialises the reputations
  of a view, any three nodes then exceed the benchmark, in every order of the loops, so that the other
  three do so as well: two disjoint halves of the network can both get a certificate.\<close>

theorem six_nodes_split:
  assumes "view_reps (view s) s = []" and "length (pMap s) = 5" and "initialReplicaSore s = SetFloat64 f64_1em6"
    and "\<forall>k. is_order (rs k)" and "distinct voters" and "set voters \<subseteq> set (node_ids s)" and "length voters = 3"
  shows "\<exists>others. distinct others \<and> set others = set (node_ids s) - set voters \<and> length others = 3
    \<and> enough_reputation rs (initialReputationMap s) voters = Inr True
    \<and> enough_reputation rs (initialReputationMap s) others = Inr True"
proof -
  let ?s = "initialReputationMap s" and ?others = "filter (\<lambda>i. i \<notin> set voters) (node_ids s)"
  note init = initial_view_reps [OF assms(1), unfolded assms(2)]
  have d: "distinct (node_ids s)" "length (node_ids s) = 6"
    using assms(2) by (simp_all add: node_ids_def distinct_map inj_on_def word_unat_eq_iff unat_of_nat del: upt_Suc)
  have keys: "set (mkeys (view_reps (view ?s) ?s)) = set (node_ids s)" "length (view_reps (view ?s) ?s) = 6"
    "\<forall>i \<in> set (mkeys (view_reps (view ?s) ?s)). mget (view_reps (view ?s) ?s) i = Some (SetFloat64 f64_1em6)"
    using init assms(3) by simp_all
  have three: "enough_reputation rs ?s is = Inr True" if "set is \<subseteq> set (node_ids s)" "length is = 3" for "is"
    unfolding equal_reputations [OF keys(3) assms(4) that(1) [folded keys(1)]] keys(2) that(2) by code_simp
  have "set (node_ids s) \<inter> set voters = set voters"
    using assms(6) by blast
  then have "length ?others = 3"
    using sum_length_filter_compl [of "\<lambda>i. i \<in> set voters" "node_ids s"] d assms(5-7)
      distinct_card [of "filter (\<lambda>i. i \<in> set voters) (node_ids s)"] distinct_card [OF assms(5)]
    by (simp add: Collect_conj_eq Int_commute)
  then show ?thesis
    using three [of voters] three [of ?others] assms(6,7) d(1) by (intro exI [of _ ?others]) auto
qed

theorem six_nodes_split_witness:
  "\<exists>others. set others = {3, 4, 5}
     \<and> enough_reputation (\<lambda>_. rev) (initialReputationMap (sample_node 0 6)) [0, 2, 1] = Inr True
     \<and> enough_reputation (\<lambda>_. rev) (initialReputationMap (sample_node 0 6)) others = Inr True"
proof -
  have h: "view_reps (view (sample_node 0 6)) (sample_node 0 6) = []" "length (pMap (sample_node 0 6)) = 5"
    "initialReplicaSore (sample_node 0 6) = SetFloat64 f64_1em6" "node_ids (sample_node 0 6) = [0, 1, 2, 3, 4, 5]"
    by code_simp+
  have diff: "{0, 1, 2, 3, 4, 5} - {0, 2, 1} = {3, 4, 5 :: u64}"
    by auto
  show ?thesis
    using six_nodes_split [OF h(1-3), of "\<lambda>_. rev" "[0, 2, 1]"] unfolding h(4) by (auto simp: diff)
qed

text \<open>C15. Soundness of the certificate check: a certificate for an ordinary block whose signers are
  distinct is accepted only if every signer has a reputation in the previous view and together they
  hold at least half of the total, up to the rounding error.\<close>

theorem valid_cert_weight:
  assumes "reps_positive (view_reps (view s - 1) s)" and "is_order r" and "ordinary_cert E s c"
    and "distinct (PC_GetSigners (bc_Partial c))" and "IsCertValid E r s c = Inr True"
  shows "set (PC_GetSigners (bc_Partial c)) \<subseteq> set (mkeys (view_reps (view s - 1) s))
    \<and> (1 - rep_slack (view_reps (view s - 1) s)) * rep_total (view_reps (view s - 1) s) / 2
      \<le> (\<Sum>i\<in>set (PC_GetSigners (bc_Partial c)). rep_weight (view_reps (view s - 1) s) i)"
  using IsCertValid_weight [OF assms] by blast

text \<open>A replica of three in view 2 that knows one block, and certificates for it.\<close>

definition sample_block :: ProtoBlock where
  "sample_block = \<lparr>pb_Header = Some \<lparr>ph_ParentHash = [], ph_TxHash = [], ph_Height = 1, ph_Extra = []\<rparr>,
     pb_Body = Some \<lparr>pbd_Txs = [], pbd_Responses = []\<rparr>, pb_BlockHash = [7]\<rparr>"

definition sample_second_view :: SyncHS where
  "sample_second_view = (sample_first_view 3)\<lparr>view := 2, leader := 1,
     bc := \<lparr>BlocksByHash = [(sample_hash [7], ext_of sample_env sample_block)],
            BlocksByHeight = [(1, ext_of sample_env sample_block)], Head = 1\<rparr>\<rparr>"

definition sample_received :: "u64 list \<Rightarrow> bytes list \<Rightarrow> BlockCertificate" where
  "sample_received ids sigs = (case BC_FromProto sample_env
     \<lparr>ct_Data = sample_enc_vd \<lparr>vd_BlockHash = [7], vd_View = 1, vd_Owner = 0\<rparr>, ct_Signatures = sigs, ct_Ids = ids\<rparr>
     BlockCertificate_zero of Inl _ \<Rightarrow> BlockCertificate_zero | Inr c \<Rightarrow> c)"

theorem valid_cert_weight_witness:
  "IsCertValid sample_env (\<lambda>ks. ks) sample_second_view (sample_received [0, 2] [[], []]) = Inr True
   \<and> 2 * dval f64_1em6 \<ge> (1 - rep_slack (view_reps 1 (sample_first_view 3))) * (3 * dval f64_1em6) / 2"
proof -
  let ?c = "sample_received [0, 2] [[], []]" and ?s = sample_second_view
  have h: "reps_positive (view_reps (view ?s - 1) ?s)" "ordinary_cert sample_env ?s ?c"
    "distinct (PC_GetSigners (bc_Partial ?c))" "IsCertValid sample_env (\<lambda>ks. ks) ?s ?c = Inr True"
    "PC_GetSigners (bc_Partial ?c) = [0, 2]" "view_reps (view ?s - 1) ?s = view_reps 1 (sample_first_view 3)"
    by code_simp+
  show ?thesis
    using valid_cert_weight [OF h(1) is_order_id h(2-4)] h(4) unfolding h(5,6)
    by (simp add: sample_reps sample_weights)
qed

lemma check_signers_verdict:
  "check_signers (E\<lparr>Verify := \<lambda>k d sig. (verdict k d sig, snd (Verify E k d sig))\<rparr>) s c is acc
   = check_signers E s c is acc"
proof (induction "is" arbitrary: acc)
  case (Cons i "is")
  then show ?case
    by (simp split: option.split cong: if_cong)
qed simp

text \<open>C17. The certificate check does not depend on whether the signatures verify: replacing the
  verdict of \<open>Verify\<close> by any other verdict, with the same errors, never changes its result.\<close>

theorem cert_check_ignores_verdict:
  "IsCertValid (E\<lparr>Verify := \<lambda>k d sig. (verdict k d sig, snd (Verify E k d sig))\<rparr>) r s c = IsCertValid E r s c"
  by (simp add: IsCertValid_def check_signers_verdict BC_GetBlockInfo_def Let_def cong: if_cong)

lemma check_signers_repeated:
  assumes "PC_GetSignatureFromID i (bc_Partial c) = Some sig" and "GetPubKeyFromID (cfg s) i = Some pk"
    and "\<not> snd (Verify E pk (PC_GetData (bc_Partial c)) sig)" and "mget (view_reps (view s - 1) s) i = Some w"
  shows "check_signers E s c (replicate k i) acc = Inr (Some (bf_acc acc (replicate k w)))"
  using assms by (induction k arbitrary: acc) simp_all

text \<open>C18. A single node can forge a certificate. A certificate for a known ordinary block that names one
  node \<open>k\<close> times is accepted as soon as \<open>k\<close> times the reputation of that node exceeds half of the total
  by the rounding error, for every verdict on the signature, as long as verifying reports no error.\<close>

theorem forged_cert_accepted:
  assumes "fst (BC_GetBlockInfo E c) \<noteq> EmptyHash" and "mget (BlocksByHash (bc s)) (fst (BC_GetBlockInfo E c)) = Some b"
    and "eb_ExtHeader b = Some eh" and "length (ProtoHeader_GetExtra (eh_ProtoHeader eh)) \<noteq> 1"
    and "PC_GetSigners (bc_Partial c) = replicate k i" and "PC_GetSignatureFromID i (bc_Partial c) = Some sig"
    and "GetPubKeyFromID (cfg s) i = Some pk" and "Verify E pk (PC_GetData (bc_Partial c)) sig = (verdict, False)"
    and "reps_positive (view_reps (view s - 1) s)" and "is_order r" and "i \<in> set (mkeys (view_reps (view s - 1) s))"
    and "k + length (view_reps (view s - 1) s) < 2 ^ 51"
    and "(1 + 2 * (real (k + length (view_reps (view s - 1) s) + 1) * ulp53)) * rep_total (view_reps (view s - 1) s) / 2
      \<le> real k * rep_weight (view_reps (view s - 1) s) i"
  shows "IsCertValid E r s c = Inr True"
proof -
  let ?m = "view_reps (view s - 1) s"
  obtain w where w: "mget ?m i = Some w"
    using assms(11) unfolding set_mkeys by blast
  have "real (k + length ?m + 1) \<le> 2 ^ 51"
    using assms(12) by (metis Suc_eq_plus1 Suc_leI of_nat_le_iff of_nat_numeral of_nat_power)
  then have small: "real (k + length ?m + 1) * ulp53 < 1 / 2"
    by (simp add: ulp53_def)
  have "bfval (GetCertBenchMark r (view s - 1) s) < bfval (bf_acc (SetFloat64 (0, 0)) (map (\<lambda>i. the (mget ?m i)) (replicate k i)))"
  proof (rule list_exceeds_benchmark [OF assms(9,10), of _ "k + length ?m + 1"])
    show "?m \<noteq> []"
      using assms(11) by auto
    show "set (replicate k i) \<subseteq> set (mkeys ?m)"
      using assms(11) by (metis in_set_replicate subsetI)
  qed (use assms(13) small in \<open>simp_all add: sum_list_replicate map_replicate\<close>)
  then have "bfval (GetCertBenchMark r (view s - 1) s) < bfval (bf_acc (SetFloat64 (0, 0)) (replicate k w))"
    by (simp add: w map_replicate)
  then have "bf_Cmp (bf_acc (SetFloat64 (0, 0)) (replicate k w)) (GetCertBenchMark r (view s - 1) s) \<notin> {-1, 0}"
    by (simp add: bf_Cmp_simps)
  moreover have "check_signers E s c (replicate k i) (SetFloat64 (0, 0)) = Inr (Some (bf_acc (SetFloat64 (0, 0)) (replicate k w)))"
    by (rule check_signers_repeated [OF assms(6,7) _ w]) (simp add: assms(8))
  ultimately show ?thesis
    using assms(1-5) by (simp add: IsCertValid_def case_prod_beta Let_def)
qed

text \<open>Node 2 of three forges a certificate with a signature that its key does not accept.\<close>

theorem forged_cert_accepted_witness:
  "IsCertValid sample_env rev sample_second_view (sample_received [2, 2, 2] [[], [], []]) = Inr True
   \<and> Verify sample_env [2] (PC_GetData (bc_Partial (sample_received [2, 2, 2] [[], [], []]))) [] = (False, False)"
proof -
  let ?c = "sample_received [2, 2, 2] [[], [], []]" and ?s = sample_second_view
  let ?b = "ext_of sample_env sample_block"
  have h: "fst (BC_GetBlockInfo sample_env ?c) \<noteq> EmptyHash"
    "mget (BlocksByHash (bc ?s)) (fst (BC_GetBlockInfo sample_env ?c)) = Some ?b"
    "eb_ExtHeader ?b \<noteq> None" "length (ProtoHeader_GetExtra (eh_ProtoHeader (the (eb_ExtHeader ?b)))) \<noteq> 1"
    "PC_GetSigners (bc_Partial ?c) = replicate 3 2" "PC_GetSignatureFromID 2 (bc_Partial ?c) = Some []"
    "GetPubKeyFromID (cfg ?s) 2 = Some [2]"
    "Verify sample_env [2] (PC_GetData (bc_Partial ?c)) [] = (False, False)"
    "reps_positive (view_reps (view ?s - 1) ?s)" "view_reps (view ?s - 1) ?s = view_reps 1 (sample_first_view 3)"
    by code_simp+
  then obtain eh where eh: "eb_ExtHeader ?b = Some eh" "length (ProtoHeader_GetExtra (eh_ProtoHeader eh)) \<noteq> 1"
    by force
  have "(1 + 2 * (7 * ulp53)) * (3 * dval f64_1em6) / 2 \<le> 3 * dval f64_1em6"
    using init_bounds(1) by (simp add: ulp53_def)
  then show ?thesis
    using forged_cert_accepted [OF h(1,2) eh h(5-9), of rev] h(8) unfolding h(10) by (simp add: sample_reps sample_weights)
qed

end
