(* ===== verification/Voting.thy ===== *)
theory Voting
  imports Quorum_Cert
begin

text \<open>
  Votes (\<^verbatim>\<open>consensus/vote.go\<close>): validating, counting and casting them. \<open>voteHandler\<close> is one
  iteration of the handler loop, for a vote just received from \<open>voteChannel\<close>; its local variables
  \<open>voteMap\<close> and \<open>isCertified\<close> are the fields \<open>vh_voteMap\<close> and \<open>vh_isCertified\<close> of the state.
\<close>

section \<open>The code\<close>

text \<open>The block argument of \<open>isVoteValid\<close> is not used by the code.\<close>

definition isVoteValid :: "env \<Rightarrow> SyncHS \<Rightarrow> Vote \<Rightarrow> bool result" where
  "isVoteValid E s v =
    (let (data, err) = MarshalVoteData E (v_Data v) in
     if err then Inr False
     else bind_r (deref (GetPubKeyFromID (cfg s) (Vote_GetVoter v))) (\<lambda>k.
       let (sigOk, err2) = Verify E k data (Vote_GetSignature v) in
       if err2 then Inr False else Inr sigOk))"

text \<open>The four steps of an iteration: the entry of the current view, the recorded vote, the
  reputation test, the certificate.\<close>

definition vh_open :: "SyncHS \<Rightarrow> SyncHS" where
  "vh_open s = (case mget (vh_voteMap s) (view s) of
       None \<Rightarrow> s\<lparr>vh_voteMap := mput (view s) [] (vh_voteMap s), vh_isCertified := mput (view s) False (vh_isCertified s)\<rparr>
     | Some _ \<Rightarrow> s)"

definition vh_votes :: "SyncHS \<Rightarrow> (u64, Vote) gomap" where
  "vh_votes s = (case mget (vh_voteMap s) (view s) of None \<Rightarrow> [] | Some m \<Rightarrow> m)"

definition vh_certify :: "env \<Rightarrow> (nat \<Rightarrow> u64 order) \<Rightarrow> Vote \<Rightarrow> SyncHS \<Rightarrow> SyncHS result" where
  "vh_certify E rs v s =
     bind_r (enough_reputation rs s (mkeys (vh_votes s))) (\<lambda>enough.
       if \<not> enough then Inr s
       else bind_r (NewCert E (rs 3) (vh_votes s) (ToHash E (Vote_GetBlockHash v)) (Vote_GetView v)) (\<lambda>bcert.
         Inr (spawn [Act_addCert bcert (view s)]
           (s\<lparr>vh_isCertified := mput (view s) True (vh_isCertified s)\<rparr>))))"

definition vh_count :: "env \<Rightarrow> (nat \<Rightarrow> u64 order) \<Rightarrow> Vote \<Rightarrow> SyncHS \<Rightarrow> SyncHS result" where
  "vh_count E rs v s =
     (let (pv, v1) = Vote_ToProto v in
      bind_r (addVotetoMap pv s) (\<lambda>s1.
        if mget (vh_isCertified s1) (view s1) = Some True then Inr s1
        else vh_certify E rs v1
          (s1\<lparr>vh_voteMap := mput (view s1) (mput (Vote_GetVoter v1) v1 (vh_votes s1)) (vh_voteMap s1)\<rparr>)))"

definition voteHandler :: "env \<Rightarrow> (nat \<Rightarrow> u64 order) \<Rightarrow> Vote \<Rightarrow> SyncHS \<Rightarrow> SyncHS result" where
  "voteHandler E rs v s =
     bind_r (Vote_Owner v) (\<lambda>owner.
       if owner \<noteq> leader s then Inr (spawn [Act_sendMalivoteEvidenceCall v] s)
       else let s1 = vh_open s in
         if mget (vh_votes s1) (Vote_GetVoter v) \<noteq> None then Inr s1
         else bind_r (if Vote_GetVoter v \<noteq> GetID (cfg s) then isVoteValid E s1 v else Inr True) (\<lambda>isValid.
           if \<not> isValid then Inr s1 else vh_count E rs v s1))"

text \<open>Signing, recording and sending a vote; the two ways of voting differ in the vote data only.\<close>

definition cast_vote :: "env \<Rightarrow> ProtoVoteData \<Rightarrow> SyncHS \<Rightarrow> SyncHS result" where
  "cast_vote E pvd s =
    (let (data, err) = MarshalVoteData E (Some pvd) in
     if err then Inr s
     else let (sig, err2) = Sign E (GetMyKey (cfg s)) data in
       if err2 then Inr s
       else let pvb = \<lparr>vb_Voter = GetID (cfg s), vb_Signature = sig\<rparr>;
                pv = \<lparr>pv_Data = Some pvd, pv_Body = Some pvb\<rparr> in
         bind_r (addVotetoMap pv s) (\<lambda>s1.
           Inr (spawn [Act_Broadcast (Msg_Vote pv), Act_sendVote (Vote_FromProto pv)] s1)))"

definition voteForBlock :: "env \<Rightarrow> ExtProposal \<Rightarrow> SyncHS \<Rightarrow> SyncHS result" where
  "voteForBlock E exprop s =
     bind_r (ExtBlock_GetBlockHash E (ep_ExtBlock exprop)) (\<lambda>bh.
       cast_vote E \<lparr>vd_BlockHash = HashBytes E bh, vd_View = view s, vd_Owner = pr_Miner (ep_Proposal exprop)\<rparr> s)"

end
