(* ===== verification/Proposal_Forward.thy ===== *)
theory Proposal_Forward
  imports Voting
begin

text \<open>
  Proposals (\<^verbatim>\<open>consensus/proposalAndForward.go\<close>): building and broadcasting a block, forwarding
  the leader's proposal, and the handler of forwarded proposals, one iteration per proposal received
  from \<open>proposeChannel\<close>. The local \<open>fpropMap\<close> of the handler is the field \<open>fh_fpropMap\<close>.
\<close>

section \<open>Building blocks and proposals\<close>

text \<open>\<open>cert.ToProto()\<close> fills the cache of the certificate, so the certificate is returned too. A
  failing signature is an explicit panic.\<close>

definition NewCandidateProposal ::
  "env \<Rightarrow> bytes list \<Rightarrow> BlockCertificate \<Rightarrow> u64 \<Rightarrow> bytes \<Rightarrow> SyncHS \<Rightarrow> (Proposal \<times> BlockCertificate) result" where
  "NewCandidateProposal E cmds cert newHeight extra s =
    (let (bhash, v) = BC_GetBlockInfo E cert;
         pbody = \<lparr>pbd_Txs = cmds, pbd_Responses = cmds\<rparr>;
         pheader = \<lparr>ph_ParentHash = HashBytes E bhash, ph_TxHash = [], ph_Height = newHeight, ph_Extra = extra\<rparr>;
         data = fst (MarshalHeader E (Some pheader));
         newBlockHash = DoHash E data;
         (sig, err) = Sign E (GetMyKey (cfg s)) data
     in if err then Inl ExplicitPanic
        else let blk = \<lparr>pb_Header = Some pheader, pb_Body = Some pbody, pb_BlockHash = HashBytes E newBlockHash\<rparr>;
                 (c, cert') = BC_ToProto E cert;
                 pevidence = fst (MarshalCertificate E c)
             in Inr (\<lparr>pr_Block = Some blk, pr_ForwardSender = leader s, pr_ForwardSig = [],
                      pr_Miner = GetID (cfg s), pr_MiningProof = sig, pr_View = v,
                      pr_ProposeEvidence = pevidence\<rparr>, cert'))"

text \<open>\<open>NewBlockBody\<close> assigns to a field promoted through a nil pointer.\<close>

definition NewBlockBody :: "bytes list \<Rightarrow> ExtBody result" where
  "NewBlockBody cmds = (let bd = \<lparr>eB_ProtoBody = None\<rparr> in
     bind_r (deref (eB_ProtoBody bd)) (\<lambda>b. Inr (bd\<lparr>eB_ProtoBody := Some (b\<lparr>pbd_Txs := cmds\<rparr>)\<rparr>)))"

definition createAnEmptyBlock :: "env \<Rightarrow> bytes list \<Rightarrow> BlockCertificate \<Rightarrow> u64 \<Rightarrow> bytes \<Rightarrow> ExtBlock result" where
  "createAnEmptyBlock E cmds cert newHeight extra =
    (let (bhash, _) = BC_GetBlockInfo E cert;
         pbody = \<lparr>pbd_Txs = cmds, pbd_Responses = cmds\<rparr>;
         pheader = \<lparr>ph_ParentHash = HashBytes E bhash, ph_TxHash = [], ph_Height = newHeight, ph_Extra = extra\<rparr>;
         blk = \<lparr>pb_Header = Some pheader, pb_Body = Some pbody, pb_BlockHash = HashBytes E EmptyHash\<rparr>
     in ExtBlock_FromProto E (Some blk) ExtBlock_zero)"

text \<open>Storing a block in both maps of the chain under a given height.\<close>

definition store_block :: "env \<Rightarrow> u64 \<Rightarrow> ExtBlock \<Rightarrow> SyncHS \<Rightarrow> SyncHS result" where
  "store_block E ht blk s = bind_r (ExtBlock_GetBlockHash E blk) (\<lambda>bh.
     Inr (s\<lparr>bc := (bc s)\<lparr>BlocksByHeight := mput ht blk (BlocksByHeight (bc s)),
                        BlocksByHash := mput bh blk (BlocksByHash (bc s))\<rparr>\<rparr>))"

definition Propose :: "env \<Rightarrow> SyncHS \<Rightarrow> SyncHS result" where
  "Propose E s =
    (let head = Head (bc s) in
     case getCertForBlockIndex head s of
       None \<Rightarrow> Inr s
     | Some cert \<Rightarrow>
       (case getCmdsIfSufficient s of
          (None, s1) \<Rightarrow> Inr s1
        | (Some cmds, s1) \<Rightarrow>
            let s2 = s1\<lparr>bc := (bc s1)\<lparr>Head := Head (bc s1) + 1\<rparr>\<rparr>; newHeight = Head (bc s2) in
            bind_r (NewCandidateProposal E cmds cert newHeight [] s2) (\<lambda>(prop, cert').
            bind_r (ExtBlock_FromProto E (pr_Block prop) ExtBlock_zero) (\<lambda>block.
            bind_r (store_block E newHeight block (addCert cert' head s2)) (\<lambda>s3.
              Inr (spawn [Act_addProposaltoMap, Act_Broadcast (Msg_Prop prop)]
                (s3\<lparr>proposalByviewMap := mput (view s3) prop (proposalByviewMap s3)\<rparr>)))))))"

section \<open>Forwarding\<close>

text \<open>\<open>correct, err := key.Verify(..)\<close> with the test \<open>!correct || err != nil\<close>; a missing key panics.\<close>

definition verified :: "env \<Rightarrow> pubkey option \<Rightarrow> bytes \<Rightarrow> bytes \<Rightarrow> bool result" where
  "verified E key data sig = bind_r (deref key) (\<lambda>k. let (ok, err) = Verify E k data sig in Inr (ok \<and> \<not> err))"

text \<open>The checks that \<open>forward\<close> and the handler share: hash, signature of the leader, certificate.
  The hash compared is the claimed one, read through the wrapper.\<close>

definition proposal_checks :: "env \<Rightarrow> u64 order \<Rightarrow> Proposal \<Rightarrow> ExtProposal \<Rightarrow> SyncHS \<Rightarrow> bool result" where
  "proposal_checks E r prop ep s =
     bind_r (deref (pr_Block (ep_Proposal ep))) (\<lambda>blk.
     bind_r (ExtBlock_GetBlockHash E (ep_ExtBlock ep)) (\<lambda>bh.
       if ToHash E (pb_BlockHash blk) \<noteq> bh then Inr False
       else let data = fst (MarshalHeader E (ProtoBlock_GetHeader (Proposal_GetBlock (Some prop)))) in
         bind_r (verified E (GetPubKeyFromID (cfg s) (leader s)) data (pr_MiningProof (ep_Proposal ep))) (\<lambda>correct.
           if \<not> correct then Inr False
           else IsCertValid E r s (ep_BlockCertificate ep))))"

definition forward :: "env \<Rightarrow> u64 order \<Rightarrow> Proposal \<Rightarrow> SyncHS \<Rightarrow> SyncHS result" where
  "forward E r prop s =
     bind_r (ExtProposal_FromProto E prop) (\<lambda>ep.
     bind_r (proposal_checks E r prop ep s) (\<lambda>ok.
       if \<not> ok then Inr s
       else let data1 = fst (MarshalHeader E (ProtoBlock_GetHeader (Proposal_GetBlock (Some prop))));
                (sig, err) = Sign E (GetMyKey (cfg s)) data1 in
         if err then Inl ExplicitPanic
         else let prop' = prop\<lparr>pr_ForwardSender := GetID (cfg s), pr_ForwardSig := sig\<rparr> in
           Inr (spawn [Act_Broadcast (Msg_Prop prop'), Act_sendPropose prop'] s)))"

section \<open>The handler of forwarded proposals\<close>

datatype delivery = Delivered | WrongParent | NotDelivered

text \<open>\<open>ensureBlockIsDelivered\<close> looks at the chain up to thirty times, one millisecond apart;
  \<open>seen\<close> are the states of the chain it sees. It only logs its outcome.\<close>

fun await_parent :: "env \<Rightarrow> u64 \<Rightarrow> hash \<Rightarrow> BlockChain list \<Rightarrow> delivery result" where
  "await_parent E parentIdx wanted [] = Inr NotDelivered"
| "await_parent E parentIdx wanted (c # cs) = (case mget (BlocksByHeight c) parentIdx of
       None \<Rightarrow> await_parent E parentIdx wanted cs
     | Some parentblk \<Rightarrow> bind_r (ExtBlock_GetBlockHash E parentblk) (\<lambda>ph.
         Inr (if ph \<noteq> wanted then WrongParent else Delivered)))"

definition ensureBlockIsDelivered :: "env \<Rightarrow> BlockChain list \<Rightarrow> ExtBlock \<Rightarrow> delivery result" where
  "ensureBlockIsDelivered E seen blk =
     bind_r (ExtBlock_GetHeight blk) (\<lambda>ht.
       let parentIdx = ht - 1 in
       if parentIdx = 0 then Inr Delivered
       else bind_r (ExtBlock_GetParentHash E blk) (\<lambda>ph. await_parent E parentIdx ph (take 30 seen)))"

definition fh_props :: "SyncHS \<Rightarrow> (u64, Proposal) gomap" where
  "fh_props s = (case mget (fh_fpropMap s) (view s) of None \<Rightarrow> [] | Some m \<Rightarrow> m)"

text \<open>The handler only receives while it has fewer proposals of the view than there are peers.\<close>

definition fh_ready :: "SyncHS \<Rightarrow> bool" where
  "fh_ready s \<longleftrightarrow> length (fh_props s) < length (pMap s)"

text \<open>The proposal that completes the set: a follower extends its chain and starts the vote, the
  leader votes.\<close>

definition fh_accept :: "env \<Rightarrow> Proposal \<Rightarrow> ExtProposal \<Rightarrow> SyncHS \<Rightarrow> SyncHS result" where
  "fh_accept E fprop ep s =
    (if GetID (cfg s) \<noteq> leader s
     then let s1 = addProposaltoMap (s\<lparr>bc := (bc s)\<lparr>Head := Head (bc s) + 1\<rparr>\<rparr>) in
       bind_r (addNewBlock E (ep_ExtBlock ep) s1) (\<lambda>s2.
         let s3 = addProposaltoViewMap fprop s2 in
         bind_r (ensureBlockIsDelivered E (replicate 30 (bc s3)) (ep_ExtBlock ep)) (\<lambda>_.
           Inr (spawn [Act_voteOrInject ep] s3)))
     else voteForBlock E ep s)"

definition fh_collect :: "env \<Rightarrow> Proposal \<Rightarrow> ExtProposal \<Rightarrow> SyncHS \<Rightarrow> SyncHS result" where
  "fh_collect E fprop ep s =
    (let s1 = s\<lparr>fh_fpropMap := mput (view s) (mput (pr_ForwardSender fprop) fprop (fh_props s)) (fh_fpropMap s)\<rparr> in
     if length (fh_props s1) < length (pMap s1) then Inr s1 else fh_accept E fprop ep s1)"

text \<open>The first proposal of the view is remembered; a later one with another hash is an equivocation.\<close>

definition fh_compare :: "env \<Rightarrow> Proposal \<Rightarrow> ExtProposal \<Rightarrow> SyncHS \<Rightarrow> SyncHS result" where
  "fh_compare E fprop ep s =
    (let first = (case mget (proposalByviewMap s) (view s) of None \<Rightarrow> fprop | Some p \<Rightarrow> p);
         s1 = s\<lparr>proposalByviewMap := mput (view s) first (proposalByviewMap s)\<rparr> in
     bind_r (ExtProposal_FromProto E first) (\<lambda>ep2.
     bind_r (ExtBlock_GetBlockHash E (ep_ExtBlock ep2)) (\<lambda>h2.
     bind_r (ExtBlock_GetBlockHash E (ep_ExtBlock ep)) (\<lambda>h.
       let s2 = s1\<lparr>equivocatingProposalInject := (h2 \<noteq> h)\<rparr> in
       if h2 \<noteq> h
       then Inr (if GetID (cfg s2) \<noteq> leader s2 then spawn [Act_sendEqProEvidenceCall first fprop] s2 else s2)
       else fh_collect E fprop ep s2))))"

definition forwardProposalHandler :: "env \<Rightarrow> u64 order \<Rightarrow> Proposal \<Rightarrow> SyncHS \<Rightarrow> SyncHS result" where
  "forwardProposalHandler E r fprop s =
    (if equivocatingProposalInject s then Inr s
     else bind_r (ExtProposal_FromProto E fprop) (\<lambda>ep.
       bind_r (proposal_checks E r fprop ep s) (\<lambda>ok.
         if \<not> ok then Inr s
         else let data = fst (MarshalHeader E (ProtoBlock_GetHeader (Proposal_GetBlock (Some fprop)))) in
           bind_r (verified E (GetPubKeyFromID (cfg s) (pr_ForwardSender (ep_Proposal ep))) data
               (pr_ForwardSig (ep_Proposal ep))) (\<lambda>correctSenderSig.
             if \<not> correctSenderSig then Inr s else fh_compare E fprop ep s))))"

section \<open>What building a proposal guarantees\<close>

lemma getCmds_sel:
  assumes "getCmdsIfSufficient s = (r, s')"
  shows "cfg s' = cfg s" "view s' = view s" "leader s' = leader s" "bc s' = bc s" "certMap s' = certMap s"
    "proposalByviewMap s' = proposalByviewMap s"
  using assms by (auto simp: getCmdsIfSufficient_def Let_def split: if_splits)

text \<open>The header and the block of a proposal over a parent certificate.\<close>

definition child_header :: "env \<Rightarrow> BlockCertificate \<Rightarrow> u64 \<Rightarrow> bytes \<Rightarrow> ProtoHeader" where
  "child_header E cert ht extra = \<lparr>ph_ParentHash = HashBytes E (fst (BC_GetBlockInfo E cert)), ph_TxHash = [],
     ph_Height = ht, ph_Extra = extra\<rparr>"

definition child_block :: "env \<Rightarrow> bytes list \<Rightarrow> BlockCertificate \<Rightarrow> u64 \<Rightarrow> bytes \<Rightarrow> hash \<Rightarrow> ProtoBlock" where
  "child_block E cmds cert ht extra h = \<lparr>pb_Header = Some (child_header E cert ht extra),
     pb_Body = Some \<lparr>pbd_Txs = cmds, pbd_Responses = cmds\<rparr>, pb_BlockHash = HashBytes E h\<rparr>"

lemma child_block_height [simp]: "ProtoHeader_GetHeight (pb_Header (child_block E cmds cert ht extra h)) = ht"
  by (simp add: child_block_def child_header_def ProtoHeader_GetHeight_def nil_safe_def)

lemma NewCandidateProposal_Inr:
  assumes "NewCandidateProposal E cmds cert ht extra s = Inr (prop, cert')"
  shows "cert' = snd (BC_ToProto E cert)"
    and "pr_Block prop = Some (child_block E cmds cert ht extra
      (DoHash E (fst (MarshalHeader E (Some (child_header E cert ht extra))))))"
    and "pr_Miner prop = GetID (cfg s)" and "pr_ForwardSender prop = leader s"
    and "pr_View prop = snd (BC_GetBlockInfo E cert)"
    and "Sign E (GetMyKey (cfg s)) (fst (MarshalHeader E (Some (child_header E cert ht extra))))
      = (pr_MiningProof prop, False)"
    and "pr_ProposeEvidence prop = fst (MarshalCertificate E (fst (BC_ToProto E cert)))"
  using assms
  by (auto simp: NewCandidateProposal_def child_block_def child_header_def Let_def case_prod_beta prod_eq_iff
      split: if_splits)

lemma createAnEmptyBlock_eq:
  "createAnEmptyBlock E cmds cert ht extra = Inr (ext_of E (child_block E cmds cert ht extra EmptyHash))"
  by (simp add: createAnEmptyBlock_def child_block_def child_header_def Let_def case_prod_beta)

lemma addNewBlock_store_block:
  "addNewBlock E (ext_of E d) s = store_block E (ProtoHeader_GetHeight (pb_Header d)) (ext_of E d) s"
  by (simp add: addNewBlock_def store_block_def)

lemma ExtProposal_FromProto_block:
  assumes "ExtProposal_FromProto E p = Inr ep"
  obtains d where "pr_Block p = Some d" "ep_ExtBlock ep = ext_of E d" "ep_Proposal ep = p"
  using assms by (cases "pr_Block p") (auto simp: ExtProposal_FromProto_def bind_r_eq_Inr)

end
