(* ===== verification/Evidence_Handling.thy ===== *)
theory Evidence_Handling
  imports Proposal_Forward
begin

text \<open>
  Evidence of misbehaviour (\<^verbatim>\<open>consensus/evidence.go\<close>): the senders, the validity checks and the
  three handlers, one iteration per evidence received, and the reaction to a withheld proposal.
\<close>

section \<open>Sending evidence\<close>

text \<open>All senders sign the evidence data; a failing \<open>Sign\<close> is only logged, and the evidence then goes
  out with the (nil) signature \<open>Sign\<close> returned.\<close>

definition new_evidence :: "env \<Rightarrow> u64 \<Rightarrow> SyncHS \<Rightarrow> Evidence option" where
  "new_evidence E target s =
    (let d = \<lparr>ed_MisbehaviourTarget = target, ed_View = view s\<rparr>;
         (data, err) = MarshalEvidenceData E (Some d) in
     if err then None
     else Some \<lparr>ev_EvidenceData = Some d, ev_EvOrigin = GetID (cfg s),
                ev_OrSignature = fst (Sign E (GetMyKey (cfg s)) data)\<rparr>)"

definition sendEqProEvidence :: "env \<Rightarrow> Proposal \<Rightarrow> Proposal \<Rightarrow> SyncHS \<Rightarrow> SyncHS" where
  "sendEqProEvidence E prop1 prop2 s = (case new_evidence E (leader s) s of
       None \<Rightarrow> s
     | Some ev \<Rightarrow> let e = \<lparr>eq_Evidence = Some ev, eq_E1 = Some prop1, eq_E2 = Some prop2\<rparr> in
         spawn [Act_Broadcast (Msg_Eqevidence e), Act_sendEqEvidence e] s)"

definition sendMaliProEvidence :: "env \<Rightarrow> Proposal \<Rightarrow> SyncHS \<Rightarrow> SyncHS" where
  "sendMaliProEvidence E prop s = (case new_evidence E (pr_Miner prop) s of
       None \<Rightarrow> s
     | Some ev \<Rightarrow> let e = \<lparr>mp_Evidence = Some ev, mp_E = Some prop\<rparr> in
         spawn [Act_Broadcast (Msg_Mpevidence e), Act_sendMaliProEvidence e] s)"

definition sendMalivoteEvidence :: "env \<Rightarrow> Vote \<Rightarrow> SyncHS \<Rightarrow> SyncHS" where
  "sendMalivoteEvidence E v s = (case new_evidence E (ProtoVoteBody_GetVoter (v_Body v)) s of
       None \<Rightarrow> s
     | Some ev \<Rightarrow> let e = \<lparr>mv_Evidence = Some ev, mv_E = Some (fst (Vote_ToProto v))\<rparr> in
         spawn [Act_Broadcast (Msg_Mvevidence e), Act_sendMaliVoteEvidence e] s)"

section \<open>Checking evidence\<close>

text \<open>Fields read through a chain of pointers, as in \<open>eq.Evidence.EvidenceData.View\<close>.\<close>

definition evidence_parts :: "Evidence option \<Rightarrow> (Evidence \<times> EvidenceData) result" where
  "evidence_parts p = bind_r (deref p) (\<lambda>ev. bind_r (deref (ev_EvidenceData ev)) (\<lambda>d. Inr (ev, d)))"

text \<open>The signature of the sender over the evidence data, common to the three checks.\<close>

definition origin_signed :: "env \<Rightarrow> SyncHS \<Rightarrow> Evidence \<Rightarrow> EvidenceData \<Rightarrow> bool result" where
  "origin_signed E s ev d =
    (let (data, err) = MarshalEvidenceData E (Some d) in
     if err then Inr False
     else verified E (GetPubKeyFromID (cfg s) (ev_EvOrigin ev)) data (ev_OrSignature ev))"

definition isEqpEvidenceValid :: "env \<Rightarrow> SyncHS \<Rightarrow> EquivocationEvidence \<Rightarrow> bool result" where
  "isEqpEvidenceValid E s eq =
     bind_r (evidence_parts (eq_Evidence eq)) (\<lambda>(ev, d).
       if ed_MisbehaviourTarget d \<noteq> leader s then Inr False
       else if ed_View d \<noteq> view s then Inr False
       else bind_r (origin_signed E s ev d) (\<lambda>isSigValid.
         if \<not> isSigValid then Inr False
         else let (data1, err1) = MarshalHeader E (ProtoBlock_GetHeader (Proposal_GetBlock (eq_E1 eq)));
                  (data2, err2) = MarshalHeader E (ProtoBlock_GetHeader (Proposal_GetBlock (eq_E2 eq))) in
           if err1 then Inr False else if err2 then Inr False
           else bind_r (verified E (GetPubKeyFromID (cfg s) (leader s)) data1 (Proposal_GetMiningProof (eq_E1 eq))) (\<lambda>ok1.
             if \<not> ok1 then Inr False
             else verified E (GetPubKeyFromID (cfg s) (leader s)) data2 (Proposal_GetMiningProof (eq_E2 eq)))))"

definition isMalipEvidenceValid :: "env \<Rightarrow> SyncHS \<Rightarrow> MalicousProposalEvidence \<Rightarrow> bool result" where
  "isMalipEvidenceValid E s ml =
     bind_r (evidence_parts (mp_Evidence ml)) (\<lambda>(ev, d).
       if ed_MisbehaviourTarget d = leader s then Inr False
       else if ed_View d \<noteq> view s then Inr False
       else bind_r (origin_signed E s ev d) (\<lambda>isSigValid.
         if \<not> isSigValid then Inr False
         else bind_r (deref (mp_E ml)) (\<lambda>p. bind_r (deref (pr_Block p)) (\<lambda>b.
           let (data1, err) = MarshalHeader E (pb_Header b) in
           if err then Inr False
           else verified E (GetPubKeyFromID (cfg s) (pr_Miner p)) data1 (pr_MiningProof p)))))"

text \<open>An owner equal to the leader is only logged, so it is read (and may panic) but not tested.\<close>

definition isMalivEvidenceValid :: "env \<Rightarrow> SyncHS \<Rightarrow> MalicousVoteEvidence \<Rightarrow> bool result" where
  "isMalivEvidenceValid E s mlv =
     bind_r (deref (mv_E mlv)) (\<lambda>v. bind_r (deref (pv_Data v)) (\<lambda>vd.
     bind_r (evidence_parts (mv_Evidence mlv)) (\<lambda>(ev, d).
       if ed_View d \<noteq> view s then Inr False
       else bind_r (origin_signed E s ev d) (\<lambda>isSigValid.
         if \<not> isSigValid then Inr False
         else let (data1, err) = MarshalVoteData E (Some vd) in
           if err then Inr False
           else bind_r (deref (pv_Body v)) (\<lambda>b.
             verified E (GetPubKeyFromID (cfg s) (vb_Voter b)) data1 (vb_Signature b))))))"

section \<open>Handling evidence\<close>

text \<open>
  The empty block that replaces a block of a misbehaving leader, with its certificate: shared by
  the equivocation handler and \<open>handleWithholdingProposal\<close>. Without a certificate for the head
  nothing happens (\<open>None\<close>).
\<close>

definition commit_empty :: "env \<Rightarrow> SyncHS \<Rightarrow> SyncHS option result" where
  "commit_empty E s =
    (case getCertForBlockIndex (Head (bc s)) s of
       None \<Rightarrow> Inr None
     | Some cert \<Rightarrow>
         let s1 = s\<lparr>bc := (bc s)\<lparr>Head := Head (bc s) + 1\<rparr>\<rparr>; newHeight = Head (bc s1) in
         bind_r (createAnEmptyBlock E [] cert newHeight [69]) (\<lambda>exemptyblock.
         bind_r (store_block E newHeight exemptyblock s1) (\<lambda>s2.
         bind_r (ExtBlock_GetBlockHash E exemptyblock) (\<lambda>bh.
           Inr (Some (addCert (BC_SetBlockInfo E bh (view s2) BlockCertificate_zero) (view s2) s2))))))"

definition EquivocationEvidenceHandler :: "env \<Rightarrow> EquivocationEvidence \<Rightarrow> SyncHS \<Rightarrow> SyncHS result" where
  "EquivocationEvidenceHandler E eqEvidence s =
    (if mget2 (equiproposalMap s) (view s) (leader s) = Some 1 then Inr s
     else bind_r (isEqpEvidenceValid E s eqEvidence) (\<lambda>isValid.
       if \<not> isValid then Inr s
       else bind_r (commit_empty E s) (\<lambda>r. case r of
           None \<Rightarrow> Inr s
         | Some s1 \<Rightarrow> Inr (addEquiProposaltoMap s1))))"

definition handleWithholdingProposal :: "env \<Rightarrow> SyncHS \<Rightarrow> SyncHS result" where
  "handleWithholdingProposal E s = bind_r (commit_empty E s) (\<lambda>r. case r of
       None \<Rightarrow> Inr s
     | Some s1 \<Rightarrow> Inr (addWitholdProposaltoMap s1))"

text \<open>The flag \<open>maliProspoalExists\<close> (\<open>maliVoteExists\<close>) is set by the search loop and reset on every
  path; the test reads it, so it is part of the condition.\<close>

definition MaliciousProposalEvidenceHandler :: "env \<Rightarrow> MalicousProposalEvidence \<Rightarrow> SyncHS \<Rightarrow> SyncHS result" where
  "MaliciousProposalEvidenceHandler E ev s =
     bind_r (isMalipEvidenceValid E s ev) (\<lambda>isValid.
       if \<not> isValid then Inr s
       else case mget (maliproposalMap s) (view s) of
         None \<Rightarrow> addMaliProposaltoMap (mp_E ev) s
       | Some maliSenderMap \<Rightarrow>
           bind_r (evidence_parts (mp_Evidence ev)) (\<lambda>(_, d).
             if maliProspoalExists s \<or> ed_MisbehaviourTarget d \<in> set (mkeys maliSenderMap)
             then Inr (s\<lparr>maliProspoalExists := False\<rparr>)
             else bind_r (addMaliProposaltoMap (mp_E ev) s) (\<lambda>s1. Inr (s1\<lparr>maliProspoalExists := False\<rparr>))))"

definition MaliciousVoteEvidenceHandler :: "env \<Rightarrow> MalicousVoteEvidence \<Rightarrow> SyncHS \<Rightarrow> SyncHS result" where
  "MaliciousVoteEvidenceHandler E ev s =
     bind_r (evidence_parts (mv_Evidence ev)) (\<lambda>(_, d).
     bind_r (isMalivEvidenceValid E s ev) (\<lambda>isValid.
       if \<not> isValid then Inr s
       else bind_r (deref (mv_E ev)) (\<lambda>v.
         case mget (voteMaliMap s) (view s) of
           None \<Rightarrow> addMaliVotetoMap v s
         | Some maliVoterMap \<Rightarrow>
             if maliVoteExists s \<or> ed_MisbehaviourTarget d \<in> set (mkeys maliVoterMap)
             then Inr (s\<lparr>maliVoteExists := False\<rparr>)
             else bind_r (addMaliVotetoMap v s) (\<lambda>s1. Inr (s1\<lparr>maliVoteExists := False\<rparr>)))))"

end
