(* ===== verification/Attack_Injection.thy ===== *)
theory Attack_Injection
  imports Evidence_Handling
begin

text \<open>
  Sending to the other nodes (\<^verbatim>\<open>consensus/sendall.go\<close>) and the rounds a replica can be started
  with, honest (\<open>startConsensusTimer\<close> of \<^verbatim>\<open>consensus/proposalAndForward.go\<close>) or with an injected
  attack (\<^verbatim>\<open>consensus/attackInjection.go\<close>). Every \<open>startConsensusTimer...\<close> starts the timer and a
  goroutine; the body of the goroutine is the \<open>round_...\<close> function of the same attack.
\<close>

section \<open>Broadcast\<close>

text \<open>What is written to stream \<open>i\<close> arrives when write and flush succeed (\<open>StreamOk\<close>); a failure is
  logged and the loop goes on.\<close>

definition Broadcast :: "env \<Rightarrow> u64 order \<Rightarrow> SyncHSMsg \<Rightarrow> SyncHS \<Rightarrow> SyncHS" where
  "Broadcast E r m s = (let (data, err) = MarshalMsg E m in
     if err then s
     else s\<lparr>netOut := netOut s @ map (\<lambda>idx. (idx, data)) (filter (StreamOk E) (r (mkeys (streamMap s))))\<rparr>)"

definition EquivocatingBroadcast :: "env \<Rightarrow> u64 order \<Rightarrow> SyncHSMsg \<Rightarrow> SyncHSMsg \<Rightarrow> SyncHS \<Rightarrow> SyncHS" where
  "EquivocatingBroadcast E r m1 m2 s = (let (data1, err1) = MarshalMsg E m1; (data2, err2) = MarshalMsg E m2 in
     if err1 \<or> err2 then s
     else s\<lparr>netOut := netOut s @ map (\<lambda>idx. (idx, if idx = 0 then data1 else data2))
       (filter (StreamOk E) (r (mkeys (streamMap s))))\<rparr>)"

section \<open>Misbehaving\<close>

text \<open>The two proposals of an equivocation carry the same commands and differ in their extra data.
  The head of the leader's own chain does not move.\<close>

definition Equivocationpropose :: "env \<Rightarrow> u64 order \<Rightarrow> SyncHS \<Rightarrow> SyncHS result" where
  "Equivocationpropose E r s =
    (let head = Head (bc s) in
     case getCertForBlockIndex head s of
       None \<Rightarrow> Inr s
     | Some cert \<Rightarrow>
       (case getCmdsIfSufficient s of
          (None, s1) \<Rightarrow> Inr s1
        | (Some cmds, s1) \<Rightarrow>
            bind_r (NewCandidateProposal E cmds cert (Head (bc s1) + 1) [49] s1) (\<lambda>(prop1, cert1).
            bind_r (NewCandidateProposal E cmds cert1 (Head (bc s1) + 1) [50] s1) (\<lambda>(prop2, cert2).
              Inr (EquivocatingBroadcast E r (Msg_Prop prop1) (Msg_Prop prop2) (addCert cert2 head s1))))))"

text \<open>Withholding a block is doing nothing.\<close>

definition Withholdingpropose :: "SyncHS \<Rightarrow> SyncHS" where
  "Withholdingpropose s = s"

definition Maliciousproposalpropose :: "env \<Rightarrow> SyncHS \<Rightarrow> SyncHS result" where
  "Maliciousproposalpropose E s =
    (let head = Head (bc s) in
     case getCertForBlockIndex head s of
       None \<Rightarrow> Inr s
     | Some cert \<Rightarrow>
       (case getCmdsIfSufficient s of
          (None, s1) \<Rightarrow> Inr s1
        | (Some cmds, s1) \<Rightarrow>
            bind_r (NewCandidateProposal E cmds cert (Head (bc s1) + 1) [] s1) (\<lambda>(maliProp, cert').
              Inr (spawn [Act_Broadcast (Msg_Prop maliProp), Act_sendMaliPropose maliProp] (addCert cert' head s1)))))"

text \<open>One iteration for a proposal received from \<open>maliPropseChannel\<close>. Node 0 sends no evidence.\<close>

definition MaliciousPropsoalHandler :: "env \<Rightarrow> Proposal \<Rightarrow> SyncHS \<Rightarrow> SyncHS result" where
  "MaliciousPropsoalHandler E malipro s =
    (let data = fst (MarshalHeader E (ProtoBlock_GetHeader (Proposal_GetBlock (Some malipro)))) in
     bind_r (verified E (GetPubKeyFromID (cfg s) (pr_Miner malipro)) data (pr_MiningProof malipro)) (\<lambda>correct.
       if \<not> correct then Inr s
       else let s1 = s\<lparr>maliciousProposalInject := (pr_Miner malipro \<noteq> leader s)\<rparr> in
         if \<not> maliciousProposalInject s1 then Inr s1
         else if GetID (cfg s1) \<noteq> 0 then Inr (sendMaliProEvidence E malipro s1)
         else Inr s1))"

text \<open>The bytes of \<^verbatim>\<open>"Invalid"\<close>.\<close>

definition voteForNonLeaderBlk :: "env \<Rightarrow> SyncHS \<Rightarrow> SyncHS result" where
  "voteForNonLeaderBlk E s =
     cast_vote E \<lparr>vd_BlockHash = [73, 110, 118, 97, 108, 105, 100], vd_View = view s, vd_Owner = GetID (cfg s)\<rparr> s"

text \<open>The goroutine that a follower starts for an accepted proposal.\<close>

definition voteOrInject :: "env \<Rightarrow> ExtProposal \<Rightarrow> SyncHS \<Rightarrow> SyncHS result" where
  "voteOrInject E ep s =
    (if GetID (cfg s) mod 2 \<noteq> 0 \<and> maliciousVoteInject s
     then bind_r (voteForNonLeaderBlk E s) (\<lambda>s1. Inr (s1\<lparr>maliciousVoteInject := False\<rparr>))
     else voteForBlock E ep s)"

section \<open>Rounds\<close>

definition round_BestCase :: "env \<Rightarrow> SyncHS \<Rightarrow> SyncHS result" where
  "round_BestCase E s = (if leader s = GetID (cfg s) then Propose E s else Inr s)"

definition round_WithWithhold :: "env \<Rightarrow> SyncHS \<Rightarrow> SyncHS result" where
  "round_WithWithhold E s =
    (if GetID (cfg s) = leader s
     then if GetID (cfg s) mod 2 \<noteq> 0
          then handleWithholdingProposal E ((Withholdingpropose s)\<lparr>withholdingProposalInject := True\<rparr>)
          else Propose E (s\<lparr>withholdingProposalInject := False\<rparr>)
     else if leader s mod 2 \<noteq> 0
          then handleWithholdingProposal E (s\<lparr>withholdingProposalInject := True\<rparr>)
          else Inr (s\<lparr>withholdingProposalInject := False\<rparr>))"

definition round_WithEquivocation :: "env \<Rightarrow> u64 order \<Rightarrow> SyncHS \<Rightarrow> SyncHS result" where
  "round_WithEquivocation E r s =
    (if GetID (cfg s) = leader s
     then if GetID (cfg s) mod 2 \<noteq> 0 then Equivocationpropose E r s else Propose E s
     else Inr s)"

definition round_WithMaliciousPropsoal :: "env \<Rightarrow> SyncHS \<Rightarrow> SyncHS result" where
  "round_WithMaliciousPropsoal E s =
    (if GetID (cfg s) = leader s then Propose E s
     else if GetID (cfg s) mod 2 \<noteq> 0 then Maliciousproposalpropose E s else Inr s)"

definition round_WithMaliciousVote :: "env \<Rightarrow> SyncHS \<Rightarrow> SyncHS result" where
  "round_WithMaliciousVote E s =
    (if GetID (cfg s) = leader s then Propose E s
     else if GetID (cfg s) mod 2 \<noteq> 0 then Inr (s\<lparr>maliciousVoteInject := True\<rparr>) else Inr s)"

definition round_body :: "env \<Rightarrow> u64 order \<Rightarrow> attack \<Rightarrow> SyncHS \<Rightarrow> SyncHS result" where
  "round_body E r a s = (case a of
       BestCase \<Rightarrow> round_BestCase E s
     | WithWithhold \<Rightarrow> round_WithWithhold E s
     | WithEquivocation \<Rightarrow> round_WithEquivocation E r s
     | WithMaliciousPropsoal \<Rightarrow> round_WithMaliciousPropsoal E s
     | WithMaliciousVote \<Rightarrow> round_WithMaliciousVote E s)"

text \<open>The five start functions have the same shape.\<close>

definition startRound :: "attack \<Rightarrow> SyncHS \<Rightarrow> SyncHS" where
  "startRound a s = spawn [Act_timerBody a] (s\<lparr>timer := Timer_Start (timer s)\<rparr>)"

definition startConsensusTimer :: "SyncHS \<Rightarrow> SyncHS" where
  "startConsensusTimer = startRound BestCase"

definition startConsensusTimerWithWithhold :: "SyncHS \<Rightarrow> SyncHS" where
  "startConsensusTimerWithWithhold = startRound WithWithhold"

definition startConsensusTimerWithEquivocation :: "SyncHS \<Rightarrow> SyncHS" where
  "startConsensusTimerWithEquivocation = startRound WithEquivocation"

definition startConsensusTimerWithMaliciousPropsoal :: "SyncHS \<Rightarrow> SyncHS" where
  "startConsensusTimerWithMaliciousPropsoal = startRound WithMaliciousPropsoal"

definition startConsensusTimerWithMaliciousVote :: "SyncHS \<Rightarrow> SyncHS" where
  "startConsensusTimerWithMaliciousVote = startRound WithMaliciousVote"

end
