(* ===== verification/Client_Service.thy ===== *)
theory Client_Service
  imports Attack_Injection
begin

text \<open>
  The side of the replica that faces the clients (\<^verbatim>\<open>consensus/client.go\<close>,
  \<^verbatim>\<open>consensus/command.go\<close>): client connections, the command pool that starts rounds, and the
  timer callback that ends a round.
\<close>

section \<open>Clients\<close>

text \<open>A connection is named by a number, the identity of its reader/writer.\<close>

definition addClient :: "nat \<Rightarrow> SyncHS \<Rightarrow> SyncHS" where
  "addClient rw s = s\<lparr>cliMap := mput rw True (cliMap s)\<rparr>"

definition removeClient :: "nat \<Rightarrow> SyncHS \<Rightarrow> SyncHS" where
  "removeClient rw s = s\<lparr>cliMap := mdelete rw (cliMap s)\<rparr>"

text \<open>The constant \<open>Delta\<close>, 4.5 seconds in nanoseconds.\<close>

definition Delta :: u64 where
  "Delta = 4 * 1000000000 + 500 * 1000000"

definition setConsensusTimer :: "SyncHS \<Rightarrow> SyncHS" where
  "setConsensusTimer s = s\<lparr>timer := Timer_SetTime Delta (Timer_SetCallAndCancel Call_callback (timer s))\<rparr>"

text \<open>\<open>ClientMsgHandler\<close>: the preamble for a new connection, and the loop body for what \<open>Read\<close>
  returned (\<open>None\<close> is a read error, which ends the loop).\<close>

definition client_connect :: "nat \<Rightarrow> SyncHS \<Rightarrow> SyncHS" where
  "client_connect rw s = setConsensusTimer (initialReputationMap (addClient rw s))"

definition client_read :: "env \<Rightarrow> nat \<Rightarrow> bytes option \<Rightarrow> SyncHS \<Rightarrow> SyncHS" where
  "client_read E rw inp s = (case inp of
       None \<Rightarrow> removeClient rw s
     | Some buf \<Rightarrow>
         let (inMsg, err) = UnmarshalMsg E buf in
         if err then s
         else case SyncHSMsg_GetTx inMsg of
             None \<Rightarrow> s
           | Some cmd \<Rightarrow> spawn [Act_addCmds cmd] s)"

definition ClientBroadcast :: "env \<Rightarrow> nat order \<Rightarrow> SyncHSMsg \<Rightarrow> SyncHS \<Rightarrow> SyncHS result" where
  "ClientBroadcast E r m s = (let (data, err) = MarshalMsg E m in
     if err then Inl ExplicitPanic
     else Inr (s\<lparr>cliOut := cliOut s @ map (\<lambda>c. (c, data)) (r (mkeys (cliMap s)))\<rparr>))"

section \<open>Starting a round\<close>

definition addCmdsAndStartTimerIfSufficientCommands :: "bytes \<Rightarrow> SyncHS \<Rightarrow> SyncHS" where
  "addCmdsAndStartTimerIfSufficientCommands cmd s =
    (let s1 = s\<lparr>pendingCommands := pendingCommands s @ [cmd]\<rparr> in
     if word_of_nat (length (pendingCommands s1)) \<ge> GetBlockSize (cfg s1)
     then let s2 = (if gcallFuncFinish s1 then (startConsensusTimer s1)\<lparr>gcallFuncFinish := False\<rparr> else s1) in
       if length (SyncChannel s2) = 1
       then startConsensusTimer (s2\<lparr>SyncChannel := tl (SyncChannel s2)\<rparr>)
       else s2
     else s1)"

section \<open>Ending a round\<close>

text \<open>
  The part of \<open>callback\<close> that commits: acknowledge the block at the head to all clients, go to the
  next view, rotate the leader, and signal. The send on \<open>SyncChannel\<close> may block, so it is left to
  a goroutine; nothing follows it. A block without an entry is a nil receiver of \<open>ToProto\<close>.
\<close>

definition commit_round :: "env \<Rightarrow> nat order \<Rightarrow> SyncHS \<Rightarrow> SyncHS result" where
  "commit_round E r s =
     bind_r (ExtBlock_ToProto E (mget (BlocksByHeight (bc s)) (Head (bc s)))) (\<lambda>(d, _).
     bind_r (ClientBroadcast E r (Msg_Ack \<lparr>ack_Block = Some d\<rparr>) s) (\<lambda>s1.
     bind_r (changeLeader (s1\<lparr>view := view s1 + 1\<rparr>)) (\<lambda>s2.
       Inr (spawn [Act_sendSync] s2))))"

definition callback :: "env \<Rightarrow> (u64 \<Rightarrow> nat \<Rightarrow> u64 order) \<Rightarrow> nat order \<Rightarrow> SyncHS \<Rightarrow> SyncHS result" where
  "callback E rss r s =
    (if withholdingProposalInject s then commit_round E r (addNewViewReputaiontoMap E rss s)
     else if equivocatingProposalInject s
     then commit_round E r (addNewViewReputaiontoMap E rss (s\<lparr>equivocatingProposalInject := False\<rparr>))
     else let s1 = addNewViewReputaiontoMap E rss s in
       case getCertForBlockIndex (view s1) s1 of
         None \<Rightarrow> Inr (spawn [Act_sendSync] s1)
       | Some _ \<Rightarrow> commit_round E r s1)"

lemma commit_round_ok:
  assumes "mget (BlocksByHeight (bc s)) (Head (bc s)) = Some (ext_of E d)" and "GetNumNodes (cfg s) \<noteq> 0"
    and "MarshalMsg E (Msg_Ack \<lparr>ack_Block = Some d\<rparr>) = (out, False)"
  shows "commit_round E r s = Inr (spawn [Act_sendSync] (s\<lparr>cliOut := cliOut s @ map (\<lambda>c. (c, out)) (r (mkeys (cliMap s))),
    view := view s + 1, leader := (leader s + 1) mod GetNumNodes (cfg s)\<rparr>))"
  using assms by (simp add: commit_round_def ClientBroadcast_def changeLeader_def)

end
