(* ===== verification/Node_Protocol.thy ===== *)
theory Node_Protocol
  imports Client_Service
begin

text \<open>
  The replica as a whole: receiving messages (\<^verbatim>\<open>consensus/reactor.go\<close>, \<open>ProtoMsgHandler\<close> and
  \<open>Start\<close> of \<^verbatim>\<open>consensus/protocol.go\<close>) and the interleaving of its goroutines as a step relation.
\<close>

section \<open>Receiving messages\<close>

text \<open>\<open>react\<close> and the dispatch loop \<open>protocol\<close>, for one message each.\<close>

definition react :: "env \<Rightarrow> bytes \<Rightarrow> SyncHS \<Rightarrow> SyncHS" where
  "react E m s = (let (inMessage, err) = UnmarshalMsg E m in
     if err then s else s\<lparr>msgChannel := msgChannel s @ [inMessage]\<rparr>)"

definition protocol :: "SyncHSMsg \<Rightarrow> SyncHS \<Rightarrow> SyncHS" where
  "protocol msgIn s = (case msgIn of
       Msg_Prop prop \<Rightarrow>
         if pr_ForwardSender prop = leader s
         then if pr_Miner prop = leader s then spawn [Act_forward prop] s else spawn [Act_sendMaliPropose prop] s
         else s\<lparr>proposeChannel := proposeChannel s @ [prop]\<rparr>
     | Msg_Vote pvote \<Rightarrow> spawn [Act_sendVote (Vote_FromProto pvote)] s
     | _ \<Rightarrow> s)"

text \<open>One \<open>Read\<close> of \<open>ProtoMsgHandler\<close>: a read error panics.\<close>

definition ProtoMsgHandler :: "bytes option \<Rightarrow> SyncHS \<Rightarrow> SyncHS result" where
  "ProtoMsgHandler inp s = (case inp of
       None \<Rightarrow> Inl ExplicitPanic
     | Some msgBuf \<Rightarrow> Inr (spawn [Act_react msgBuf] s))"

section \<open>Goroutines\<close>

text \<open>The loop orders that one step may need.\<close>

record orders =
  o_maps :: "nat \<Rightarrow> u64 order"
  o_reps :: "u64 \<Rightarrow> nat \<Rightarrow> u64 order"
  o_clients :: "nat order"

definition orders_ok :: "orders \<Rightarrow> bool" where
  "orders_ok ord \<longleftrightarrow> (\<forall>k. is_order (o_maps ord k)) \<and> (\<forall>i k. is_order (o_reps ord i k)) \<and> is_order (o_clients ord)"

text \<open>A send on a buffered channel blocks (\<open>None\<close>) while the buffer is full.\<close>

definition chan_send :: "nat \<Rightarrow> 'a \<Rightarrow> 'a list \<Rightarrow> 'a list option" where
  "chan_send cap x ch = (if length ch < cap then Some (ch @ [x]) else None)"

definition do_action :: "env \<Rightarrow> orders \<Rightarrow> action \<Rightarrow> SyncHS \<Rightarrow> SyncHS result option" where
  "do_action E ord a s = (case a of
       Act_Broadcast m \<Rightarrow> Some (Inr (Broadcast E (o_maps ord 0) m s))
     | Act_sendVote v \<Rightarrow> map_option (\<lambda>c. Inr (s\<lparr>voteChannel := c\<rparr>)) (chan_send ProtocolMsgBuffer v (voteChannel s))
     | Act_sendPropose p \<Rightarrow> map_option (\<lambda>c. Inr (s\<lparr>proposeChannel := c\<rparr>)) (chan_send ProtocolMsgBuffer p (proposeChannel s))
     | Act_sendMaliPropose p \<Rightarrow> map_option (\<lambda>c. Inr (s\<lparr>maliPropseChannel := c\<rparr>)) (chan_send ProtocolMsgBuffer p (maliPropseChannel s))
     | Act_sendEqEvidence e \<Rightarrow> map_option (\<lambda>c. Inr (s\<lparr>eqEvidenceChannel := c\<rparr>)) (chan_send ProtocolMsgBuffer e (eqEvidenceChannel s))
     | Act_sendMaliProEvidence e \<Rightarrow> map_option (\<lambda>c. Inr (s\<lparr>maliProEvidenceChannel := c\<rparr>)) (chan_send ProtocolMsgBuffer e (maliProEvidenceChannel s))
     | Act_sendMaliVoteEvidence e \<Rightarrow> map_option (\<lambda>c. Inr (s\<lparr>maliVoteEvidenceChannel := c\<rparr>)) (chan_send ProtocolMsgBuffer e (maliVoteEvidenceChannel s))
     | Act_sendSync \<Rightarrow> map_option (\<lambda>c. Inr (s\<lparr>SyncChannel := c\<rparr>)) (chan_send 1 True (SyncChannel s))
     | Act_addCert c n \<Rightarrow> Some (Inr (addCert c n s))
     | Act_addProposaltoMap \<Rightarrow> Some (Inr (addProposaltoMap s))
     | Act_forward p \<Rightarrow> Some (forward E (o_maps ord 0) p s)
     | Act_sendMalivoteEvidenceCall v \<Rightarrow> Some (Inr (sendMalivoteEvidence E v s))
     | Act_sendEqProEvidenceCall p q \<Rightarrow> Some (Inr (sendEqProEvidence E p q s))
     | Act_voteOrInject ep \<Rightarrow> Some (voteOrInject E ep s)
     | Act_timerBody att \<Rightarrow> Some (round_body E (o_maps ord 0) att s)
     | Act_react m \<Rightarrow> if length (msgChannel s) < ProtocolMsgBuffer then Some (Inr (react E m s)) else None
     | Act_addCmds cmd \<Rightarrow> Some (Inr (addCmdsAndStartTimerIfSufficientCommands cmd s)))"

section \<open>Steps\<close>

text \<open>
  The handlers that \<open>Start\<close> can run. As shipped it starts the first two; the lines that start the
  others are commented out.
\<close>

datatype handler = H_forward | H_vote | H_maliProposal | H_eqEvidence | H_maliVoteEvidence | H_maliProEvidence

definition Start_handlers :: "handler set" where
  "Start_handlers = {H_forward, H_vote}"

text \<open>
  A step is the next action of some goroutine, one iteration of a handler, the expiry of the timer,
  or an event of the environment (data or an error on the stream of a node or a client, a new
  client). Its outcome is the next state or a panic, which ends the process.
\<close>

inductive node_step :: "handler set \<Rightarrow> env \<Rightarrow> SyncHS \<Rightarrow> SyncHS result \<Rightarrow> bool" for H E where
  goroutine: "orders_ok ord \<Longrightarrow> i < length (goroutines s) \<Longrightarrow> goroutines s ! i = a # as \<Longrightarrow>
     do_action E ord a (s\<lparr>goroutines := (goroutines s)[i := as]\<rparr>) = Some r \<Longrightarrow> node_step H E s r"
| vote: "H_vote \<in> H \<Longrightarrow> orders_ok ord \<Longrightarrow> voteChannel s = v # vs \<Longrightarrow>
     node_step H E s (voteHandler E (o_maps ord) v (s\<lparr>voteChannel := vs\<rparr>))"
| forwarded: "H_forward \<in> H \<Longrightarrow> orders_ok ord \<Longrightarrow> fh_ready s \<Longrightarrow> proposeChannel s = p # ps \<Longrightarrow>
     node_step H E s (forwardProposalHandler E (o_maps ord 0) p (s\<lparr>proposeChannel := ps\<rparr>))"
| mali_proposal: "H_maliProposal \<in> H \<Longrightarrow> maliPropseChannel s = p # ps \<Longrightarrow>
     node_step H E s (MaliciousPropsoalHandler E p (s\<lparr>maliPropseChannel := ps\<rparr>))"
| eq_evidence: "H_eqEvidence \<in> H \<Longrightarrow> eqEvidenceChannel s = e # es \<Longrightarrow>
     node_step H E s (EquivocationEvidenceHandler E e (s\<lparr>eqEvidenceChannel := es\<rparr>))"
| mali_vote_evidence: "H_maliVoteEvidence \<in> H \<Longrightarrow> maliVoteEvidenceChannel s = e' # es' \<Longrightarrow>
     node_step H E s (MaliciousVoteEvidenceHandler E e' (s\<lparr>maliVoteEvidenceChannel := es'\<rparr>))"
| mali_proposal_evidence: "H_maliProEvidence \<in> H \<Longrightarrow> maliProEvidenceChannel s = e'' # es'' \<Longrightarrow>
     node_step H E s (MaliciousProposalEvidenceHandler E e'' (s\<lparr>maliProEvidenceChannel := es''\<rparr>))"
| dispatch: "msgChannel s = m # ms \<Longrightarrow> length (proposeChannel s) < ProtocolMsgBuffer \<Longrightarrow>
     node_step H E s (Inr (protocol m (s\<lparr>msgChannel := ms\<rparr>)))"
| timeout: "orders_ok ord \<Longrightarrow> Timer_expire (timer s) = Some res \<Longrightarrow>
     node_step H E s (bind_r res (\<lambda>(_, t). callback E (o_reps ord) (o_clients ord) (s\<lparr>timer := t\<rparr>)))"
| receive: "node_step H E s (ProtoMsgHandler inp s)"
| connect: "mget (cliMap s) rw = None \<Longrightarrow> node_step H E s (Inr (client_connect rw s))"
| client: "mget (cliMap s) rw = Some True \<Longrightarrow> node_step H E s (Inr (client_read E rw cinp s))"

inductive_simps node_step_panic: "node_step H E s (Inl p)"

text \<open>The states a replica reaches after \<open>Init\<close> and \<open>Setup\<close>, with any peers and any outcome of dialling them.\<close>

inductive reachable :: "handler set \<Rightarrow> env \<Rightarrow> NodeConfig \<Rightarrow> (u64, string) gomap \<Rightarrow> SyncHS \<Rightarrow> bool"
  for H E c peers where
  boot: "reachable H E c peers (Setup dial peers (Init E c SyncHS_zero))"
| step: "reachable H E c peers s \<Longrightarrow> node_step H E s (Inr s') \<Longrightarrow> reachable H E c peers s'"

end
