(* ===== verification/Node_Invariants.thy ===== *)
theory Node_Invariants
  imports Node_Protocol
begin

text \<open>
  What every step of a replica keeps. The walk through the handlers is done once, in three locales that
  extend each other. A predicate that is kept by the few elementary updates the handlers are made of is
  kept by every step but the handling of a vote and the change of the leader (\<open>node_frame\<close>), by every step
  but the change of the leader (\<open>vote_frame\<close>), or by every step (\<open>node_invariant\<close>); in the last case it
  holds in every reachable state if it holds after \<open>Init\<close> and \<open>Setup\<close>.
\<close>

section \<open>Neutral fields\<close>

text \<open>The fields that no invariant below looks at, blanked out.\<close>

definition core :: "SyncHS \<Rightarrow> SyncHS" where
  "core s = s\<lparr>cliMap := [], streamMap := [], pendingCommands := [], proposalByviewMap := [],
     msgChannel := [], voteChannel := [], SyncChannel := [], proposeChannel := [], eqEvidenceChannel := [],
     maliProEvidenceChannel := [], maliVoteEvidenceChannel := [], maliPropseChannel := [],
     equivocatingProposalInject := False, withholdingProposalInject := False,
     maliciousProposalInject := False, maliciousVoteInject := False, maliProspoalExists := False,
     maliVoteExists := False, callFuncNotFinish := False, gcallFuncFinish := False,
     timer := Timer_zero, fh_fpropMap := [], netOut := [], cliOut := []\<rparr>"

lemma core_sel [simp]:
  "cfg (core s) = cfg s" "pMap (core s) = pMap s" "certMap (core s) = certMap s"
  "voteMap (core s) = voteMap s" "voteMaliMap (core s) = voteMaliMap s" "proposalMap (core s) = proposalMap s"
  "equiproposalMap (core s) = equiproposalMap s" "withproposalMap (core s) = withproposalMap s"
  "maliproposalMap (core s) = maliproposalMap s" "reputationMap (core s) = reputationMap s"
  "bc (core s) = bc s" "leader (core s) = leader s" "view (core s) = view s"
  "initialReplicaSore (core s) = initialReplicaSore s" "vh_voteMap (core s) = vh_voteMap s"
  "vh_isCertified (core s) = vh_isCertified s" "goroutines (core s) = goroutines s"
  by (simp_all add: core_def)

lemma coreD:
  assumes "core s' = core s"
  shows "cfg s' = cfg s" "pMap s' = pMap s" "certMap s' = certMap s"
    "voteMap s' = voteMap s" "voteMaliMap s' = voteMaliMap s" "proposalMap s' = proposalMap s"
    "equiproposalMap s' = equiproposalMap s" "withproposalMap s' = withproposalMap s"
    "maliproposalMap s' = maliproposalMap s" "reputationMap s' = reputationMap s"
    "bc s' = bc s" "leader s' = leader s" "view s' = view s"
    "initialReplicaSore s' = initialReplicaSore s" "vh_voteMap s' = vh_voteMap s"
    "vh_isCertified s' = vh_isCertified s" "goroutines s' = goroutines s"
  using arg_cong [OF assms, of cfg] arg_cong [OF assms, of pMap] arg_cong [OF assms, of certMap]
    arg_cong [OF assms, of voteMap] arg_cong [OF assms, of voteMaliMap] arg_cong [OF assms, of proposalMap]
    arg_cong [OF assms, of equiproposalMap] arg_cong [OF assms, of withproposalMap]
    arg_cong [OF assms, of maliproposalMap] arg_cong [OF assms, of reputationMap]
    arg_cong [OF assms, of bc] arg_cong [OF assms, of leader] arg_cong [OF assms, of view]
    arg_cong [OF assms, of initialReplicaSore] arg_cong [OF assms, of vh_voteMap]
    arg_cong [OF assms, of vh_isCertified] arg_cong [OF assms, of goroutines]
  by simp_all

text \<open>No channel outgrows its buffer.\<close>

definition chan_le :: "SyncHS \<Rightarrow> SyncHS \<Rightarrow> bool" where
  "chan_le s' s \<longleftrightarrow> length (msgChannel s') \<le> max ProtocolMsgBuffer (length (msgChannel s))
     \<and> length (voteChannel s') \<le> max ProtocolMsgBuffer (length (voteChannel s))
     \<and> length (proposeChannel s') \<le> max ProtocolMsgBuffer (length (proposeChannel s))
     \<and> length (eqEvidenceChannel s') \<le> max ProtocolMsgBuffer (length (eqEvidenceChannel s))
     \<and> length (maliProEvidenceChannel s') \<le> max ProtocolMsgBuffer (length (maliProEvidenceChannel s))
     \<and> length (maliVoteEvidenceChannel s') \<le> max ProtocolMsgBuffer (length (maliVoteEvidenceChannel s))
     \<and> length (maliPropseChannel s') \<le> max ProtocolMsgBuffer (length (maliPropseChannel s))
     \<and> length (SyncChannel s') \<le> max 1 (length (SyncChannel s))"

text \<open>A vote the handler counts: the replica's own, or one whose signature verifies.\<close>

definition vote_accepted :: "env \<Rightarrow> NodeConfig \<Rightarrow> Vote \<Rightarrow> bool" where
  "vote_accepted E c v \<longleftrightarrow> Vote_GetVoter v = GetID c
     \<or> (\<exists>k. GetPubKeyFromID c (Vote_GetVoter v) = Some k
          \<and> Verify E k (fst (MarshalVoteData E (v_Data v))) (Vote_GetSignature v) = (True, False))"

lemma isVoteValid_accepted: "isVoteValid E s v = Inr True \<Longrightarrow> vote_accepted E (cfg s) v"
  by (auto simp: isVoteValid_def vote_accepted_def bind_r_eq_Inr case_prod_beta Let_def prod_eq_iff
      split: if_splits)

text \<open>A state right after the end of a round: a state with the property \<open>I\<close> went to the next view and leader.\<close>

definition rotated :: "(SyncHS \<Rightarrow> bool) \<Rightarrow> SyncHS \<Rightarrow> bool" where
  "rotated I s' \<longleftrightarrow> (\<exists>t s2. I t \<and> changeLeader (t\<lparr>view := view t + 1\<rparr>) = Inr s2 \<and> s' = spawn [Act_sendSync] s2)"

lemma vh_open_frame [simp]: "cfg (vh_open s) = cfg s" "view (vh_open s) = view s" "leader (vh_open s) = leader s"
  by (simp_all add: vh_open_def split: option.split)

section \<open>The laws of an invariant\<close>

locale node_frame =
  fixes E :: env and I :: "SyncHS \<Rightarrow> bool"
  assumes neutral: "I s \<Longrightarrow> core s' = core s \<Longrightarrow> chan_le s' s \<Longrightarrow> I s'"
    and taken: "I s \<Longrightarrow> i < length (goroutines s) \<Longrightarrow> goroutines s ! i = a # as \<Longrightarrow>
      I (s\<lparr>goroutines := (goroutines s)[i := as]\<rparr>)"
    and spawned: "I s \<Longrightarrow> (\<And>c n. Act_addCert c n \<in> set as \<Longrightarrow>
      n = view s \<and> (\<exists>r h v. is_order r \<and> NewCert E r (vh_votes s) h v = Inr c)) \<Longrightarrow> I (spawn as s)"
    and pending_cert: "I s \<Longrightarrow> i < length (goroutines s) \<Longrightarrow> goroutines s ! i = Act_addCert c n # as \<Longrightarrow>
      I (addCert c n (s\<lparr>goroutines := (goroutines s)[i := as]\<rparr>))"
    and cached_cert: "I s \<Longrightarrow> mget (certMap s) n = Some c \<Longrightarrow> I (addCert (snd (BC_ToProto E c)) n s)"
    and empty_cert: "I s \<Longrightarrow> I (addCert (BC_SetBlockInfo E h v BlockCertificate_zero) n s)"
    and rec_vote: "I s \<Longrightarrow> addVotetoMap pv s = Inr s' \<Longrightarrow> I s'"
    and rec_malivote: "I s \<Longrightarrow> addMaliVotetoMap pv s = Inr s' \<Longrightarrow> I s'"
    and rec_maliprop: "I s \<Longrightarrow> addMaliProposaltoMap p s = Inr s' \<Longrightarrow> I s'"
    and rec_equi: "I s \<Longrightarrow> I (addEquiProposaltoMap s)"
    and rec_with: "I s \<Longrightarrow> I (addWitholdProposaltoMap s)"
    and rec_prop: "I s \<Longrightarrow> I (addProposaltoMap s)"
    and head: "I s \<Longrightarrow> I (s\<lparr>bc := (bc s)\<lparr>Head := Head (bc s) + 1\<rparr>\<rparr>)"
    and block: "I s \<Longrightarrow> store_block E (ProtoHeader_GetHeight (pb_Header d)) (ext_of E d) s = Inr s' \<Longrightarrow> I s'"
    and new_view: "I s \<Longrightarrow> I (addNewViewReputaiontoMap E rss s)"
    and first_view: "I s \<Longrightarrow> I (initialReputationMap s)"
begin

lemma neutral_updates [intro]:
  assumes "I s"
  shows "I (s\<lparr>pendingCommands := x1\<rparr>)" "I (s\<lparr>cliMap := x2\<rparr>)" "I (s\<lparr>proposalByviewMap := x3\<rparr>)"
    "I (s\<lparr>equivocatingProposalInject := b1\<rparr>)" "I (s\<lparr>withholdingProposalInject := b2\<rparr>)"
    "I (s\<lparr>maliciousProposalInject := b3\<rparr>)" "I (s\<lparr>maliciousVoteInject := b4\<rparr>)"
    "I (s\<lparr>maliProspoalExists := b5\<rparr>)" "I (s\<lparr>maliVoteExists := b6\<rparr>)" "I (s\<lparr>gcallFuncFinish := b7\<rparr>)"
    "I (s\<lparr>timer := t\<rparr>)" "I (s\<lparr>fh_fpropMap := x4\<rparr>)" "I (s\<lparr>netOut := x5\<rparr>)" "I (s\<lparr>cliOut := x6\<rparr>)"
  by (rule neutral [OF assms]; simp add: core_def chan_le_def)+

lemma spawned_plain: "I s \<Longrightarrow> (\<And>c n. Act_addCert c n \<notin> set as) \<Longrightarrow> I (spawn as s)"
  by (rule spawned) auto

subsection \<open>Voting\<close>

lemma I_cast_vote: "I s \<Longrightarrow> cast_vote E pvd s = Inr s' \<Longrightarrow> I s'"
  by (auto simp: cast_vote_def Let_def case_prod_beta bind_r_eq_Inr intro!: spawned_plain elim: rec_vote
      split: if_splits)

lemma I_voteForBlock: "I s \<Longrightarrow> voteForBlock E ep s = Inr s' \<Longrightarrow> I s'"
  by (auto simp: voteForBlock_def bind_r_eq_Inr elim: I_cast_vote)

subsection \<open>Proposals\<close>

lemma I_getCmds: "I s \<Longrightarrow> getCmdsIfSufficient s = (r, s') \<Longrightarrow> I s'"
  by (auto simp: getCmdsIfSufficient_def Let_def split: if_splits)

lemma I_Propose:
  assumes "I s" and "Propose E s = Inr s'"
  shows "I s'"
proof (cases "getCertForBlockIndex (Head (bc s)) s")
  case None
  then show ?thesis
    using assms by (simp add: Propose_def)
next
  case (Some cert)
  obtain r s1 where g: "getCmdsIfSufficient s = (r, s1)"
    by (cases "getCmdsIfSufficient s")
  note I1 = I_getCmds [OF assms(1) g]
  let ?h = "Head (bc s)" and ?s2 = "s1\<lparr>bc := (bc s1)\<lparr>Head := Head (bc s1) + 1\<rparr>\<rparr>"
  have I2: "I (addCert (snd (BC_ToProto E cert)) ?h ?s2)"
    using Some head [OF I1] by (intro cached_cert) (auto simp: getCertForBlockIndex_def getCmds_sel [OF g])
  have "I s'" if "NewCandidateProposal E cmds cert (Head (bc s1) + 1) [] ?s2 = Inr (pr, cert')"
    "ExtBlock_FromProto E (pr_Block pr) ExtBlock_zero = Inr blk"
    "store_block E (Head (bc s1) + 1) blk (addCert cert' ?h ?s2) = Inr s3"
    "s' = spawn [Act_addProposaltoMap, Act_Broadcast (Msg_Prop pr)]
      (s3\<lparr>proposalByviewMap := mput (view s3) pr (proposalByviewMap s3)\<rparr>)" for cmds pr cert' blk s3
  proof -
    note N = NewCandidateProposal_Inr [OF that(1)]
    have "blk = ext_of E (the (pr_Block pr))"
      using that(2) N(2) by simp
    then have "I s3"
      using that(3) N(1,2) I2 block [of _ "the (pr_Block pr)"] by fastforce
    then show ?thesis
      unfolding that(4) by (intro spawned_plain neutral_updates) auto
  qed
  then show ?thesis
    using assms(2) Some g I1
    by (cases r) (fastforce simp: Propose_def Let_def bind_r_eq_Inr case_prod_beta)+
qed

lemma I_Equivocationpropose:
  assumes "I s" and "Equivocationpropose E r s = Inr s'"
  shows "I s'"
proof (cases "getCertForBlockIndex (Head (bc s)) s")
  case None
  then show ?thesis
    using assms by (simp add: Equivocationpropose_def)
next
  case (Some cert)
  obtain q s1 where g: "getCmdsIfSufficient s = (q, s1)"
    by (cases "getCmdsIfSufficient s")
  note I1 = I_getCmds [OF assms(1) g]
  let ?h = "Head (bc s)" and ?c1 = "snd (BC_ToProto E cert)"
  have "I (addCert ?c1 ?h s1)"
    using Some I1 by (intro cached_cert) (auto simp: getCertForBlockIndex_def getCmds_sel [OF g])
  then have "I (addCert (snd (BC_ToProto E ?c1)) ?h (addCert ?c1 ?h s1))"
    by (rule cached_cert) (simp add: addCert_def)
  then have "I (addCert (snd (BC_ToProto E ?c1)) ?h s1)"
    by (simp add: addCert_def)
  then have "I (EquivocatingBroadcast E r m1 m2 (addCert (snd (BC_ToProto E ?c1)) ?h s1))" for m1 m2
    by (auto simp: EquivocatingBroadcast_def Let_def case_prod_beta)
  then show ?thesis
    using assms(2) Some g I1
    by (cases q) (auto simp: Equivocationpropose_def Let_def bind_r_eq_Inr case_prod_beta
        dest!: NewCandidateProposal_Inr(1) simp: prod_eq_iff)
qed

lemma I_Maliciousproposalpropose:
  assumes "I s" and "Maliciousproposalpropose E s = Inr s'"
  shows "I s'"
proof (cases "getCertForBlockIndex (Head (bc s)) s")
  case None
  then show ?thesis
    using assms by (simp add: Maliciousproposalpropose_def)
next
  case (Some cert)
  obtain q s1 where g: "getCmdsIfSufficient s = (q, s1)"
    by (cases "getCmdsIfSufficient s")
  note I1 = I_getCmds [OF assms(1) g]
  have "I (addCert (snd (BC_ToProto E cert)) (Head (bc s)) s1)"
    using Some I1 by (intro cached_cert) (auto simp: getCertForBlockIndex_def getCmds_sel [OF g])
  then have "I (spawn [Act_Broadcast m, Act_sendMaliPropose pr] (addCert (snd (BC_ToProto E cert)) (Head (bc s)) s1))" for m pr
    by (intro spawned_plain) auto
  then show ?thesis
    using assms(2) Some g I1
    by (cases q) (auto simp: Maliciousproposalpropose_def Let_def bind_r_eq_Inr case_prod_beta
        dest!: NewCandidateProposal_Inr(1) simp: prod_eq_iff)
qed

lemma I_forward: "I s \<Longrightarrow> forward E r p s = Inr s' \<Longrightarrow> I s'"
  by (auto simp: forward_def bind_r_eq_Inr Let_def case_prod_beta intro!: spawned_plain split: if_splits)

lemma I_fh_accept:
  assumes "I s" and "ep_ExtBlock ep = ext_of E d" and "fh_accept E p ep s = Inr s'"
  shows "I s'"
proof (cases "GetID (cfg s) = leader s")
  case True
  then show ?thesis
    using assms I_voteForBlock by (simp add: fh_accept_def)
next
  case False
  let ?s1 = "addProposaltoMap (s\<lparr>bc := (bc s)\<lparr>Head := Head (bc s) + 1\<rparr>\<rparr>)"
  have "I ?s1"
    using assms(1) by (intro rec_prop head)
  then have "I s2" if "addNewBlock E (ext_of E d) ?s1 = Inr s2" for s2
    using that block unfolding addNewBlock_store_block by blast
  then show ?thesis
    using assms(2,3) False
    by (auto simp: fh_accept_def Let_def bind_r_eq_Inr addProposaltoViewMap_def intro!: spawned_plain neutral_updates)
qed

lemma I_forwardProposalHandler:
  assumes "I s" and "forwardProposalHandler E r p s = Inr s'"
  shows "I s'"
proof -
  have coll: "I s'" if "I t" "ep_ExtBlock ep = ext_of E d" "fh_collect E p ep t = Inr s'" for t ep d
    using that(1,3) I_fh_accept [OF neutral_updates(12) [OF that(1)] that(2)]
    by (auto simp: fh_collect_def Let_def split: if_splits)
  have "I s'" if "ep_ExtBlock ep = ext_of E d" "fh_compare E p ep s = Inr s'" for ep d
    using that assms(1) coll
    by (auto simp: fh_compare_def Let_def bind_r_eq_Inr intro!: spawned_plain neutral_updates split: if_splits)
       (blast intro: neutral_updates)+
  then show ?thesis
    using assms by (auto simp: forwardProposalHandler_def bind_r_eq_Inr Let_def
        elim!: ExtProposal_FromProto_block split: if_splits)
qed

subsection \<open>Evidence\<close>

lemma I_senders:
  assumes "I s"
  shows "I (sendEqProEvidence E p q s)" "I (sendMaliProEvidence E p s)" "I (sendMalivoteEvidence E v s)"
  using assms by (auto simp: sendEqProEvidence_def sendMaliProEvidence_def sendMalivoteEvidence_def Let_def
      intro!: spawned_plain split: option.split)

lemma I_commit_empty:
  assumes "I s" and "commit_empty E s = Inr (Some s')"
  shows "I s'"
proof -
  obtain cert s2 where
    st: "store_block E (Head (bc s) + 1) (ext_of E (child_block E [] cert (Head (bc s) + 1) [69] EmptyHash))
      (s\<lparr>bc := (bc s)\<lparr>Head := Head (bc s) + 1\<rparr>\<rparr>) = Inr s2"
    and s': "\<exists>bh. s' = addCert (BC_SetBlockInfo E bh (view s2) BlockCertificate_zero) (view s2) s2"
    using assms(2) by (auto simp: commit_empty_def createAnEmptyBlock_eq Let_def bind_r_eq_Inr split: option.splits)
  have "I s2"
    using st block [OF head [OF assms(1)], of "child_block E [] cert (Head (bc s) + 1) [69] EmptyHash"] by simp
  then show ?thesis
    using s' empty_cert by auto
qed

lemma I_evidence_handlers:
  assumes "I s"
  shows "EquivocationEvidenceHandler E e s = Inr s' \<Longrightarrow> I s'"
    and "handleWithholdingProposal E s = Inr s' \<Longrightarrow> I s'"
    and "MaliciousProposalEvidenceHandler E e' s = Inr s' \<Longrightarrow> I s'"
    and "MaliciousVoteEvidenceHandler E e'' s = Inr s' \<Longrightarrow> I s'"
    and "MaliciousPropsoalHandler E p s = Inr s' \<Longrightarrow> I s'"
  subgoal
    using assms by (auto simp: EquivocationEvidenceHandler_def bind_r_eq_Inr split: if_splits option.splits
        intro: rec_equi I_commit_empty)
  subgoal
    using assms by (auto simp: handleWithholdingProposal_def bind_r_eq_Inr split: option.splits
        intro: rec_with I_commit_empty)
  subgoal
    using assms by (auto simp: MaliciousProposalEvidenceHandler_def bind_r_eq_Inr split: if_splits option.splits
        intro: rec_maliprop)
  subgoal
    using assms by (auto simp: MaliciousVoteEvidenceHandler_def bind_r_eq_Inr split: if_splits option.splits
        intro: rec_malivote)
  subgoal
    using assms by (auto simp: MaliciousPropsoalHandler_def bind_r_eq_Inr Let_def split: if_splits
        intro!: I_senders neutral_updates)
  done

subsection \<open>Rounds and clients\<close>

lemma I_round_body: "I s \<Longrightarrow> round_body E r a s = Inr s' \<Longrightarrow> I s'"
  by (cases a)
     (auto simp: round_body_def round_BestCase_def round_WithWithhold_def round_WithEquivocation_def
       round_WithMaliciousPropsoal_def round_WithMaliciousVote_def Withholdingpropose_def
       split: if_splits intro: I_Propose I_Equivocationpropose I_Maliciousproposalpropose
       elim!: I_evidence_handlers(2) [rotated])

lemma I_startRound: "I s \<Longrightarrow> I (startRound a s)"
  by (auto simp: startRound_def intro!: spawned_plain)

lemma I_addCmds:
  assumes "I s"
  shows "I (addCmdsAndStartTimerIfSufficientCommands cmd s)"
proof -
  define s1 where "s1 = s\<lparr>pendingCommands := pendingCommands s @ [cmd]\<rparr>"
  define s2 where "s2 = (if gcallFuncFinish s1 then (startConsensusTimer s1)\<lparr>gcallFuncFinish := False\<rparr> else s1)"
  have eq: "addCmdsAndStartTimerIfSufficientCommands cmd s =
      (if word_of_nat (length (pendingCommands s1)) \<ge> GetBlockSize (cfg s1)
       then if length (SyncChannel s2) = 1 then startConsensusTimer (s2\<lparr>SyncChannel := tl (SyncChannel s2)\<rparr>) else s2
       else s1)"
    unfolding addCmdsAndStartTimerIfSufficientCommands_def Let_def s1_def s2_def ..
  have 1: "I s1"
    unfolding s1_def using assms by blast
  then have 2: "I s2"
    by (auto simp: s2_def startConsensusTimer_def intro!: I_startRound neutral_updates)
  then have "I (s2\<lparr>SyncChannel := tl (SyncChannel s2)\<rparr>)"
    by (rule neutral) (auto simp: core_def chan_le_def le_max_iff_disj)
  then show ?thesis
    unfolding eq startConsensusTimer_def using 1 2 by (auto intro: I_startRound)
qed

lemma I_commit_round:
  assumes "I s" and "commit_round E r s = Inr s'"
  shows "rotated I s'"
proof -
  have "I s1" if "ClientBroadcast E r m s = Inr s1" for m s1
    using that assms(1) by (auto simp: ClientBroadcast_def Let_def case_prod_beta split: if_splits)
  then show ?thesis
    using assms(2) unfolding commit_round_def rotated_def by (auto simp: bind_r_eq_Inr case_prod_beta)
qed

lemma I_callback:
  assumes "I s" and "callback E rss r s = Inr s'"
  shows "I s' \<or> rotated I s'"
  using assms(2) new_view [OF assms(1), of rss] new_view [OF neutral_updates(4) [OF assms(1), of False], of rss]
  by (auto simp: callback_def Let_def intro!: spawned_plain dest: I_commit_round split: if_splits option.splits)

lemma I_clients: "I s \<Longrightarrow> I (client_connect rw s)" "I s \<Longrightarrow> I (client_read E rw inp s)"
  by (auto simp: client_connect_def setConsensusTimer_def addClient_def client_read_def removeClient_def Let_def
      case_prod_beta intro!: first_view neutral_updates spawned_plain split: option.split)

subsection \<open>Steps\<close>

lemma I_channels:
  assumes "I s"
  shows "length x1 \<le> max ProtocolMsgBuffer (length (msgChannel s)) \<Longrightarrow> I (s\<lparr>msgChannel := x1\<rparr>)"
    and "length x2 \<le> max ProtocolMsgBuffer (length (voteChannel s)) \<Longrightarrow> I (s\<lparr>voteChannel := x2\<rparr>)"
    and "length x3 \<le> max ProtocolMsgBuffer (length (proposeChannel s)) \<Longrightarrow> I (s\<lparr>proposeChannel := x3\<rparr>)"
    and "length x4 \<le> max ProtocolMsgBuffer (length (eqEvidenceChannel s)) \<Longrightarrow> I (s\<lparr>eqEvidenceChannel := x4\<rparr>)"
    and "length x5 \<le> max ProtocolMsgBuffer (length (maliProEvidenceChannel s)) \<Longrightarrow> I (s\<lparr>maliProEvidenceChannel := x5\<rparr>)"
    and "length x6 \<le> max ProtocolMsgBuffer (length (maliVoteEvidenceChannel s)) \<Longrightarrow> I (s\<lparr>maliVoteEvidenceChannel := x6\<rparr>)"
    and "length x7 \<le> max ProtocolMsgBuffer (length (maliPropseChannel s)) \<Longrightarrow> I (s\<lparr>maliPropseChannel := x7\<rparr>)"
    and "length x8 \<le> max 1 (length (SyncChannel s)) \<Longrightarrow> I (s\<lparr>SyncChannel := x8\<rparr>)"
  by (rule neutral [OF assms]; simp add: core_def chan_le_def)+

lemma I_do_action:
  assumes "I s" and "orders_ok ord" and "do_action E ord a s = Some (Inr s')" and "\<And>c n. a \<noteq> Act_addCert c n"
  shows "I s'"
  using assms
  by (cases a)
     (auto simp: do_action_def chan_send_def react_def Broadcast_def voteOrInject_def Let_def case_prod_beta bind_r_eq_Inr
       le_max_iff_disj voteForNonLeaderBlk_def
       split: if_splits intro!: I_channels neutral_updates I_senders rec_prop I_addCmds
       elim!: I_forward [rotated] I_round_body [rotated] I_voteForBlock [rotated] I_cast_vote [rotated])

lemma I_quiet_step:
  assumes "I s" and "node_step H E s (Inr s')" and "H_vote \<notin> H"
  shows "I s' \<or> rotated I s'"
  using assms(2,1)
proof (cases rule: node_step.cases)
  case (vote ord v vs)
  then show ?thesis
    using assms(3) by blast
next
  case (goroutine ord i a as)
  show ?thesis
  proof (cases "\<exists>c n. a = Act_addCert c n")
    case True
    then show ?thesis
      using goroutine pending_cert [OF assms(1) goroutine(2)] by (auto simp: do_action_def)
  next
    case False
    then show ?thesis
      using I_do_action [OF taken [OF assms(1) goroutine(2,3)] goroutine(1,4)] by blast
  qed
next
  case (forwarded ord p ps)
  then show ?thesis
    using I_forwardProposalHandler [OF I_channels(3) [OF assms(1)], of ps "o_maps ord 0" p s'] by auto
next
  case (mali_proposal p ps)
  then show ?thesis
    using I_evidence_handlers(5) [OF I_channels(7) [OF assms(1)], of ps p s'] by auto
next
  case (eq_evidence e es)
  then show ?thesis
    using I_evidence_handlers(1) [OF I_channels(4) [OF assms(1)], of es e s'] by auto
next
  case (mali_vote_evidence e es)
  then show ?thesis
    using I_evidence_handlers(4) [OF I_channels(6) [OF assms(1)], of es e s'] by auto
next
  case (mali_proposal_evidence e es)
  then show ?thesis
    using I_evidence_handlers(3) [OF I_channels(5) [OF assms(1)], of es e s'] by auto
next
  case (dispatch m ms)
  then have "I (s\<lparr>msgChannel := ms\<rparr>)"
    using I_channels(1) [OF assms(1)] by simp
  then show ?thesis
    using dispatch by (auto simp: protocol_def intro!: spawned_plain I_channels(3) split: SyncHSMsg.split)
next
  case (timeout ord res)
  then obtain t where "callback E (o_reps ord) (o_clients ord) (s\<lparr>timer := t\<rparr>) = Inr s'"
    by (cases res) (auto simp: case_prod_beta)
  then show ?thesis
    by (rule I_callback [OF neutral_updates(11) [OF assms(1)]])
next
  case (receive inp)
  then show ?thesis
    using assms(1) by (auto simp: ProtoMsgHandler_def intro!: spawned_plain split: option.splits)
next
  case (connect rw)
  then show ?thesis
    using assms(1) by (auto intro: I_clients)
next
  case (client rw cinp)
  then show ?thesis
    using assms(1) by (auto intro: I_clients)
qed

end

subsection \<open>Votes\<close>

locale vote_frame = node_frame E I for E I +
  assumes opened: "I s \<Longrightarrow> I (vh_open s)"
    and counted: "I s \<Longrightarrow> vote_accepted E (cfg s) vt \<Longrightarrow>
      I (s\<lparr>vh_voteMap := mput (view s) (mput (Vote_GetVoter vt) vt (vh_votes s)) (vh_voteMap s)\<rparr>)"
    and certified: "I s \<Longrightarrow> mget (vh_voteMap s) (view s) \<noteq> None \<Longrightarrow>
      I (s\<lparr>vh_isCertified := mput (view s) True (vh_isCertified s)\<rparr>)"
begin

lemma I_vh_certify:
  assumes "I s" and "\<And>k. is_order (rs k)" and "mget (vh_voteMap s) (view s) \<noteq> None"
    and "vh_certify E rs v s = Inr s'"
  shows "I s'"
proof -
  have "I (spawn [Act_addCert c (view s)] (s\<lparr>vh_isCertified := mput (view s) True (vh_isCertified s)\<rparr>))"
    if "NewCert E (rs 3) (vh_votes s) h v = Inr c" for c h v
    using that assms(1-3) by (intro spawned certified) (auto simp: vh_votes_def)
  then show ?thesis
    using assms(1,4) by (auto simp: vh_certify_def bind_r_eq_Inr split: if_splits)
qed

lemma I_vh_count:
  assumes "I s" and "\<And>k. is_order (rs k)" and "vote_accepted E (cfg s) v" and "vh_count E rs v s = Inr s'"
  shows "I s'"
proof -
  let ?v = "snd (Vote_ToProto v)"
  have same: "vote_accepted E c ?v = vote_accepted E c v" for c
    by (auto simp: vote_accepted_def Vote_ToProto_def Vote_GetVoter_def Vote_GetSignature_def Let_def split: option.split)
  obtain s1 where s1: "addVotetoMap (fst (Vote_ToProto v)) s = Inr s1" and
    rest: "(if mget (vh_isCertified s1) (view s1) = Some True then Inr s1
       else vh_certify E rs ?v
         (s1\<lparr>vh_voteMap := mput (view s1) (mput (Vote_GetVoter ?v) ?v (vh_votes s1)) (vh_voteMap s1)\<rparr>)) = Inr s'"
    using assms(4) by (auto simp: vh_count_def case_prod_beta bind_r_eq_Inr)
  have I1: "I s1"
    using assms(1) s1 by (rule rec_vote)
  have "cfg s1 = cfg s"
    using vote_rec.frame [OF s1] by simp
  then have "I (s1\<lparr>vh_voteMap := mput (view s1) (mput (Vote_GetVoter ?v) ?v (vh_votes s1)) (vh_voteMap s1)\<rparr>)"
    using I1 assms(3) by (intro counted) (simp_all add: same)
  then show ?thesis
    using rest I1 I_vh_certify [OF _ assms(2)] by (auto split: if_splits)
qed

lemma I_voteHandler:
  assumes "I s" and "\<And>k. is_order (rs k)" and "voteHandler E rs v s = Inr s'"
  shows "I s'"
proof -
  have o: "I (vh_open s)"
    using assms(1) by (rule opened)
  have "I s'" if "(if Vote_GetVoter v \<noteq> GetID (cfg s) then isVoteValid E (vh_open s) v else Inr True) = Inr True"
    "vh_count E rs v (vh_open s) = Inr s'"
  proof (rule I_vh_count [OF o assms(2) _ that(2)])
    show "vote_accepted E (cfg (vh_open s)) v"
      using that(1) isVoteValid_accepted [of E "vh_open s" v] by (auto simp: vote_accepted_def split: if_splits)
  qed
  then show ?thesis
    using assms(1,3) o
    by (auto simp: voteHandler_def bind_r_eq_Inr Let_def intro!: spawned_plain split: if_splits)
qed

lemma I_step_or_rotated:
  assumes "I s" and "node_step H E s (Inr s')"
  shows "I s' \<or> rotated I s'"
proof (cases "node_step (H - {H_vote}) E s (Inr s')")
  case True
  then show ?thesis
    using I_quiet_step [OF assms(1)] by blast
next
  case False
  have "I s'"
    using assms(2)
  proof (cases rule: node_step.cases)
    case (vote ord v vs)
    then show ?thesis
      using I_voteHandler [OF I_channels(2) [OF assms(1)], of vs "o_maps ord" v s'] by (auto simp: orders_ok_def)
  qed (use False in \<open>auto intro: node_step.intros\<close>)
  then show ?thesis ..
qed

end

subsection \<open>All steps\<close>

locale node_invariant = vote_frame E I for E I +
  assumes rotate: "I s \<Longrightarrow> changeLeader (s\<lparr>view := view s + 1\<rparr>) = Inr s' \<Longrightarrow> I s'"
begin

lemma I_step: "I s \<Longrightarrow> node_step H E s (Inr s') \<Longrightarrow> I s'"
  using I_step_or_rotated [of s H s'] by (auto simp: rotated_def intro!: spawned_plain elim: rotate)

lemma I_reachable:
  assumes "reachable H E c peers s" and "\<And>dial. I (Setup dial peers (Init E c SyncHS_zero))"
  shows "I s"
  using assms by (induction rule: reachable.induct) (auto intro: I_step)

end

end
