(* ===== verification/Sample_Run.thy ===== *)
theory Sample_Run
  imports Node_Protocol
begin

text \<open>
  An executable scheduler for one replica, sound for the step relation, and concrete runs: the leader of
  three replicas gets a client and the votes of the two followers and stores a certificate; another of the
  three builds a certificate from other votes; a follower of two accepts a proposal, and its round ends.
  The states of the runs serve as the concrete inputs of the theorems on reachable states.
\<close>

section \<open>A scheduler\<close>

datatype event = Ev_go nat | Ev_vote | Ev_forwarded | Ev_dispatch | Ev_timeout
  | Ev_receive "bytes option" | Ev_connect nat | Ev_client nat "bytes option"

definition plain_orders :: orders where
  "plain_orders = \<lparr>o_maps = \<lambda>_ ks. ks, o_reps = \<lambda>_ _ ks. ks, o_clients = \<lambda>ks. ks\<rparr>"

definition exec_go :: "env \<Rightarrow> nat \<Rightarrow> SyncHS \<Rightarrow> SyncHS result option" where
  "exec_go E i s = (if i < length (goroutines s)
     then case goroutines s ! i of [] \<Rightarrow> None
       | a # as \<Rightarrow> do_action E plain_orders a (s\<lparr>goroutines := (goroutines s)[i := as]\<rparr>)
     else None)"

definition exec :: "env \<Rightarrow> event \<Rightarrow> SyncHS \<Rightarrow> SyncHS result option" where
  "exec E ev s = (case ev of
       Ev_go i \<Rightarrow> exec_go E i s
     | Ev_vote \<Rightarrow> (case voteChannel s of [] \<Rightarrow> None
         | v # vs \<Rightarrow> Some (voteHandler E (o_maps plain_orders) v (s\<lparr>voteChannel := vs\<rparr>)))
     | Ev_forwarded \<Rightarrow> (case proposeChannel s of [] \<Rightarrow> None
         | p # ps \<Rightarrow> if fh_ready s
             then Some (forwardProposalHandler E (o_maps plain_orders 0) p (s\<lparr>proposeChannel := ps\<rparr>)) else None)
     | Ev_dispatch \<Rightarrow> (case msgChannel s of [] \<Rightarrow> None
         | m # ms \<Rightarrow> if length (proposeChannel s) < ProtocolMsgBuffer
             then Some (Inr (protocol m (s\<lparr>msgChannel := ms\<rparr>))) else None)
     | Ev_timeout \<Rightarrow> (case Timer_expire (timer s) of None \<Rightarrow> None
         | Some res \<Rightarrow> Some (bind_r res (\<lambda>(_, t).
             callback E (o_reps plain_orders) (o_clients plain_orders) (s\<lparr>timer := t\<rparr>))))
     | Ev_receive inp \<Rightarrow> Some (ProtoMsgHandler inp s)
     | Ev_connect rw \<Rightarrow> if mget (cliMap s) rw = None then Some (Inr (client_connect rw s)) else None
     | Ev_client rw inp \<Rightarrow> if mget (cliMap s) rw = Some True then Some (Inr (client_read E rw inp s)) else None)"

fun exec_all :: "env \<Rightarrow> event list \<Rightarrow> SyncHS \<Rightarrow> SyncHS result option" where
  "exec_all E [] s = Some (Inr s)"
| "exec_all E (ev # evs) s = (case exec E ev s of
       Some (Inr s') \<Rightarrow> exec_all E evs s'
     | r \<Rightarrow> r)"

lemma exec_all_append:
  "exec_all E (evs @ evs') s = (case exec_all E evs s of Some (Inr s') \<Rightarrow> exec_all E evs' s' | r \<Rightarrow> r)"
  by (induction evs arbitrary: s) (auto split: option.split sum.split)

lemma orders_ok_plain [simp]: "orders_ok plain_orders"
  by (simp add: orders_ok_def plain_orders_def)

lemma exec_sound:
  assumes "exec E ev s = Some r"
  shows "node_step Start_handlers E s r"
  using assms
  by (cases ev)
    (auto simp: exec_def exec_go_def Start_handlers_def split: if_splits list.splits option.splits
      intro: node_step.goroutine [OF orders_ok_plain] node_step.vote [OF _ orders_ok_plain]
        node_step.forwarded [OF _ orders_ok_plain] node_step.timeout [OF orders_ok_plain]
        node_step.dispatch node_step.receive node_step.connect node_step.client)

lemma exec_all_reachable:
  "exec_all E evs s = Some (Inr s') \<Longrightarrow> reachable Start_handlers E c peers s \<Longrightarrow> reachable Start_handlers E c peers s'"
proof (induction evs arbitrary: s)
  case (Cons ev evs)
  then obtain t where t: "exec E ev s = Some (Inr t)" "exec_all E evs t = Some (Inr s')"
    by (auto split: option.splits sum.splits)
  then show ?case
    using Cons.IH reachable.step [OF Cons.prems(2) exec_sound [OF t(1)]] by blast
qed simp

lemma exec_all_steps:
  "exec_all E evs s = Some (Inr s') \<Longrightarrow> ((\<lambda>s s'. node_step Start_handlers E s (Inr s')) ^^ length evs) s s'"
proof (induction evs arbitrary: s)
  case (Cons ev evs)
  then obtain t where t: "exec E ev s = Some (Inr t)" "exec_all E evs t = Some (Inr s')"
    by (auto split: option.splits sum.splits)
  show ?case
    unfolding length_Cons by (rule relpowp_Suc_I2 [where P = "\<lambda>s s'. node_step Start_handlers E s (Inr s')",
        OF exec_sound [OF t(1)] Cons.IH [OF t(2)]])
qed simp

section \<open>A round with three replicas\<close>

definition sample_ballot :: "u64 \<Rightarrow> ProtoVote" where
  "sample_ballot i = (let d = \<lparr>vd_BlockHash = sample_hash [7], vd_View = 1, vd_Owner = 0\<rparr> in
     \<lparr>pv_Data = Some d, pv_Body = Some \<lparr>vb_Voter = i, vb_Signature = ucast i # sample_enc_vd d\<rparr>\<rparr>)"

text \<open>A proposal of leader 0 for the first block, forwarded by node 1.\<close>

definition first_proposal :: Proposal where
  "first_proposal = (let h = \<lparr>ph_ParentHash = EmptyHash, ph_TxHash = [], ph_Height = 1, ph_Extra = []\<rparr> in
     \<lparr>pr_Block = Some \<lparr>pb_Header = Some h, pb_Body = Some \<lparr>pbd_Txs = [[42]], pbd_Responses = [[42]]\<rparr>,
        pb_BlockHash = DoHash sample_env (sample_enc_header (Some h))\<rparr>,
      pr_ForwardSender = 1, pr_ForwardSig = 1 # sample_enc_header (Some h), pr_Miner = 0,
      pr_MiningProof = 0 # sample_enc_header (Some h), pr_View = 1,
      pr_ProposeEvidence = sample_enc_cert (BC_fresh sample_env (GenesisCert sample_env))\<rparr>)"

definition round_env :: env where
  "round_env = sample_env\<lparr>UnmarshalMsg := \<lambda>b.
     if b = [0] \<or> b = [1] \<or> b = [2] then (Msg_Vote (sample_ballot (ucast (b ! 0))), False)
     else if b = [3] then (Msg_Prop first_proposal, False)
     else if b = [9] then (Msg_Tx [42], False) else (Msg_nil, True)\<rparr>"

definition round_peers :: "(u64, string) gomap" where
  "round_peers = [(1, ''peer1''), (2, ''peer2'')]"

definition round_boot :: SyncHS where
  "round_boot = Setup (\<lambda>_ _. True) round_peers (Init round_env (sample_cfg 0 3) SyncHS_zero)"

text \<open>Up to the point where the votes of nodes 2 and 0 wait for the handler, the state after the first
  of them, and the state with the certificate stored.\<close>

definition round_events :: "event list" where
  "round_events = [Ev_connect 5, Ev_receive (Some [1]), Ev_go 0, Ev_dispatch, Ev_go 1, Ev_vote,
     Ev_receive (Some [2]), Ev_go 2, Ev_dispatch, Ev_go 3, Ev_receive (Some [0]), Ev_go 4, Ev_dispatch, Ev_go 5]"

definition round_ready :: SyncHS where
  "round_ready = (case exec_all round_env round_events round_boot of Some (Inr s) \<Rightarrow> s | _ \<Rightarrow> round_boot)"

definition round_voted :: SyncHS where
  "round_voted = (case exec round_env Ev_vote round_ready of Some (Inr s) \<Rightarrow> s | _ \<Rightarrow> round_boot)"

definition round_certified :: SyncHS where
  "round_certified = (case exec round_env (Ev_go 6) round_voted of Some (Inr s) \<Rightarrow> s | _ \<Rightarrow> round_boot)"

fun pending_signers :: "action list \<Rightarrow> (u64 list \<times> u64) option" where
  "pending_signers [Act_addCert x n] = Some (pc_ids (bc_Partial x), n)"
| "pending_signers _ = None"

lemma pending_signers_Some:
  "pending_signers as = Some (is, n) \<Longrightarrow> \<exists>x. as = [Act_addCert x n] \<and> pc_ids (bc_Partial x) = is"
  by (cases as rule: pending_signers.cases) auto

lemma round_facts:
  "(case exec_all round_env round_events round_boot of Some (Inr s) \<Rightarrow>
      voteChannel s = map (\<lambda>i. Vote_FromProto (sample_ballot i)) [2, 0] \<and> length (goroutines s) = 6 \<and> view s = 1
      \<and> view_reps 1 s = [(0, SetFloat64 f64_1em6), (1, SetFloat64 f64_1em6), (2, SetFloat64 f64_1em6)] \<and> msgChannel s = [] \<and>
      (case exec round_env Ev_vote s of Some (Inr t) \<Rightarrow>
         take 6 (goroutines t) = goroutines s \<and> length (goroutines t) = 7
         \<and> voteChannel t = [Vote_FromProto (sample_ballot 0)]
         \<and> pending_signers (goroutines t ! 6) = Some ([1, 2], 1)
         \<and> mget (vh_isCertified t) 1 = Some True \<and> view t = 1 \<and>
         (case exec round_env Ev_vote t of Some (Inr _) \<Rightarrow> True | _ \<Rightarrow> False) \<and>
         (case exec round_env (Ev_go 6) t of Some (Inr u) \<Rightarrow>
            map (length \<circ> (\<lambda>f. f u)) [voteMap, voteMaliMap, proposalMap, equiproposalMap, withproposalMap, maliproposalMap]
              = [1, 0, 0, 0, 0, 0] \<and>
            (case mget (certMap u) 1 of Some x \<Rightarrow> pc_ids (bc_Partial x) = [1, 2] | _ \<Rightarrow> False)
          | _ \<Rightarrow> False)
       | _ \<Rightarrow> False)
    | _ \<Rightarrow> False)"
  by code_simp

lemma round_runs:
  "exec_all round_env round_events round_boot = Some (Inr round_ready)"
  "exec round_env Ev_vote round_ready = Some (Inr round_voted)"
  "exec round_env (Ev_go 6) round_voted = Some (Inr round_certified)"
proof -
  show 1: "exec_all round_env round_events round_boot = Some (Inr round_ready)"
    using round_facts by (auto simp: round_ready_def split: option.splits sum.splits)
  show 2: "exec round_env Ev_vote round_ready = Some (Inr round_voted)"
    using round_facts by (auto simp: 1 round_voted_def split: option.splits sum.splits)
  show "exec round_env (Ev_go 6) round_voted = Some (Inr round_certified)"
    using round_facts by (auto simp: 1 2 round_certified_def split: option.splits sum.splits)
qed

lemma round_ready_facts:
  "voteChannel round_ready = [Vote_FromProto (sample_ballot 2), Vote_FromProto (sample_ballot 0)]" "view round_ready = 1"
  "length (goroutines round_ready) = 6" "set (mkeys (view_reps 1 round_ready)) = {0, 1, 2}"
  "view_reps 1 round_ready = [(0, SetFloat64 f64_1em6), (1, SetFloat64 f64_1em6), (2, SetFloat64 f64_1em6)]"
  using round_facts by (simp_all add: round_runs)

lemma round_voted_facts:
  "mget (vh_isCertified round_voted) 1 = Some True" "view round_voted = 1"
  "voteChannel round_voted = [Vote_FromProto (sample_ballot 0)]" "\<exists>s'. exec round_env Ev_vote round_voted = Some (Inr s')"
  "\<exists>x. goroutines round_voted = goroutines round_ready @ [[Act_addCert x 1]] \<and> pc_ids (bc_Partial x) = [1, 2]"
proof -
  show "mget (vh_isCertified round_voted) 1 = Some True" "view round_voted = 1"
    "voteChannel round_voted = [Vote_FromProto (sample_ballot 0)]"
    using round_facts by (simp_all add: round_runs)
  show "\<exists>s'. exec round_env Ev_vote round_voted = Some (Inr s')"
    using round_facts by (auto simp: round_runs split: option.splits sum.splits)
  have "take 6 (goroutines round_voted) = goroutines round_ready" "length (goroutines round_voted) = 7"
    and "pending_signers (goroutines round_voted ! 6) = Some ([1, 2], 1)"
    using round_facts by (simp_all add: round_runs)
  then show "\<exists>x. goroutines round_voted = goroutines round_ready @ [[Act_addCert x 1]] \<and> pc_ids (bc_Partial x) = [1, 2]"
    using pending_signers_Some take_Suc_conv_app_nth [of 6 "goroutines round_voted"] by fastforce
qed

lemma round_certified_facts:
  "\<exists>x. mget (certMap round_certified) 1 = Some x \<and> pc_ids (bc_Partial x) = [1, 2]"
  "few_views round_certified"
proof -
  show "\<exists>x. mget (certMap round_certified) 1 = Some x \<and> pc_ids (bc_Partial x) = [1, 2]"
    using round_facts by (auto simp: round_runs split: option.splits)
  have "map (length \<circ> (\<lambda>f. f round_certified)) [voteMap, voteMaliMap, proposalMap, equiproposalMap, withproposalMap, maliproposalMap]
      = [1, 0, 0, 0, 0, 0]"
    using round_facts by (simp add: round_runs)
  then show "few_views round_certified"
    by (simp add: few_views_def)
qed

lemma round_reachable:
  "reachable Start_handlers round_env (sample_cfg 0 3) round_peers round_boot"
  "reachable Start_handlers round_env (sample_cfg 0 3) round_peers round_ready"
  "reachable Start_handlers round_env (sample_cfg 0 3) round_peers round_voted"
  "reachable Start_handlers round_env (sample_cfg 0 3) round_peers round_certified"
proof -
  show boot: "reachable Start_handlers round_env (sample_cfg 0 3) round_peers round_boot"
    unfolding round_boot_def by (rule reachable.boot)
  show r: "reachable Start_handlers round_env (sample_cfg 0 3) round_peers round_ready"
    by (rule exec_all_reachable [OF round_runs(1) boot])
  show v: "reachable Start_handlers round_env (sample_cfg 0 3) round_peers round_voted"
    by (rule reachable.step [OF r exec_sound [OF round_runs(2)]])
  show "reachable Start_handlers round_env (sample_cfg 0 3) round_peers round_certified"
    by (rule reachable.step [OF v exec_sound [OF round_runs(3)]])
qed

section \<open>Another replica of the three\<close>

text \<open>Node 1 gets the votes of the nodes 2 and 0.\<close>

definition second_boot :: SyncHS where
  "second_boot = Setup (\<lambda>_ _. True) [(0, ''peer0''), (2, ''peer2'')] (Init round_env (sample_cfg 1 3) SyncHS_zero)"

definition second_events :: "event list" where
  "second_events = [Ev_connect 5, Ev_receive (Some [2]), Ev_go 0, Ev_dispatch, Ev_go 1, Ev_vote,
     Ev_receive (Some [0]), Ev_go 2, Ev_dispatch, Ev_go 3]"

definition second_ready :: SyncHS where
  "second_ready = (case exec_all round_env second_events second_boot of Some (Inr s) \<Rightarrow> s | _ \<Rightarrow> second_boot)"

lemma second_run:
  "(case exec_all round_env second_events second_boot of Some (Inr s) \<Rightarrow>
      voteChannel s = [Vote_FromProto (sample_ballot 0)] \<and> length (goroutines s) = 4
      \<and> view_reps 1 s = [(0, SetFloat64 f64_1em6), (1, SetFloat64 f64_1em6), (2, SetFloat64 f64_1em6)] \<and>
      (case exec round_env Ev_vote s of Some (Inr t) \<Rightarrow>
         take 4 (goroutines t) = goroutines s \<and> length (goroutines t) = 5
         \<and> pending_signers (goroutines t ! 4) = Some ([2, 0], 1)
       | _ \<Rightarrow> False)
    | _ \<Rightarrow> False)"
  by code_simp

lemma second_facts:
  "exec_all round_env second_events second_boot = Some (Inr second_ready)"
  "reachable Start_handlers round_env (sample_cfg 1 3) [(0, ''peer0''), (2, ''peer2'')] second_ready"
  "voteChannel second_ready = [Vote_FromProto (sample_ballot 0)]"
  "view_reps 1 second_ready = [(0, SetFloat64 f64_1em6), (1, SetFloat64 f64_1em6), (2, SetFloat64 f64_1em6)]"
  "\<exists>t x. exec round_env Ev_vote second_ready = Some (Inr t) \<and> goroutines t = goroutines second_ready @ [[Act_addCert x 1]]
     \<and> pc_ids (bc_Partial x) = [2, 0]"
proof -
  show run: "exec_all round_env second_events second_boot = Some (Inr second_ready)"
    using second_run by (auto simp: second_ready_def split: option.splits sum.splits)
  show "reachable Start_handlers round_env (sample_cfg 1 3) [(0, ''peer0''), (2, ''peer2'')] second_ready"
    by (rule exec_all_reachable [OF run]) (simp add: second_boot_def reachable.boot)
  show "voteChannel second_ready = [Vote_FromProto (sample_ballot 0)]"
    "view_reps 1 second_ready = [(0, SetFloat64 f64_1em6), (1, SetFloat64 f64_1em6), (2, SetFloat64 f64_1em6)]"
    using second_run by (simp_all add: run)
  obtain t where "exec round_env Ev_vote second_ready = Some (Inr t)" "take 4 (goroutines t) = goroutines second_ready"
    "length (goroutines t) = 5" "pending_signers (goroutines t ! 4) = Some ([2, 0], 1)"
    using second_run by (auto simp: run split: option.splits sum.splits)
  then show "\<exists>t x. exec round_env Ev_vote second_ready = Some (Inr t) \<and> goroutines t = goroutines second_ready @ [[Act_addCert x 1]]
     \<and> pc_ids (bc_Partial x) = [2, 0]"
    using pending_signers_Some take_Suc_conv_app_nth [of 4 "goroutines t"] by fastforce
qed

section \<open>A follower accepts a proposal\<close>

definition follower_boot :: SyncHS where
  "follower_boot = Setup (\<lambda>_ _. True) [(0, ''peer0'')] (Init round_env (sample_cfg 1 2) SyncHS_zero)"

definition follower_events :: "event list" where
  "follower_events = [Ev_receive (Some [3]), Ev_go 0, Ev_dispatch, Ev_forwarded]"

definition follower_accepted :: SyncHS where
  "follower_accepted = (case exec_all round_env follower_events follower_boot of Some (Inr s) \<Rightarrow> s | _ \<Rightarrow> follower_boot)"

lemma follower_run:
  "(case exec_all round_env follower_events follower_boot of Some (Inr s) \<Rightarrow>
      mget (BlocksByHeight (bc s)) 1 = Some (ext_of round_env (the (pr_Block first_proposal))) \<and> Head (bc s) = 1
    | _ \<Rightarrow> False)"
  by code_simp

lemma follower_facts:
  "exec_all round_env follower_events follower_boot = Some (Inr follower_accepted)"
  "mget (BlocksByHeight (bc follower_accepted)) 1 = Some (ext_of round_env (the (pr_Block first_proposal)))"
  "reachable Start_handlers round_env (sample_cfg 1 2) [(0, ''peer0'')] follower_accepted"
proof -
  show run: "exec_all round_env follower_events follower_boot = Some (Inr follower_accepted)"
    using follower_run by (auto simp: follower_accepted_def split: option.splits sum.splits)
  show "mget (BlocksByHeight (bc follower_accepted)) 1 = Some (ext_of round_env (the (pr_Block first_proposal)))"
    using follower_run by (simp add: run)
  show "reachable Start_handlers round_env (sample_cfg 1 2) [(0, ''peer0'')] follower_accepted"
    by (rule exec_all_reachable [OF run]) (simp add: follower_boot_def reachable.boot)
qed

text \<open>The same follower through a whole round: a client starts the timer, the proposal and both votes
  arrive, the certificate is stored, and the timer expires.\<close>

definition follower_round :: "event list" where
  "follower_round = [Ev_connect 5, Ev_client 5 (Some [9]), Ev_go 0, Ev_receive (Some [3]), Ev_go 2, Ev_dispatch, Ev_forwarded,
     Ev_receive (Some [0]), Ev_go 4, Ev_dispatch, Ev_go 5, Ev_vote, Ev_receive (Some [1]), Ev_go 6, Ev_dispatch, Ev_go 7,
     Ev_vote, Ev_go 8]"

lemma follower_round_run:
  "(case exec_all round_env follower_round follower_boot of Some (Inr s) \<Rightarrow>
      view s = 1 \<and> leader s = 0 \<and> GetNumNodes (cfg s) = 2 \<and> getCertForBlockIndex 1 s \<noteq> None
      \<and> mget (BlocksByHeight (bc s)) (Head (bc s)) = Some (ext_of round_env (the (pr_Block first_proposal)))
      \<and> \<not> withholdingProposalInject s \<and> \<not> equivocatingProposalInject s
      \<and> tm_callable (timer s) = Some Call_callback \<and> tm_waiting (timer s) = 1
    | _ \<Rightarrow> False)"
  by code_simp

lemma follower_round_ends:
  "\<exists>s. exec_all round_env (follower_round @ [Ev_timeout]) follower_boot = Some (Inr s) \<and> view s = 2 \<and> leader s = 1"
proof -
  obtain s where run: "exec_all round_env follower_round follower_boot = Some (Inr s)"
    and s: "view s = 1" "leader s = 0" "GetNumNodes (cfg s) = 2" "getCertForBlockIndex 1 s \<noteq> None"
      "mget (BlocksByHeight (bc s)) (Head (bc s)) = Some (ext_of round_env (the (pr_Block first_proposal)))"
      "\<not> withholdingProposalInject s" "\<not> equivocatingProposalInject s"
      "tm_callable (timer s) = Some Call_callback" "tm_waiting (timer s) = 1"
    using follower_round_run by (auto split: option.splits sum.splits)
  have "MarshalMsg round_env m = ([], False)" for m
    by (simp add: round_env_def sample_env_def)
  then obtain s' where "exec round_env Ev_timeout s = Some (Inr s')" "view s' = 2" "leader s' = 1"
    using s by (auto simp: exec_def Timer_expire_def callback_def addNewView_eq getCertForBlockIndex_def commit_round_ok spawn_def Let_def)
  then show ?thesis
    by (simp add: exec_all_append run)
qed

end
