(* ===== verification/Node_Safety.thy ===== *)
theory Node_Safety
  imports Node_Invariants Sample_Run
begin

text \<open>
  The invariants of a running replica, each an interpretation of \<open>node_invariant\<close>: leader rotation,
  well-formed behaviour maps, positive reputations, the block store, genuine certificates, and the
  capacity of the channels.
\<close>

section \<open>Frames of the elementary updates\<close>

lemma recorders_frame:
  "addVotetoMap pv s = Inr s' \<Longrightarrow> \<exists>m. s' = s\<lparr>voteMap := m\<rparr>"
  "addMaliVotetoMap pv s = Inr s' \<Longrightarrow> \<exists>m. s' = s\<lparr>voteMaliMap := m\<rparr>"
  "addMaliProposaltoMap p s = Inr s' \<Longrightarrow> \<exists>m. s' = s\<lparr>maliproposalMap := m\<rparr>"
  by (auto simp: addVotetoMap_def addMaliVotetoMap_def addMaliProposaltoMap_def bind_r_eq_Inr)

lemma store_block_frame: "store_block E h b s = Inr s' \<Longrightarrow> \<exists>x. s' = s\<lparr>bc := x\<rparr>"
  by (auto simp: store_block_def bind_r_eq_Inr)

lemma changeLeader_frame: "changeLeader s = Inr s' \<Longrightarrow> \<exists>l. s' = s\<lparr>leader := l\<rparr>"
  by (auto simp: changeLeader_def split: if_splits)

lemmas update_frames = recorders_frame store_block_frame changeLeader_frame

text \<open>The recorders of the leader's conduct, opening a view of votes, and the two reputation updates.\<close>

lemma leader_recorders_sel [simp]:
  "f \<in> {addEquiProposaltoMap, addWitholdProposaltoMap, addProposaltoMap} \<Longrightarrow>
     cfg (f s) = cfg s \<and> view (f s) = view s \<and> leader (f s) = leader s \<and> certMap (f s) = certMap s
     \<and> reputationMap (f s) = reputationMap s \<and> bc (f s) = bc s \<and> goroutines (f s) = goroutines s
     \<and> vh_voteMap (f s) = vh_voteMap s \<and> vh_isCertified (f s) = vh_isCertified s
     \<and> initialReplicaSore (f s) = initialReplicaSore s \<and> pMap (f s) = pMap s"
  by (auto simp: addEquiProposaltoMap_def addWitholdProposaltoMap_def addProposaltoMap_def)

lemma vh_open_sel [simp]:
  "cfg (vh_open s) = cfg s" "view (vh_open s) = view s" "leader (vh_open s) = leader s"
  "certMap (vh_open s) = certMap s" "reputationMap (vh_open s) = reputationMap s" "bc (vh_open s) = bc s"
  "goroutines (vh_open s) = goroutines s" "initialReplicaSore (vh_open s) = initialReplicaSore s"
  "wf_behaviour (vh_open s) = wf_behaviour s" "pMap (vh_open s) = pMap s"
  by (simp_all add: vh_open_def wf_behaviour_def split: option.split)

lemma new_view_sel [simp]:
   "cfg (addNewViewReputaiontoMap E rss s) = cfg s" "view (addNewViewReputaiontoMap E rss s) = view s"
   "leader (addNewViewReputaiontoMap E rss s) = leader s"
   "certMap (addNewViewReputaiontoMap E rss s) = certMap s" "bc (addNewViewReputaiontoMap E rss s) = bc s"
   "goroutines (addNewViewReputaiontoMap E rss s) = goroutines s"
   "vh_voteMap (addNewViewReputaiontoMap E rss s) = vh_voteMap s"
   "vh_isCertified (addNewViewReputaiontoMap E rss s) = vh_isCertified s"
   "initialReplicaSore (addNewViewReputaiontoMap E rss s) = initialReplicaSore s"
   "wf_behaviour (addNewViewReputaiontoMap E rss s) = wf_behaviour s"
   "pMap (addNewViewReputaiontoMap E rss s) = pMap s"
  by (simp_all add: addNewView_eq wf_behaviour_def)

lemma first_view_sel [simp]:
   "cfg (initialReputationMap s) = cfg s" "view (initialReputationMap s) = view s"
   "leader (initialReputationMap s) = leader s" "certMap (initialReputationMap s) = certMap s"
   "bc (initialReputationMap s) = bc s" "goroutines (initialReputationMap s) = goroutines s"
   "vh_voteMap (initialReputationMap s) = vh_voteMap s"
   "vh_isCertified (initialReputationMap s) = vh_isCertified s"
   "initialReplicaSore (initialReputationMap s) = initialReplicaSore s"
   "wf_behaviour (initialReputationMap s) = wf_behaviour s" "pMap (initialReputationMap s) = pMap s"
  by (simp_all add: initialReputation_eq wf_behaviour_def)

lemma spawn_sel2 [simp]:
  "vh_voteMap (spawn as s) = vh_voteMap s" "vh_isCertified (spawn as s) = vh_isCertified s"
  "initialReplicaSore (spawn as s) = initialReplicaSore s" "wf_behaviour (spawn as s) = wf_behaviour s"
  "pMap (spawn as s) = pMap s"
  by (simp_all add: spawn_def wf_behaviour_def)

lemma addCert_sel [simp]:
  "cfg (addCert c n s) = cfg s" "view (addCert c n s) = view s" "leader (addCert c n s) = leader s"
  "certMap (addCert c n s) = mput n c (certMap s)" "reputationMap (addCert c n s) = reputationMap s"
  "bc (addCert c n s) = bc s" "goroutines (addCert c n s) = goroutines s" "pMap (addCert c n s) = pMap s"
  "vh_voteMap (addCert c n s) = vh_voteMap s" "vh_isCertified (addCert c n s) = vh_isCertified s"
  "initialReplicaSore (addCert c n s) = initialReplicaSore s" "wf_behaviour (addCert c n s) = wf_behaviour s"
  by (simp_all add: addCert_def wf_behaviour_def)

section \<open>Rounds and leaders\<close>

definition rounds_inv :: "NodeConfig \<Rightarrow> SyncHS \<Rightarrow> bool" where
  "rounds_inv c s \<longleftrightarrow> cfg s = c \<and> (GetNumNodes c \<noteq> 0 \<longrightarrow> leader s < GetNumNodes c)"

lemma rounds_inv_cong: "cfg s' = cfg s \<Longrightarrow> leader s' = leader s \<Longrightarrow> rounds_inv c s \<Longrightarrow> rounds_inv c s'"
  by (simp add: rounds_inv_def)

lemma rounds_inv_rotate:
  "rounds_inv c s \<Longrightarrow> changeLeader (s\<lparr>view := view s + 1\<rparr>) = Inr s' \<Longrightarrow> rounds_inv c s'"
  using changeLeader_lt [of "s\<lparr>view := view s + 1\<rparr>" s'] by (auto simp: rounds_inv_def)

interpretation rounds: node_invariant E "rounds_inv c"
  for E c
proof unfold_locales
  show "rounds_inv c s \<Longrightarrow> core s' = core s \<Longrightarrow> rounds_inv c s'" for s s'
    by (erule rounds_inv_cong [rotated 2]) (erule coreD)+
  show "rounds_inv c s \<Longrightarrow> changeLeader (s\<lparr>view := view s + 1\<rparr>) = Inr s' \<Longrightarrow> rounds_inv c s'" for s s'
    by (rule rounds_inv_rotate)
qed (auto dest!: update_frames elim!: rounds_inv_cong [rotated 2])

text \<open>A step either stays in its view, with the leader, or goes to the next view and the next leader.\<close>

definition same_round :: "SyncHS \<Rightarrow> SyncHS \<Rightarrow> bool" where
  "same_round s t \<longleftrightarrow> cfg t = cfg s \<and> view t = view s \<and> leader t = leader s"

lemma same_round_cong:
  "cfg t' = cfg t \<Longrightarrow> view t' = view t \<Longrightarrow> leader t' = leader t \<Longrightarrow> same_round s t \<Longrightarrow> same_round s t'"
  by (simp add: same_round_def)

interpretation round_frame: vote_frame E "same_round s"
  for E s
proof unfold_locales
  show "same_round s t \<Longrightarrow> core t' = core t \<Longrightarrow> same_round s t'" for t t'
    by (erule same_round_cong [rotated 3]) (erule coreD)+
qed (auto dest!: update_frames elim!: same_round_cong [rotated 3])

lemma step_rotates:
  assumes "node_step H E s (Inr s')"
  shows "cfg s' = cfg s \<and> (view s' = view s \<and> leader s' = leader s
    \<or> view s' = view s + 1 \<and> leader s' = (leader s + 1) mod GetNumNodes (cfg s) \<and> GetNumNodes (cfg s) \<noteq> 0)"
  using round_frame.I_step_or_rotated [OF _ assms, of s]
  by (auto simp: same_round_def rotated_def changeLeader_def spawn_def split: if_splits)

text \<open>Only the vote handler changes the counted votes and the marks of certified views.\<close>

definition same_votes :: "SyncHS \<Rightarrow> SyncHS \<Rightarrow> bool" where
  "same_votes s t \<longleftrightarrow> vh_voteMap t = vh_voteMap s \<and> vh_isCertified t = vh_isCertified s"

lemma same_votes_cong:
  "vh_voteMap t' = vh_voteMap t \<Longrightarrow> vh_isCertified t' = vh_isCertified t \<Longrightarrow> same_votes s t \<Longrightarrow> same_votes s t'"
  by (simp add: same_votes_def)

interpretation votes_frame: node_frame E "same_votes s"
  for E s
proof unfold_locales
  show "same_votes s t \<Longrightarrow> core t' = core t \<Longrightarrow> same_votes s t'" for t t'
    by (erule same_votes_cong [rotated 2]) (erule coreD)+
qed (auto dest!: update_frames elim!: same_votes_cong [rotated 2])

lemma quiet_step_votes:
  assumes "node_step H E s (Inr s')" and "H_vote \<notin> H"
  shows "same_votes s s'"
  using votes_frame.I_quiet_step [OF _ assms, of s]
  by (auto simp: same_votes_def rotated_def changeLeader_def spawn_def split: if_splits)

section \<open>Behaviour maps\<close>

lemma wf_behaviour_cong:
  "wf_behaviour s \<Longrightarrow> voteMap s' = voteMap s \<Longrightarrow> voteMaliMap s' = voteMaliMap s \<Longrightarrow> proposalMap s' = proposalMap s \<Longrightarrow>
   equiproposalMap s' = equiproposalMap s \<Longrightarrow> withproposalMap s' = withproposalMap s \<Longrightarrow>
   maliproposalMap s' = maliproposalMap s \<Longrightarrow> wf_behaviour s'"
  by (simp add: wf_behaviour_def)

interpretation behaviour: node_invariant E wf_behaviour
  for E
proof unfold_locales
  show "wf_behaviour s \<Longrightarrow> core s' = core s \<Longrightarrow> wf_behaviour s'" for s s'
    by (erule wf_behaviour_cong) (erule coreD)+
  show "wf_behaviour s \<Longrightarrow> addVotetoMap pv s = Inr s' \<Longrightarrow> wf_behaviour s'"
    "wf_behaviour s \<Longrightarrow> addMaliVotetoMap pv s = Inr s' \<Longrightarrow> wf_behaviour s'"
    "wf_behaviour s \<Longrightarrow> addMaliProposaltoMap p s = Inr s' \<Longrightarrow> wf_behaviour s'" for s s' pv p
    by (fact wf_behaviour_recorders)+
qed (auto simp: wf_behaviour_recorders(4-6) dest!: store_block_frame changeLeader_frame elim!: wf_behaviour_cong)

section \<open>Positive reputations\<close>

definition reputation_inv :: "SyncHS \<Rightarrow> bool" where
  "reputation_inv s \<longleftrightarrow> 0 < fst (bf_dy (initialReplicaSore s)) \<and> (\<forall>v. reps_positive (view_reps v s))"

lemma reputation_inv_cong:
  "reputation_inv s \<Longrightarrow> initialReplicaSore s' = initialReplicaSore s \<Longrightarrow> reputationMap s' = reputationMap s \<Longrightarrow> reputation_inv s'"
  by (simp add: reputation_inv_def view_reps_def)

lemma reps_positive_mput: "reps_positive m \<Longrightarrow> 0 < fst (bf_dy w) \<Longrightarrow> reps_positive (mput k w m)"
  unfolding reps_positive_def by (induction m) (auto simp: wf_map_def dom_update split: if_splits)

lemma reps_positive_foldl:
  "reps_positive m \<Longrightarrow> (\<And>i. 0 < fst (bf_dy (f i))) \<Longrightarrow> reps_positive (foldl (\<lambda>r i. mput i (f i) r) m is)"
  by (induction "is" arbitrary: m) (auto intro: reps_positive_mput)

lemma other_view_foldl: "v \<noteq> a \<Longrightarrow> mget (foldl (\<lambda>m i. mput2 a i (f i) m) m is) v = mget m v"
  by (induction "is" arbitrary: m) (simp_all add: mget_mput2)

lemma view_reps_foldl:
  "view_reps v (s\<lparr>reputationMap := foldl (\<lambda>m i. mput2 a i (f i) m) (reputationMap s) is\<rparr>)
   = (if v = a then foldl (\<lambda>r i. mput i (f i) r) (view_reps a s) is else view_reps v s)"
  using inner_foldl [of a f "reputationMap s" "is"] by (simp add: view_reps_def other_view_foldl)

text \<open>The reputation formula is clamped from below, whatever \<open>tanh\<close> returns.\<close>

lemma dval_pos: "0 < dval d \<longleftrightarrow> 0 < fst d"
  using dval_sign [of d] by (metis order_less_le)

lemma maxValueCheckScore_pos: "0 < fst (bf_dy (maxValueCheckScore a))"
proof -
  have "0 < dval (bf_dy (maxValueCheckScore a))"
    unfolding bfval_def [symmetric] bfval_maxValueCheckScore using init_bounds(1) by linarith
  then show ?thesis
    by (simp only: dval_pos)
qed

lemma ReputationCalculate_pos: "0 < fst (bf_dy (ReputationCalculateinCurrentRound E rs s i))"
  unfolding ReputationCalculateinCurrentRound_def Let_def by (rule maxValueCheckScore_pos)

interpretation reputations: node_invariant E reputation_inv
  for E
proof unfold_locales
  show "reputation_inv s \<Longrightarrow> core s' = core s \<Longrightarrow> reputation_inv s'" for s s'
    by (erule reputation_inv_cong) (erule coreD)+
  show "reputation_inv s \<Longrightarrow> reputation_inv (addNewViewReputaiontoMap E rss s)" for s rss
    by (simp add: addNewView_eq reputation_inv_def view_reps_foldl reps_positive_foldl ReputationCalculate_pos)
  show "reputation_inv s \<Longrightarrow> reputation_inv (initialReputationMap s)" for s
    by (simp add: initialReputation_eq reputation_inv_def view_reps_foldl reps_positive_foldl)
qed (auto dest!: update_frames elim!: reputation_inv_cong)

section \<open>The block store\<close>

definition chain_inv :: "env \<Rightarrow> SyncHS \<Rightarrow> bool" where
  "chain_inv E s \<longleftrightarrow>
     (\<forall>h b. mget (BlocksByHeight (bc s)) h = Some b \<longrightarrow> (\<exists>d. b = ext_of E d \<and> ProtoHeader_GetHeight (pb_Header d) = h))
     \<and> (\<forall>x b. mget (BlocksByHash (bc s)) x = Some b \<longrightarrow> (\<exists>d. b = ext_of E d) \<and> ExtBlock_GetBlockHash E b = Inr x)
     \<and> (\<forall>h b x. mget (BlocksByHeight (bc s)) h = Some b \<longrightarrow> ExtBlock_GetBlockHash E b = Inr x \<longrightarrow>
          mget (BlocksByHash (bc s)) x \<noteq> None)"

lemma chain_inv_cong: "chain_inv E s \<Longrightarrow> bc s' = bc s \<Longrightarrow> chain_inv E s'"
  by (simp add: chain_inv_def)

lemma chain_inv_head: "chain_inv E s \<Longrightarrow> chain_inv E (s\<lparr>bc := (bc s)\<lparr>Head := n\<rparr>\<rparr>)"
  by (simp add: chain_inv_def)

lemma chain_inv_store:
  assumes "chain_inv E s" and "store_block E (ProtoHeader_GetHeight (pb_Header d)) (ext_of E d) s = Inr s'"
  shows "chain_inv E s'"
proof -
  obtain x where x: "ExtBlock_GetBlockHash E (ext_of E d) = Inr x" and
    s': "s' = s\<lparr>bc := (bc s)\<lparr>BlocksByHeight := mput (ProtoHeader_GetHeight (pb_Header d)) (ext_of E d) (BlocksByHeight (bc s)),
            BlocksByHash := mput x (ext_of E d) (BlocksByHash (bc s))\<rparr>\<rparr>"
    using assms(2) by (auto simp: store_block_def bind_r_eq_Inr)
  then show ?thesis
    using assms(1) unfolding chain_inv_def s' by (auto split: if_splits)
qed

interpretation chain: node_invariant E "chain_inv E"
  for E
proof unfold_locales
  show "chain_inv E s \<Longrightarrow> core s' = core s \<Longrightarrow> chain_inv E s'" for s s'
    by (erule chain_inv_cong) (erule coreD)
qed (auto dest!: recorders_frame changeLeader_frame intro: chain_inv_head chain_inv_store elim: chain_inv_cong)

section \<open>Votes and certificates\<close>

text \<open>A certificate whose signers are distinct and each accounted for by a vote the replica accepted.\<close>

definition genuine_cert :: "env \<Rightarrow> NodeConfig \<Rightarrow> BlockCertificate \<Rightarrow> bool" where
  "genuine_cert E c x \<longleftrightarrow> distinct (PC_GetSigners (bc_Partial x))
     \<and> (\<forall>i \<in> set (PC_GetSigners (bc_Partial x)). \<exists>vt. Vote_GetVoter vt = i \<and> vote_accepted E c vt
          \<and> PC_GetSignatureFromID i (bc_Partial x) = Some (Vote_GetSignature vt))"

definition counted_votes :: "env \<Rightarrow> NodeConfig \<Rightarrow> (u64, Vote) gomap \<Rightarrow> bool" where
  "counted_votes E c m \<longleftrightarrow> wf_map m \<and> (\<forall>i vt. mget m i = Some vt \<longrightarrow> Vote_GetVoter vt = i \<and> vote_accepted E c vt)"

definition certs_inv :: "env \<Rightarrow> NodeConfig \<Rightarrow> SyncHS \<Rightarrow> bool" where
  "certs_inv E c s \<longleftrightarrow> cfg s = c
     \<and> (\<forall>v m. mget (vh_voteMap s) v = Some m \<longrightarrow> counted_votes E c m)
     \<and> (\<forall>v. mget (vh_isCertified s) v = Some True \<longrightarrow> mget (vh_voteMap s) v \<noteq> None)
     \<and> (\<forall>n x. mget (certMap s) n = Some x \<longrightarrow> genuine_cert E c x)
     \<and> (\<forall>as \<in> set (goroutines s). \<forall>x n. Act_addCert x n \<in> set as \<longrightarrow> genuine_cert E c x)"

lemma certs_inv_cong:
  "certs_inv E c s \<Longrightarrow> cfg s' = cfg s \<Longrightarrow> vh_voteMap s' = vh_voteMap s \<Longrightarrow> vh_isCertified s' = vh_isCertified s \<Longrightarrow>
   certMap s' = certMap s \<Longrightarrow> goroutines s' = goroutines s \<Longrightarrow> certs_inv E c s'"
  by (simp add: certs_inv_def)

text \<open>The certificate made of counted votes is genuine; so is one without signers, and a cached copy.\<close>

lemma map_of_rev_zip:
  "distinct ks \<Longrightarrow> k \<in> set ks \<Longrightarrow> map_of (rev (zip ks (map f ks))) k = Some (f k)"
proof (induction ks)
  case (Cons a ks)
  have "map_of (rev (zip ks (map f ks))) a = None"
    using Cons.prems(1) by (auto simp: map_of_eq_None_iff zip_map2 dest: set_zip_leftD)
  then show ?case
    using Cons by (auto simp: map_add_def split: option.split)
qed simp

lemma NewCert_genuine:
  assumes "counted_votes E c m" and "is_order r" and new: "NewCert E r m h v = Inr x"
  shows "genuine_cert E c x"
    and "set (PC_GetSigners (bc_Partial x)) = set (mkeys m)"
proof -
  obtain y where y: "NewCert E r m h v = Inr y" "cert_sigs_ok y"
    "pc_ids (bc_Partial y) = map Vote_GetVoter (range_values r m)"
    "pc_sigs (bc_Partial y) = map Vote_GetSignature (range_values r m)"
    by (rule NewCert_ok)
  have known: "\<exists>vt. mget m k = Some vt \<and> Vote_GetVoter vt = k \<and> vote_accepted E c vt" if "k \<in> set (r (mkeys m))" for k
  proof -
    have "k \<in> dom (mget m)"
      using that unfolding is_orderD(1) [OF assms(2)] set_mkeys .
    then show ?thesis
      using assms(1) by (auto simp: counted_votes_def)
  qed
  have "map Vote_GetVoter (range_values r m) = r (mkeys m)"
    unfolding range_values_def map_map by (rule map_idI) (use known in force)
  then have ids: "pc_ids (bc_Partial x) = r (mkeys m)"
    and sigs: "pc_sigs (bc_Partial x) = map (\<lambda>k. Vote_GetSignature (the (mget m k))) (r (mkeys m))"
    and ok: "cert_sigs_ok x"
    using y new by (auto simp: range_values_def)
  have dist: "distinct (r (mkeys m))"
    using assms(1) is_orderD(3) [OF assms(2)] by (simp add: counted_votes_def wf_map_def)
  have "PC_GetSignatureFromID k (bc_Partial x) = Some (Vote_GetSignature (the (mget m k)))" if "k \<in> set (r (mkeys m))" for k
    using ok dist that unfolding cert_sigs_ok_def ids sigs
    by (simp add: PC_GetSignatureFromID_def map_of_rev_zip split: option.splits)
  then show "genuine_cert E c x"
    using dist known unfolding genuine_cert_def PC_GetSigners_def ids by fastforce
  show "set (PC_GetSigners (bc_Partial x)) = set (mkeys m)"
    unfolding PC_GetSigners_def ids by (rule is_orderD(1) [OF assms(2)])
qed

lemma genuine_cert_unsigned: "PC_GetSigners (bc_Partial x) = [] \<Longrightarrow> genuine_cert E c x"
  by (simp add: genuine_cert_def)

lemma BC_ToProto_Partial: "bc_Partial (snd (BC_ToProto E x)) = bc_Partial x"
  by (induction E x rule: BC_ToProto.induct) (subst BC_ToProto.simps, auto simp: Let_def split: option.splits)

lemma counted_votes_put: "counted_votes E c m \<Longrightarrow> vote_accepted E c vt \<Longrightarrow> counted_votes E c (mput (Vote_GetVoter vt) vt m)"
  by (auto simp: counted_votes_def)

lemma counted_votes_Nil [simp]: "counted_votes E c []"
  by (simp add: counted_votes_def)

lemma certs_inv_votes: "certs_inv E c s \<Longrightarrow> counted_votes E c (vh_votes s)"
  by (auto simp: certs_inv_def vh_votes_def split: option.split)

lemma set_tail: "i < length xs \<Longrightarrow> as \<in> set (xs[i := ys]) \<Longrightarrow> as = ys \<or> as \<in> set xs"
  using set_update_subset_insert [of xs i ys] by auto

lemma certs_inv_goroutines:
  assumes "certs_inv E c s" and "\<And>gs x n. gs \<in> set G \<Longrightarrow> Act_addCert x n \<in> set gs \<Longrightarrow> genuine_cert E c x"
  shows "certs_inv E c (s\<lparr>goroutines := G\<rparr>)"
  using assms by (simp add: certs_inv_def)

lemma certs_inv_pending:
  "certs_inv E c s \<Longrightarrow> gs \<in> set (goroutines s) \<Longrightarrow> Act_addCert x n \<in> set gs \<Longrightarrow> genuine_cert E c x"
  unfolding certs_inv_def by blast

lemma certs_inv_addCert: "certs_inv E c s \<Longrightarrow> genuine_cert E c x \<Longrightarrow> certs_inv E c (addCert x n s)"
  by (simp add: certs_inv_def)

interpretation certs: node_invariant E "certs_inv E c"
  for E c
proof unfold_locales
  show "certs_inv E c s \<Longrightarrow> core s' = core s \<Longrightarrow> certs_inv E c s'" for s s'
    by (erule certs_inv_cong) (erule coreD)+
  show taken: "certs_inv E c (s\<lparr>goroutines := (goroutines s)[i := as]\<rparr>)"
    if inv: "certs_inv E c s" and i: "i < length (goroutines s)" "goroutines s ! i = a # as" for s i a as
    using inv
  proof (rule certs_inv_goroutines)
    fix gs x n assume "gs \<in> set ((goroutines s)[i := as])" and x: "Act_addCert x n \<in> set gs"
    then consider "gs = as" | "gs \<in> set (goroutines s)"
      using set_tail [OF i(1)] by blast
    then show "genuine_cert E c x"
      by cases (use x certs_inv_pending [OF inv] nth_mem [OF i(1)] i(2) in \<open>metis list.set_intros(2)\<close>)+
  qed
  show "certs_inv E c (spawn as s)"
    if inv: "certs_inv E c s" and new: "\<And>x n. Act_addCert x n \<in> set as \<Longrightarrow>
      n = view s \<and> (\<exists>r h v. is_order r \<and> NewCert E r (vh_votes s) h v = Inr x)"
    for s as
    unfolding spawn_def using inv
  proof (rule certs_inv_goroutines)
    fix gs x n assume "gs \<in> set (goroutines s @ [as])" and x: "Act_addCert x n \<in> set gs"
    then consider "gs = as" | "gs \<in> set (goroutines s)"
      by auto
    then show "genuine_cert E c x"
      by cases (use x new NewCert_genuine(1) [OF certs_inv_votes [OF inv]] certs_inv_pending [OF inv] in blast)+
  qed
  show "certs_inv E c (addCert x n (s\<lparr>goroutines := (goroutines s)[i := as]\<rparr>))"
    if "certs_inv E c s" "i < length (goroutines s)" "goroutines s ! i = Act_addCert x n # as" for s i x n as
    using certs_inv_pending [OF that(1) nth_mem [OF that(2)], of x n] that(3)
    by (intro certs_inv_addCert taken [OF that]) simp
  show "certs_inv E c (addCert (snd (BC_ToProto E x)) n s)"
    if "certs_inv E c s" "mget (certMap s) n = Some x" for s n x
    using that by (intro certs_inv_addCert) (simp_all add: certs_inv_def genuine_cert_def BC_ToProto_Partial)
  show "certs_inv E c (addCert (BC_SetBlockInfo E h v BlockCertificate_zero) n s)" if "certs_inv E c s" for s h v n
    using that by (intro certs_inv_addCert genuine_cert_unsigned)
      (simp_all add: BC_SetBlockInfo_def BlockCertificate_zero_def PC_GetSigners_def PartialCertificate_zero_def)
  show "certs_inv E c (vh_open s)" if "certs_inv E c s" for s
    using that by (auto simp: certs_inv_def vh_open_def split: option.split)
  show "certs_inv E c (s\<lparr>vh_voteMap := mput (view s) (mput (Vote_GetVoter vt) vt (vh_votes s)) (vh_voteMap s)\<rparr>)"
    if "certs_inv E c s" "vote_accepted E (cfg s) vt" for s vt
    using that counted_votes_put [OF certs_inv_votes [OF that(1)]] by (auto simp: certs_inv_def)
  show "certs_inv E c (s\<lparr>vh_isCertified := mput (view s) True (vh_isCertified s)\<rparr>)"
    if "certs_inv E c s" "mget (vh_voteMap s) (view s) \<noteq> None" for s
    using that by (auto simp: certs_inv_def)
qed (auto dest!: update_frames elim!: certs_inv_cong)

section \<open>Channels\<close>

definition channels_inv :: "SyncHS \<Rightarrow> bool" where
  "channels_inv s \<longleftrightarrow> length (msgChannel s) \<le> ProtocolMsgBuffer \<and> length (voteChannel s) \<le> ProtocolMsgBuffer
     \<and> length (proposeChannel s) \<le> ProtocolMsgBuffer \<and> length (eqEvidenceChannel s) \<le> ProtocolMsgBuffer
     \<and> length (maliProEvidenceChannel s) \<le> ProtocolMsgBuffer
     \<and> length (maliVoteEvidenceChannel s) \<le> ProtocolMsgBuffer
     \<and> length (maliPropseChannel s) \<le> ProtocolMsgBuffer \<and> length (SyncChannel s) \<le> 1"

lemma channels_inv_le: "channels_inv s \<Longrightarrow> chan_le s' s \<Longrightarrow> channels_inv s'"
  unfolding channels_inv_def chan_le_def by linarith

lemma chan_le_frames:
  "chan_le (addEquiProposaltoMap s) s" "chan_le (addWitholdProposaltoMap s) s" "chan_le (addProposaltoMap s) s"
  "chan_le (spawn as s) s" "chan_le (addCert x n s) s" "chan_le (vh_open s) s"
  "chan_le (addNewViewReputaiontoMap E rss s) s" "chan_le (initialReputationMap s) s"
  "chan_le (s\<lparr>vh_voteMap := x1\<rparr>) s" "chan_le (s\<lparr>vh_isCertified := x2\<rparr>) s" "chan_le (s\<lparr>bc := x3\<rparr>) s"
  "chan_le (s\<lparr>goroutines := x4\<rparr>) s" "chan_le (addCert x n (s\<lparr>goroutines := x5\<rparr>)) s"
  "chan_le (s\<lparr>voteMap := y1\<rparr>) s" "chan_le (s\<lparr>voteMaliMap := y1\<rparr>) s" "chan_le (s\<lparr>maliproposalMap := y1\<rparr>) s"
  "chan_le (s\<lparr>view := y2, leader := y3\<rparr>) s"
  by (simp_all add: chan_le_def spawn_def addCert_def addEquiProposaltoMap_def addWitholdProposaltoMap_def
      addProposaltoMap_def vh_open_def addNewView_eq initialReputation_eq split: option.split)

interpretation channels: node_invariant E channels_inv
  for E
  by unfold_locales (auto elim!: channels_inv_le intro!: chan_le_frames dest!: update_frames)

section \<open>Every reachable state\<close>

lemma boot_sel [simp]:
  "cfg (Setup dial peers s) = cfg s" "view (Setup dial peers s) = view s" "leader (Setup dial peers s) = leader s"
  "reputationMap (Setup dial peers s) = reputationMap s" "certMap (Setup dial peers s) = certMap s"
  "initialReplicaSore (Setup dial peers s) = initialReplicaSore s" "bc (Setup dial peers s) = NewChain"
  "vh_voteMap (Setup dial peers s) = vh_voteMap s" "vh_isCertified (Setup dial peers s) = vh_isCertified s"
  "goroutines (Setup dial peers s) = goroutines s" "wf_behaviour (Setup dial peers s) = wf_behaviour s"
  "channels_inv (Setup dial peers s) = channels_inv s"
  by (simp_all add: Setup_def wf_behaviour_def channels_inv_def)

lemma boot_invariants:
  "rounds_inv c (Setup dial peers (Init E c SyncHS_zero))" "wf_behaviour (Setup dial peers (Init E c SyncHS_zero))"
  "reputation_inv (Setup dial peers (Init E c SyncHS_zero))" "chain_inv E (Setup dial peers (Init E c SyncHS_zero))"
  "certs_inv E c (Setup dial peers (Init E c SyncHS_zero))" "channels_inv (Setup dial peers (Init E c SyncHS_zero))"
proof -
  show "rounds_inv c (Setup dial peers (Init E c SyncHS_zero))"
    by (auto simp: rounds_inv_def Init_def DefaultLeaderID_def word_gt_0)
  show "wf_behaviour (Setup dial peers (Init E c SyncHS_zero))" "channels_inv (Setup dial peers (Init E c SyncHS_zero))"
    by (simp_all add: Init_def Setup_def wf_behaviour_def channels_inv_def)
  have "0 < dval (bf_dy (SetFloat64 f64_1em6))"
    using bfval_init init_bounds(1) by (simp add: bfval_def initialNodescore_def)
  then show "reputation_inv (Setup dial peers (Init E c SyncHS_zero))"
    by (simp add: reputation_inv_def Init_def view_reps_def reps_positive_def dval_pos)
  show "chain_inv E (Setup dial peers (Init E c SyncHS_zero))"
    by (simp add: chain_inv_def NewChain_def)
  have "genuine_cert E c (GenesisCert E)"
    by (rule genuine_cert_unsigned) (simp add: GenesisCert_def BlockCertificate_zero_def PartialCertificate_zero_def PC_GetSigners_def)
  then show "certs_inv E c (Setup dial peers (Init E c SyncHS_zero))"
    by (simp add: certs_inv_def Init_def SyncHS_zero_def)
qed

lemma reachable_invariants:
  assumes "reachable H E c peers s"
  shows "rounds_inv c s" and "wf_behaviour s" and "reputation_inv s" and "chain_inv E s" and "certs_inv E c s"
    and "channels_inv s"
proof -
  show "rounds_inv c s" using rounds.I_reachable [OF assms boot_invariants(1)] .
  show "wf_behaviour s" using behaviour.I_reachable [OF assms boot_invariants(2)] .
  show "reputation_inv s" using reputations.I_reachable [OF assms boot_invariants(3)] .
  show "chain_inv E s" using chain.I_reachable [OF assms boot_invariants(4)] .
  show "certs_inv E c s" using certs.I_reachable [OF assms boot_invariants(5)] .
  show "channels_inv s" using channels.I_reachable [OF assms boot_invariants(6)] .
qed

end
