(* ===== verification/Replica_Properties.thy ===== *)
theory Replica_Properties
  imports Node_Safety
begin

text \<open>
  What holds of a replica in every reachable state, whatever the other replicas, the clients and the
  scheduler do: the invariants of \<open>Node_Safety\<close> stated over the state, and what the vote handler does
  there.
\<close>

section \<open>The outcomes of the vote handler\<close>

text \<open>The state in which the handler sums up reputations: the vote recorded and counted.\<close>

definition vote_counted :: "Vote \<Rightarrow> SyncHS \<Rightarrow> SyncHS" where
  "vote_counted v s = s\<lparr>vh_voteMap := mput (view s) (mput (Vote_GetVoter v) v (vh_votes s)) (vh_voteMap s)\<rparr>"

lemma vote_counted_sel [simp]:
  "view (vote_counted v s) = view s" "cfg (vote_counted v s) = cfg s" "goroutines (vote_counted v s) = goroutines s"
  "view_reps n (vote_counted v s) = view_reps n s" "vh_isCertified (vote_counted v s) = vh_isCertified s"
  "vh_votes (vote_counted v s) = mput (Vote_GetVoter v) v (vh_votes s)"
  by (simp_all add: vote_counted_def view_reps_def vh_votes_def)

lemma addVotetoMap_sel:
  assumes "addVotetoMap pv s = Inr s'"
  shows "view s' = view s" "cfg s' = cfg s" "goroutines s' = goroutines s" "view_reps n s' = view_reps n s"
    "vh_isCertified s' = vh_isCertified s" "vh_votes s' = vh_votes s"
  using recorders_frame(1) [OF assms] by (auto simp: view_reps_def vh_votes_def)

lemma view_reps_frame [simp]:
  "view_reps n (vh_open s) = view_reps n s" "view_reps n (s\<lparr>voteChannel := vs\<rparr>) = view_reps n s"
  by (simp_all add: view_reps_def)

lemma Vote_ToProto_same [simp]:
  "Vote_GetVoter (snd (Vote_ToProto v)) = Vote_GetVoter v" "Vote_GetBlockHash (snd (Vote_ToProto v)) = Vote_GetBlockHash v"
  "Vote_GetView (snd (Vote_ToProto v)) = Vote_GetView v" "vote_accepted E c (snd (Vote_ToProto v)) = vote_accepted E c v"
  by (auto simp: vote_accepted_def Vote_ToProto_def Vote_GetBlockHash_def Vote_GetView_def Vote_GetVoter_def Vote_GetSignature_def Let_def split: option.split)

lemma vh_count_eq:
  "vh_count E rs v s = bind_r (addVotetoMap (fst (Vote_ToProto v)) s) (\<lambda>s1.
     if mget (vh_isCertified s1) (view s1) = Some True then Inr s1
     else vh_certify E rs (snd (Vote_ToProto v)) (vote_counted (snd (Vote_ToProto v)) s1))"
  by (simp add: vh_count_def case_prod_beta vote_counted_def cong: if_cong)

lemma vh_count_cases:
  assumes "vh_count E rs v s = Inr s'"
  obtains (late) "addVotetoMap (fst (Vote_ToProto v)) s = Inr s'" "mget (vh_isCertified s) (view s) = Some True"
  | (counted) s1 where "addVotetoMap (fst (Vote_ToProto v)) s = Inr s1" "s' = vote_counted (snd (Vote_ToProto v)) s1"
      "enough_reputation rs s' (mkeys (vh_votes s')) = Inr False"
  | (certified) s1 x where "addVotetoMap (fst (Vote_ToProto v)) s = Inr s1" "mget (vh_isCertified s) (view s) \<noteq> Some True"
      "enough_reputation rs (vote_counted (snd (Vote_ToProto v)) s1) (mkeys (vh_votes (vote_counted (snd (Vote_ToProto v)) s1))) = Inr True"
      "NewCert E (rs 3) (vh_votes (vote_counted (snd (Vote_ToProto v)) s1)) (ToHash E (Vote_GetBlockHash v)) (Vote_GetView v) = Inr x"
      "s' = spawn [Act_addCert x (view s)]
         ((vote_counted (snd (Vote_ToProto v)) s1)\<lparr>vh_isCertified := mput (view s) True (vh_isCertified s1)\<rparr>)"
proof -
  obtain s1 where s1: "addVotetoMap (fst (Vote_ToProto v)) s = Inr s1" and
    rest: "(if mget (vh_isCertified s1) (view s1) = Some True then Inr s1
       else vh_certify E rs (snd (Vote_ToProto v)) (vote_counted (snd (Vote_ToProto v)) s1)) = Inr s'"
    using assms unfolding vh_count_eq bind_r_eq_Inr by (elim exE conjE)
  note sel = addVotetoMap_sel [OF s1]
  show thesis
  proof (cases "mget (vh_isCertified s) (view s) = Some True")
    case True
    then show ?thesis
      using late s1 rest by (simp add: sel)
  next
    case False
    let ?v = "snd (Vote_ToProto v)"
    have cert: "vh_certify E rs ?v (vote_counted ?v s1) = Inr s'"
      using rest False by (simp add: sel(1,5))
    then obtain b where b: "enough_reputation rs (vote_counted ?v s1) (mkeys (vh_votes (vote_counted ?v s1))) = Inr b"
      unfolding vh_certify_def bind_r_eq_Inr by blast
    show ?thesis
    proof (cases b)
      case True
      obtain x where "NewCert E (rs 3) (vh_votes (vote_counted ?v s1)) (ToHash E (Vote_GetBlockHash ?v)) (Vote_GetView ?v) = Inr x"
        by (rule NewCert_ok)
      then show ?thesis
        using cert b True unfolding vh_certify_def
        by (intro certified [OF s1 False]) (auto simp: sel(1) simp del: vote_counted_sel(6))
    next
      case False
      then show ?thesis
        using cert b unfolding vh_certify_def by (intro counted [OF s1]) auto
    qed
  qed
qed

lemma voteHandler_cases:
  assumes "voteHandler E rs v s = Inr s'"
  obtains (evidence) "s' = spawn [Act_sendMalivoteEvidenceCall v] s"
  | (ignored) "s' = vh_open s"
  | (count) "vote_accepted E (cfg s) v" "mget (vh_votes (vh_open s)) (Vote_GetVoter v) = None"
      "vh_count E rs v (vh_open s) = Inr s'"
proof -
  obtain owner where "Vote_Owner v = Inr owner"
    using assms by (auto simp: voteHandler_def bind_r_eq_Inr)
  then consider "s' = spawn [Act_sendMalivoteEvidenceCall v] s" | "s' = vh_open s"
    | "(if Vote_GetVoter v \<noteq> GetID (cfg s) then isVoteValid E (vh_open s) v else Inr True) = Inr True"
      "mget (vh_votes (vh_open s)) (Vote_GetVoter v) = None" "vh_count E rs v (vh_open s) = Inr s'"
    using assms by (auto simp: voteHandler_def bind_r_eq_Inr Let_def split: if_splits)
  then show thesis
  proof cases
    case 3
    then show ?thesis
      using isVoteValid_accepted [of E "vh_open s" v] by (intro count) (auto simp: vote_accepted_def split: if_splits)
  qed (auto intro: evidence ignored)
qed

section \<open>Certificates\<close>

lemma range_values_mem:
  assumes "is_order r" and "mget m i = Some x"
  shows "x \<in> set (range_values r m)"
proof -
  have "i \<in> set (r (mkeys m))"
    unfolding is_orderD(1) [OF assms(1)] set_mkeys using assms(2) by (rule domI)
  then have "the (mget m i) \<in> set (range_values r m)"
    unfolding range_values_def set_map by (rule imageI)
  then show ?thesis
    using assms(2) by simp
qed

lemma vh_votes_open [simp]: "vh_votes (vh_open s) = vh_votes s"
  by (simp add: vh_open_def vh_votes_def split: option.split)


lemma certs_inv_counted:
  assumes "certs_inv E c s" and "addVotetoMap pv (vh_open s) = Inr s1" and "vote_accepted E (cfg s) v"
  shows "certs_inv E c (vote_counted v s1)"
proof -
  have "certs_inv E c s1"
    using certs.rec_vote [OF certs.opened [OF assms(1)] assms(2)] .
  then show ?thesis
    using certs.counted [of E c s1 v] assms(3) addVotetoMap_sel(2) [OF assms(2)] by (simp add: vote_counted_def)
qed

lemma receive_frame:
  assumes "reachable H E c peers s"
  shows "certs_inv E c (s\<lparr>voteChannel := vs\<rparr>)" "reputation_inv (s\<lparr>voteChannel := vs\<rparr>)"
proof -
  show "certs_inv E c (s\<lparr>voteChannel := vs\<rparr>)"
    using reachable_invariants(5) [OF assms] by (rule certs_inv_cong) simp_all
  show "reputation_inv (s\<lparr>voteChannel := vs\<rparr>)"
    using reachable_invariants(3) [OF assms] by (rule reputation_inv_cong) simp_all
qed

lemma built_certificate:
  assumes "reachable H E c peers s" and "voteChannel s = v # vs" and "\<forall>k. is_order (rs k)"
    and "voteHandler E rs v (s\<lparr>voteChannel := vs\<rparr>) = Inr s'"
    and "goroutines s' = goroutines s @ [[Act_addCert x n]]"
  shows "n = view s" and "genuine_cert E c x" and "reps_positive (view_reps n s)"
    and "set (PC_GetSigners (bc_Partial x)) \<subseteq> set (mkeys (view_reps n s))"
    and "(1 - rep_slack (view_reps n s)) * rep_total (view_reps n s) / 2
      \<le> (\<Sum>i\<in>set (PC_GetSigners (bc_Partial x)). rep_weight (view_reps n s) i)"
proof -
  let ?s = "s\<lparr>voteChannel := vs\<rparr>"
  have count: "vote_accepted E (cfg ?s) v" "vh_count E rs v (vh_open ?s) = Inr s'"
    using assms(4,5) by (cases rule: voteHandler_cases; simp)+
  from count(2) have "n = view s \<and> genuine_cert E c x \<and> reps_positive (view_reps n s)
    \<and> set (PC_GetSigners (bc_Partial x)) \<subseteq> set (mkeys (view_reps n s))
    \<and> (1 - rep_slack (view_reps n s)) * rep_total (view_reps n s) / 2
        \<le> (\<Sum>i\<in>set (PC_GetSigners (bc_Partial x)). rep_weight (view_reps n s) i)"
  proof (cases rule: vh_count_cases)
    case late
    then show ?thesis
      using addVotetoMap_sel(3) [OF late(1)] assms(5) by simp
  next
    case (counted s1)
    then show ?thesis
      using addVotetoMap_sel(3) [OF counted(1)] assms(5) by simp
  next
    case (certified s1 y)
    let ?t = "vote_counted (snd (Vote_ToProto v)) s1"
    note sel = addVotetoMap_sel [OF certified(1)]
    have xn: "y = x" "n = view s"
      using certified(5) assms(5) by (simp_all add: sel)
    have reps: "view_reps k ?t = view_reps k s" "view ?t = view s" for k
      by (simp_all add: sel)
    have votes: "counted_votes E c (vh_votes ?t)"
      by (intro certs_inv_votes certs_inv_counted [OF receive_frame(1) [OF assms(1)] certified(1)]) (use count in simp)
    have pos: "reps_positive (view_reps (view ?t) ?t)"
      using receive_frame(2) [OF assms(1), of vs] by (simp only: reps) (simp add: reputation_inv_def view_reps_def)
    moreover from pos have "reps_positive (view_reps n s)"
      unfolding reps xn .
    moreover have "distinct (mkeys (vh_votes ?t))"
      using votes unfolding counted_votes_def wf_map_def by blast
    ultimately have pos': "reps_positive (view_reps n s)" and weight: "set (mkeys (vh_votes ?t)) \<subseteq> set (mkeys (view_reps n s))
        \<and> (1 - rep_slack (view_reps n s)) * rep_total (view_reps n s) / 2
            \<le> (\<Sum>i\<in>set (mkeys (vh_votes ?t)). rep_weight (view_reps n s) i)"
      using enough_reputation_weight [OF _ assms(3) _ certified(3)] unfolding reps xn by blast+
    have cert: "genuine_cert E c x" and signers: "set (PC_GetSigners (bc_Partial x)) = set (mkeys (vh_votes ?t))"
      using NewCert_genuine [OF votes _ certified(4)] assms(3) unfolding xn by blast+
    show ?thesis
      unfolding signers using xn(2) weight cert pos' by blast
  qed
  then show "n = view s" "genuine_cert E c x" "reps_positive (view_reps n s)"
    "set (PC_GetSigners (bc_Partial x)) \<subseteq> set (mkeys (view_reps n s))"
    "(1 - rep_slack (view_reps n s)) * rep_total (view_reps n s) / 2
      \<le> (\<Sum>i\<in>set (PC_GetSigners (bc_Partial x)). rep_weight (view_reps n s) i)"
    by blast+
qed

text \<open>C1. What a certificate stands for. Whenever the vote handler of a replica in a reachable state
  builds a certificate, the certificate is for the current view, its signers are distinct, each of
  them is the author of a vote that the replica accepted and whose signature is the one in the
  certificate, each has a reputation in this view, and together they hold at least half of the whole
  reputation, up to the rounding error of the floating-point sums.\<close>

theorem certificate_has_quorum:
  assumes "reachable H E c peers s" and "voteChannel s = v # vs" and "\<forall>k. is_order (rs k)"
    and "voteHandler E rs v (s\<lparr>voteChannel := vs\<rparr>) = Inr s'"
    and "goroutines s' = goroutines s @ [[Act_addCert x n]]"
  shows "n = view s \<and> genuine_cert E c x
    \<and> set (PC_GetSigners (bc_Partial x)) \<subseteq> set (mkeys (view_reps n s))
    \<and> (1 - rep_slack (view_reps n s)) * rep_total (view_reps n s) / 2
        \<le> (\<Sum>i\<in>set (PC_GetSigners (bc_Partial x)). rep_weight (view_reps n s) i)"
  using built_certificate [OF assms] by blast

theorem certificate_has_quorum_witness:
  "\<exists>x. goroutines round_voted = goroutines round_ready @ [[Act_addCert x 1]]
     \<and> genuine_cert round_env (sample_cfg 0 3) x \<and> PC_GetSigners (bc_Partial x) = [1, 2]
     \<and> (1 - rep_slack (view_reps 1 round_ready)) * rep_total (view_reps 1 round_ready) / 2
        \<le> (\<Sum>i\<in>{1, 2}. rep_weight (view_reps 1 round_ready) i)"
proof -
  obtain x where x: "goroutines round_voted = goroutines round_ready @ [[Act_addCert x 1]]" "pc_ids (bc_Partial x) = [1, 2]"
    using round_voted_facts(5) by blast
  have sig: "PC_GetSigners (bc_Partial x) = [1, 2]" and ord: "\<forall>k. is_order (o_maps plain_orders k)"
    using x(2) by (simp_all add: PC_GetSigners_def plain_orders_def)
  have "voteHandler round_env (o_maps plain_orders) (Vote_FromProto (sample_ballot 2))
      (round_ready\<lparr>voteChannel := [Vote_FromProto (sample_ballot 0)]\<rparr>)
      = Inr round_voted"
    using round_runs(2) unfolding exec_def round_ready_facts(1) by simp
  from certificate_has_quorum [OF round_reachable(2) round_ready_facts(1) ord this x(1)]
  show ?thesis
    unfolding sig list.set using x(1) sig by blast
qed

text \<open>C3. Every certificate a replica has stored, the genesis certificate and the certificates of empty
  blocks included, has distinct signers, and each of them is the author of a vote that the replica
  accepted, whose signature is the one the certificate shows.\<close>

theorem stored_certificates_genuine:
  assumes "reachable H E c peers s" and "getCertForBlockIndex n s = Some x"
  shows "distinct (PC_GetSigners (bc_Partial x))
    \<and> (\<forall>i \<in> set (PC_GetSigners (bc_Partial x)). \<exists>vt. Vote_GetVoter vt = i \<and> vote_accepted E c vt
          \<and> PC_GetSignatureFromID i (bc_Partial x) = Some (Vote_GetSignature vt))"
  using reachable_invariants(5) [OF assms(1)] assms(2)
  unfolding certs_inv_def genuine_cert_def getCertForBlockIndex_def by blast

theorem stored_certificates_genuine_witness:
  "\<exists>x vt. getCertForBlockIndex 1 round_certified = Some x \<and> PC_GetSigners (bc_Partial x) = [1, 2]
     \<and> Vote_GetVoter vt = 2 \<and> vote_accepted round_env (sample_cfg 0 3) vt
     \<and> PC_GetSignatureFromID 2 (bc_Partial x) = Some (Vote_GetSignature vt)"
proof -
  obtain x where x: "getCertForBlockIndex 1 round_certified = Some x" "PC_GetSigners (bc_Partial x) = [1, 2]"
    using round_certified_facts(1) by (auto simp: getCertForBlockIndex_def PC_GetSigners_def)
  then have "2 \<in> set (PC_GetSigners (bc_Partial x))"
    by simp
  then show ?thesis
    using stored_certificates_genuine [OF round_reachable(4) x(1)] x by blast
qed

lemma rounds_counted:
  assumes "((\<lambda>s s'. node_step H E s (Inr s')) ^^ m) (Setup dial peers (Init E c SyncHS_zero)) s"
  shows "cfg s = c \<and> (\<exists>k \<le> m. view s = word_of_nat (Suc k) \<and> (GetNumNodes c \<noteq> 0 \<longrightarrow> unat (leader s) = k mod unat (GetNumNodes c)))"
  using assms
proof (induction m arbitrary: s)
  case 0
  then show ?case
    by (auto simp: Setup_def Init_def DefaultLeaderID_def)
next
  case (Suc m)
  let ?n = "GetNumNodes c"
  obtain t where t: "((\<lambda>s s'. node_step H E s (Inr s')) ^^ m) (Setup dial peers (Init E c SyncHS_zero)) t" "node_step H E t (Inr s)"
    using Suc.prems by (rule relpowp_Suc_E)
  obtain k where k: "cfg t = c" "k \<le> m" "view t = word_of_nat (Suc k)" "?n \<noteq> 0 \<longrightarrow> unat (leader t) = k mod unat ?n"
    using Suc.IH [OF t(1)] by blast
  show ?case
  proof (cases "view s = view t \<and> leader s = leader t")
    case True
    then show ?thesis
      using k step_rotates [OF t(2)] by (intro conjI exI [of _ k]) auto
  next
    case False
    then have s: "cfg s = c" "view s = view t + 1" "leader s = (leader t + 1) mod ?n" "?n \<noteq> 0"
      using step_rotates [OF t(2)] k(1) by auto
    have "leader t < ?n"
      using k(4) s(4) by (simp add: word_less_nat_alt unat_gt_0)
    then have "unat (leader s) = Suc k mod unat ?n"
      using changeLeader_unat [of t "t\<lparr>leader := leader s\<rparr>"] k(1,4) s(3,4) by (simp add: changeLeader_def mod_Suc_eq)
    then show ?thesis
      using s k(2,3) by (intro conjI exI [of _ "Suc k"]) (simp_all add: add.commute add.left_commute)
  qed
qed

text \<open>C5. Leaders rotate. After any number of steps from the start, a step either stays in its view with
  its leader, or goes to the next view and to the next leader modulo the number of nodes. Hence, as long as
  the number of steps is too small for the view to wrap around, the leader is determined by the view: it
  is the view minus one, modulo the number of nodes, so replicas in the same view have the same leader.\<close>

theorem leader_rotation:
  assumes "((\<lambda>s s'. node_step H E s (Inr s')) ^^ m) (Setup dial peers (Init E c SyncHS_zero)) s" and "GetNumNodes c \<noteq> 0"
  shows "(m < 2 ^ 64 - 1 \<longrightarrow> 0 < unat (view s) \<and> unat (leader s) = (unat (view s) - 1) mod unat (GetNumNodes c))
    \<and> (node_step H E s (Inr s') \<longrightarrow> view s' = view s \<and> leader s' = leader s
         \<or> view s' = view s + 1 \<and> leader s' = (leader s + 1) mod GetNumNodes c)"
proof -
  obtain k where k: "cfg s = c" "k \<le> m" "view s = word_of_nat (Suc k)" "unat (leader s) = k mod unat (GetNumNodes c)"
    using rounds_counted [OF assms(1)] assms(2) by blast
  have "unat (view s) = Suc k" if "m < 2 ^ 64 - 1"
    using k(2) that unfolding k(3) unat_of_nat by simp
  then show ?thesis
    using k(1,4) step_rotates [of H E s s'] by auto
qed

theorem leader_rotation_witness:
  "\<exists>s. ((\<lambda>s s'. node_step Start_handlers round_env s (Inr s')) ^^ 19) follower_boot s
     \<and> view s = 2 \<and> unat (leader s) = (unat (view s) - 1) mod 2"
proof -
  obtain s where s: "exec_all round_env (follower_round @ [Ev_timeout]) follower_boot = Some (Inr s)" "view s = 2"
    using follower_round_ends by blast
  have len: "length (follower_round @ [Ev_timeout]) = 19"
    by (simp add: follower_round_def)
  have run: "((\<lambda>s s'. node_step Start_handlers round_env s (Inr s')) ^^ 19) follower_boot s"
    using exec_all_steps [OF s(1)] unfolding len .
  have n: "GetNumNodes (sample_cfg 1 2) = 2"
    by code_simp
  show ?thesis
    using leader_rotation [OF run [unfolded follower_boot_def]] run s(2) unfolding n by auto
qed

text \<open>C7. Reputations stay positive: in every view and every reachable state, whatever was recorded
  about a node and whatever \<open>tanh\<close> returned, each node with a reputation has a positive one and has it
  once. This is what the quorum theorems assume.\<close>

theorem reputations_positive:
  assumes "reachable H E c peers s"
  shows "reps_positive (view_reps v s)"
  using reachable_invariants(3) [OF assms] by (simp add: reputation_inv_def)

theorem reputations_positive_witness:
  "reps_positive (view_reps 1 round_ready) \<and> set (mkeys (view_reps 1 round_ready)) = {0, 1, 2}"
  using reputations_positive [OF round_reachable(2), of 1] round_ready_facts(4) by simp

text \<open>C6. The two indexes of the chain agree: a block found by height has that height in its header, a
  block found by hash has that hash, and the hash of every block found by height is known.\<close>

theorem block_store_consistent:
  assumes "reachable H E c peers s"
  shows "(mget (BlocksByHeight (bc s)) h = Some b \<longrightarrow> ExtBlock_GetHeight b = Inr h
        \<and> (\<exists>x. ExtBlock_GetBlockHash E b = Inr x \<and> getBlock x s \<noteq> None))
    \<and> (getBlock y s = Some b' \<longrightarrow> ExtBlock_GetBlockHash E b' = Inr y)"
proof -
  have inv: "chain_inv E s"
    by (rule reachable_invariants(4) [OF assms])
  have "ExtBlock_GetHeight b = Inr h \<and> (\<exists>x. ExtBlock_GetBlockHash E b = Inr x \<and> mget (BlocksByHash (bc s)) x \<noteq> None)"
    if b: "mget (BlocksByHeight (bc s)) h = Some b"
  proof -
    obtain d where d: "b = ext_of E d" "ProtoHeader_GetHeight (pb_Header d) = h"
      using inv b unfolding chain_inv_def by blast
    then obtain x where "ExtBlock_GetBlockHash E b = Inr x"
      by (auto simp: GetBlockHash_ext_of)
    then show ?thesis
      using inv b d unfolding chain_inv_def by auto
  qed
  then show ?thesis
    using inv unfolding chain_inv_def getBlock_def by blast
qed

theorem block_store_consistent_witness:
  "\<exists>b x. mget (BlocksByHeight (bc follower_accepted)) 1 = Some b \<and> ExtBlock_GetHeight b = Inr 1
     \<and> ExtBlock_GetBlockHash round_env b = Inr x \<and> getBlock x follower_accepted \<noteq> None"
  using block_store_consistent [OF follower_facts(3), of 1 "ext_of round_env (the (pr_Block first_proposal))"]
    follower_facts(2) by blast

text \<open>No channel of a replica ever holds more messages than its buffer: senders block instead.\<close>

lemma channels_bounded:
  assumes "reachable H E c peers s"
  shows "length (msgChannel s) \<le> ProtocolMsgBuffer \<and> length (voteChannel s) \<le> ProtocolMsgBuffer
    \<and> length (proposeChannel s) \<le> ProtocolMsgBuffer \<and> length (eqEvidenceChannel s) \<le> ProtocolMsgBuffer
    \<and> length (maliProEvidenceChannel s) \<le> ProtocolMsgBuffer \<and> length (maliVoteEvidenceChannel s) \<le> ProtocolMsgBuffer
    \<and> length (maliPropseChannel s) \<le> ProtocolMsgBuffer \<and> length (SyncChannel s) \<le> 1"
  using reachable_invariants(6) [OF assms] unfolding channels_inv_def .

text \<open>C9. One certificate per view: once the handler has certified the current view, no later vote
  makes it build another certificate, and the view stays certified.\<close>

theorem certified_once:
  assumes "reachable H E c peers s" and "voteChannel s = v # vs"
    and "mget (vh_isCertified s) (view s) = Some True"
    and "voteHandler E rs v (s\<lparr>voteChannel := vs\<rparr>) = Inr s'"
  shows "mget (vh_isCertified s') (view s') = Some True
    \<and> (\<exists>as. goroutines s' = goroutines s @ as \<and> (\<forall>x n. Act_addCert x n \<notin> set (concat as)))"
proof -
  let ?s = "s\<lparr>voteChannel := vs\<rparr>"
  have "mget (vh_voteMap s) (view s) \<noteq> None"
    using reachable_invariants(5) [OF assms(1)] assms(3) unfolding certs_inv_def by blast
  then have open_s: "vh_open ?s = ?s"
    by (auto simp: vh_open_def)
  from assms(4) show ?thesis
  proof (cases rule: voteHandler_cases)
    case count
    from count(3) show ?thesis
      unfolding open_s
    proof (cases rule: vh_count_cases)
      case late
      then show ?thesis
        using assms(3) by (simp add: addVotetoMap_sel)
    next
      case (counted s1)
      then show ?thesis
        using assms(3) by (simp add: addVotetoMap_sel)
    qed (use assms(3) in simp)
  qed (use assms(3) in \<open>auto simp: open_s\<close>)
qed

theorem certified_once_witness:
  "\<exists>s' as. voteHandler round_env (o_maps plain_orders) (Vote_FromProto (sample_ballot 0)) (round_voted\<lparr>voteChannel := []\<rparr>) = Inr s'
     \<and> mget (vh_isCertified s') (view s') = Some True
     \<and> goroutines s' = goroutines round_voted @ as \<and> (\<forall>x n. Act_addCert x n \<notin> set (concat as))"
proof -
  have c: "mget (vh_isCertified round_voted) (view round_voted) = Some True"
    by (simp add: round_voted_facts)
  obtain s' where
    s': "voteHandler round_env (o_maps plain_orders) (Vote_FromProto (sample_ballot 0)) (round_voted\<lparr>voteChannel := []\<rparr>) = Inr s'"
    using round_voted_facts(4) unfolding exec_def round_voted_facts(3) by auto
  then show ?thesis
    using certified_once [OF round_reachable(3) round_voted_facts(3) c s'] by blast
qed

section \<open>Panics of the vote handler\<close>

lemma isVoteValid_total: "GetPubKeyFromID (cfg s) (Vote_GetVoter v) \<noteq> None \<Longrightarrow> \<exists>b. isVoteValid E s v = Inr b"
  by (auto simp: isVoteValid_def Let_def case_prod_beta)

lemma enough_reputation_total:
  assumes "is_order (rs 0)" and "set voters \<subseteq> dom (mget (view_reps (view s) s))"
  shows "\<exists>b. enough_reputation rs s voters = Inr b"
  using add_reps_acc [of "rs 0 voters" "view_reps (view s) s"] is_orderD(1) [OF assms(1)] assms(2)
  by (auto simp: enough_reputation_def)

lemma vh_certify_total:
  assumes "is_order (rs 0)" and "set (mkeys (vh_votes s)) \<subseteq> dom (mget (view_reps (view s) s))"
  shows "\<exists>s'. vh_certify E rs v s = Inr s'"
proof -
  obtain b where "enough_reputation rs s (mkeys (vh_votes s)) = Inr b"
    using enough_reputation_total [of rs "mkeys (vh_votes s)" s] assms by blast
  moreover obtain x where "NewCert E (rs 3) (vh_votes s) (ToHash E (Vote_GetBlockHash v)) (Vote_GetView v) = Inr x"
    by (rule NewCert_ok)
  ultimately show ?thesis
    by (simp add: vh_certify_def)
qed

lemma counted_votes_known:
  assumes "counted_votes E c m" and "\<forall>i. GetPubKeyFromID c i \<noteq> None \<or> i = GetID c \<longrightarrow> P i"
  shows "\<forall>i \<in> set (mkeys m). P i"
proof
  fix i assume "i \<in> set (mkeys m)"
  then obtain vt where "mget m i = Some vt"
    unfolding set_mkeys by blast
  then have "Vote_GetVoter vt = i" "vote_accepted E c vt"
    using assms(1) unfolding counted_votes_def by blast+
  then show "P i"
    using assms(2) unfolding vote_accepted_def by auto
qed

text \<open>C10. The vote handler does not crash on votes of known nodes: if the vote has its data and its
  body, its author is a configured node, and every configured node has a reputation in the current
  view, then the iteration ends normally in every reachable state, in every loop order.\<close>

theorem voteHandler_no_panic:
  assumes "reachable H E c peers s" and "voteChannel s = Vote_FromProto pv # vs" and "\<forall>k. is_order (rs k)"
    and "pv_Data pv = Some d" and "pv_Body pv = Some b" and "GetPubKeyFromID c (vb_Voter b) \<noteq> None"
    and "\<forall>i. GetPubKeyFromID c i \<noteq> None \<or> i = GetID c \<longrightarrow> mget (view_reps (view s) s) i \<noteq> None"
  shows "\<exists>s'. voteHandler E rs (Vote_FromProto pv) (s\<lparr>voteChannel := vs\<rparr>) = Inr s'"
proof -
  let ?v = "Vote_FromProto pv" and ?s = "vh_open (s\<lparr>voteChannel := vs\<rparr>)"
  have cfg: "cfg s = c"
    using reachable_invariants(5) [OF assms(1)] by (simp add: certs_inv_def)
  have v: "Vote_Owner ?v = Inr (vd_Owner d)" "Vote_ToProto ?v = (pv, ?v)" "Vote_GetVoter ?v = vb_Voter b"
    using assms(4,5) by (simp_all add: Vote_Owner_def Vote_FromProto_def Vote_ToProto_def Vote_GetVoter_def
        ProtoVoteBody_GetVoter_def nil_safe_def)
  obtain valid where valid: "isVoteValid E ?s ?v = Inr valid"
    using isVoteValid_total [of ?s ?v E] assms(6) by (auto simp: v cfg)
  obtain s1 where s1: "addVotetoMap pv ?s = Inr s1"
    using assms(5) by (auto simp: addVotetoMap_def)
  have "\<exists>s'. vh_certify E rs ?v (vote_counted ?v s1) = Inr s'" if "vote_accepted E c ?v"
  proof (rule vh_certify_total)
    have "counted_votes E c (vh_votes (vote_counted ?v s1))"
      by (intro certs_inv_votes certs_inv_counted [OF receive_frame(1) [OF assms(1)] s1]) (simp add: cfg that)
    from counted_votes_known [OF this assms(7)]
    show "set (mkeys (vh_votes (vote_counted ?v s1))) \<subseteq> dom (mget (view_reps (view (vote_counted ?v s1)) (vote_counted ?v s1)))"
      by (auto simp: addVotetoMap_sel [OF s1] simp del: vote_counted_sel(6))
  qed (use assms(3) in blast)
  then have "\<exists>s'. vh_count E rs ?v ?s = Inr s'" if "vote_accepted E c ?v"
    using that by (simp add: vh_count_eq v s1)
  moreover have "vote_accepted E c ?v" if "vb_Voter b = GetID c \<or> valid"
    using that isVoteValid_accepted [of E ?s ?v] valid by (auto simp: vote_accepted_def v cfg)
  ultimately show ?thesis
    using valid by (auto simp: voteHandler_def v cfg Let_def)
qed

theorem voteHandler_no_panic_witness:
  "\<exists>s'. voteHandler round_env (\<lambda>_. rev) (Vote_FromProto (sample_ballot 2))
     (round_ready\<lparr>voteChannel := [Vote_FromProto (sample_ballot 0)]\<rparr>) = Inr s'"
proof -
  have c: "GetPubKeyFromID (sample_cfg 0 3) i \<noteq> None \<longleftrightarrow> i \<in> {0, 1, 2}" "GetID (sample_cfg 0 3) = 0" for i
    by (auto simp: GetPubKeyFromID_def sample_cfg_def GetID_def SyncHSConfig_GetId_def nil_safe_def NodeConfig_zero_def upt_rec)
  have reps: "dom (mget (view_reps (view round_ready) round_ready)) = {0, 1, 2}"
    using round_ready_facts(2,4) unfolding set_mkeys by simp
  show ?thesis
    using reps by (intro voteHandler_no_panic [OF round_reachable(2) round_ready_facts(1)])
      (auto simp: sample_ballot_def Let_def c simp del: not_None_eq)
qed

text \<open>C35. One vote of an unknown author stops a replica: a vote for the current leader that names a
  voter without a configured key dereferences a nil key, which ends the process.\<close>

theorem unknown_voter_panics:
  assumes "v_Data v = Some d" and "vd_Owner d = leader s" and "Vote_GetVoter v \<noteq> GetID (cfg s)"
    and "mget (vh_votes s) (Vote_GetVoter v) = None" and "GetPubKeyFromID (cfg s) (Vote_GetVoter v) = None"
    and "\<not> snd (MarshalVoteData E (v_Data v))"
  shows "voteHandler E rs v s = Inl NilDereference"
  using assms by (simp add: voteHandler_def Vote_Owner_def isVoteValid_def Let_def case_prod_beta)

theorem unknown_voter_panics_witness:
  "voteHandler sample_env (\<lambda>_ ks. ks) (Vote_FromProto (sample_ballot 9)) (sample_node 0 3) = Inl NilDereference"
  by (rule unknown_voter_panics [of _ "\<lparr>vd_BlockHash = sample_hash [7], vd_View = 1, vd_Owner = 0\<rparr>"]; code_simp)

text \<open>C40. A certificate names the block and the view of the last vote counted, and is stored for the
  current view; every vote counted before is in it, whichever block it was for. The handler compares
  neither the blocks nor the views of the votes, so votes for different blocks make one certificate.\<close>

theorem certificate_names_last_vote:
  assumes "voteHandler E rs v s = Inr s'" and "goroutines s' = goroutines s @ [[Act_addCert x n]]" and "\<forall>k. is_order (rs k)"
  shows "bc_data x = \<lparr>vd_BlockHash = HashBytes E (ToHash E (Vote_GetBlockHash v)), vd_View = Vote_GetView v, vd_Owner = 0\<rparr>
    \<and> n = view s \<and> Vote_GetVoter v \<in> set (PC_GetSigners (bc_Partial x))
    \<and> (\<forall>i vt. mget (vh_votes s) i = Some vt \<longrightarrow> Vote_GetVoter vt \<in> set (PC_GetSigners (bc_Partial x)))"
proof -
  have count: "mget (vh_votes s) (Vote_GetVoter v) = None" "vh_count E rs v (vh_open s) = Inr s'"
    using assms(1,2) by (cases rule: voteHandler_cases; simp)+
  from count(2) show ?thesis
  proof (cases rule: vh_count_cases)
    case late
    then show ?thesis
      using addVotetoMap_sel(3) [OF late(1)] assms(2) by simp
  next
    case (counted s1)
    then show ?thesis
      using addVotetoMap_sel(3) [OF counted(1)] assms(2) by simp
  next
    case (certified s1 y)
    let ?m = "mput (Vote_GetVoter v) (snd (Vote_ToProto v)) (vh_votes s)"
    note sel = addVotetoMap_sel [OF certified(1)]
    have xn: "y = x" "n = view s"
      using certified(5) assms(2) by (simp_all add: sel)
    have "NewCert E (rs 3) ?m (ToHash E (Vote_GetBlockHash v)) (Vote_GetView v) = Inr x"
      using certified(4) by (simp add: sel xn)
    then have x: "bc_data x = \<lparr>vd_BlockHash = HashBytes E (ToHash E (Vote_GetBlockHash v)), vd_View = Vote_GetView v, vd_Owner = 0\<rparr>"
      "PC_GetSigners (bc_Partial x) = map Vote_GetVoter (range_values (rs 3) ?m)"
      using NewCert_ok [of E "rs 3" ?m "ToHash E (Vote_GetBlockHash v)" "Vote_GetView v"] by (auto simp: PC_GetSigners_def)
    have member: "Vote_GetVoter vt \<in> set (PC_GetSigners (bc_Partial x))" if "mget ?m i = Some vt" for i vt
      unfolding x(2) using range_values_mem [OF _ that] assms(3) by simp
    have "mget ?m (Vote_GetVoter v) = Some (snd (Vote_ToProto v))"
      by simp
    from member [OF this] have "Vote_GetVoter v \<in> set (PC_GetSigners (bc_Partial x))"
      by simp
    moreover have "mget ?m i = Some vt" if "mget (vh_votes s) i = Some vt" for i vt
      using that count(1) by (cases "i = Vote_GetVoter v") simp_all
    ultimately show ?thesis
      using x(1) xn(2) member by blast
  qed
qed

text \<open>Node 1 votes for one block, node 2 for another one.\<close>

definition other_ballot :: "u64 \<Rightarrow> ProtoVote" where
  "other_ballot i = (let d = \<lparr>vd_BlockHash = sample_hash [8], vd_View = 1, vd_Owner = 0\<rparr> in
     \<lparr>pv_Data = Some d, pv_Body = Some \<lparr>vb_Voter = i, vb_Signature = ucast i # sample_enc_vd d\<rparr>\<rparr>)"

definition one_vote :: SyncHS where
  "one_vote = (case voteHandler sample_env (\<lambda>_ ks. ks) (Vote_FromProto (sample_ballot 1)) (initialReputationMap (sample_node 0 3)) of
     Inr s \<Rightarrow> s | Inl _ \<Rightarrow> sample_node 0 3)"

lemma one_vote_run:
  "(case voteHandler sample_env (\<lambda>_ ks. ks) (Vote_FromProto (sample_ballot 1)) (initialReputationMap (sample_node 0 3)) of
      Inr t \<Rightarrow> map_option Vote_GetBlockHash (mget (vh_votes t) 1) = Some (sample_hash [7]) \<and>
        (case voteHandler sample_env (\<lambda>_ ks. ks) (Vote_FromProto (other_ballot 2)) t of
           Inr s \<Rightarrow> length (goroutines s) = Suc (length (goroutines t)) \<and> butlast (goroutines s) = goroutines t
             \<and> pending_signers (last (goroutines s)) = Some ([1, 2], 1)
         | Inl _ \<Rightarrow> False)
    | Inl _ \<Rightarrow> False)"
  by code_simp

lemma one_vote_facts:
  "(case voteHandler sample_env (\<lambda>_ ks. ks) (Vote_FromProto (other_ballot 2)) one_vote of
      Inr s \<Rightarrow> length (goroutines s) = Suc (length (goroutines one_vote)) \<and> butlast (goroutines s) = goroutines one_vote
        \<and> pending_signers (last (goroutines s)) = Some ([1, 2], 1)
    | Inl _ \<Rightarrow> False)"
  "map_option Vote_GetBlockHash (mget (vh_votes one_vote) 1) = Some (sample_hash [7])"
  using one_vote_run unfolding one_vote_def by (auto split: sum.splits)

theorem certificate_names_last_vote_witness:
  "\<exists>s' x. voteHandler sample_env (\<lambda>_ ks. ks) (Vote_FromProto (other_ballot 2)) one_vote = Inr s'
     \<and> goroutines s' = goroutines one_vote @ [[Act_addCert x 1]] \<and> PC_GetSigners (bc_Partial x) = [1, 2]
     \<and> vd_BlockHash (bc_data x) = sample_hash [8]
     \<and> map_option Vote_GetBlockHash (mget (vh_votes one_vote) 1) = Some (sample_hash [7])"
proof -
  obtain s' where s': "voteHandler sample_env (\<lambda>_ ks. ks) (Vote_FromProto (other_ballot 2)) one_vote = Inr s'"
    "length (goroutines s') = Suc (length (goroutines one_vote))" "butlast (goroutines s') = goroutines one_vote"
    "pending_signers (last (goroutines s')) = Some ([1, 2], 1)"
    using one_vote_facts(1) by (auto split: sum.splits)
  obtain x where x: "goroutines s' = goroutines one_vote @ [[Act_addCert x 1]]" "PC_GetSigners (bc_Partial x) = [1, 2]"
  proof -
    obtain x where "last (goroutines s') = [Act_addCert x 1]" "pc_ids (bc_Partial x) = [1, 2]"
      using pending_signers_Some [OF s'(4)] by blast
    moreover have "goroutines s' = butlast (goroutines s') @ [last (goroutines s')]"
      using s'(2) by (intro append_butlast_last_id [symmetric]) auto
    ultimately show thesis
      using that s'(3) by (simp add: PC_GetSigners_def)
  qed
  moreover have "HashBytes sample_env (ToHash sample_env (Vote_GetBlockHash (Vote_FromProto (other_ballot 2)))) = sample_hash [8]"
    by code_simp
  ultimately show ?thesis
    using certificate_names_last_vote [OF s'(1) x(1)] s'(1) one_vote_facts(2) by simp
qed

end
