(* ===== verification/Quorum_Progress.thy ===== *)
theory Quorum_Progress
  imports Replica_Properties
begin

text \<open>
  Votes over a whole view: in a run of a replica that stays in its view and keeps the reputations of the
  view, enough valid votes end in a certificate, in any order and among any other steps; and the
  certificates of two replicas with the same reputations share a signer.
\<close>

section \<open>Runs within a view\<close>

text \<open>
  A run of the replica in which the vote handler takes the votes \<open>vs\<close>, in this order, from its channel.
  In between come any other steps that leave the view and its reputations as they are: not the end of a
  certified round, and not a new client when it resets reputations that have changed.
\<close>

inductive vote_run :: "handler set \<Rightarrow> env \<Rightarrow> Vote list \<Rightarrow> SyncHS \<Rightarrow> SyncHS \<Rightarrow> bool" for H E where
  finished: "vote_run H E [] s s"
| other: "node_step (H - {H_vote}) E s (Inr s1) \<Longrightarrow> view s1 = view s \<Longrightarrow> view_reps (view s) s1 = view_reps (view s) s \<Longrightarrow>
    vote_run H E vs s1 s' \<Longrightarrow> vote_run H E vs s s'"
| handled: "H_vote \<in> H \<Longrightarrow> orders_ok ord \<Longrightarrow> voteChannel s = v # ch \<Longrightarrow>
    voteHandler E (o_maps ord) v (s\<lparr>voteChannel := ch\<rparr>) = Inr s1 \<Longrightarrow> vote_run H E vs s1 s' \<Longrightarrow> vote_run H E (v # vs) s s'"

text \<open>Such a run is a run of the step relation.\<close>

lemma node_step_mono: "node_step H E s r \<Longrightarrow> H \<subseteq> H' \<Longrightarrow> node_step H' E s r"
  by (induction rule: node_step.induct) (auto intro: node_step.intros)

lemma vote_run_reachable: "vote_run H E vs s s' \<Longrightarrow> reachable H E c peers s \<Longrightarrow> reachable H E c peers s'"
proof (induction rule: vote_run.induct)
  case (other s s1 vs s')
  then show ?case
    using reachable.step node_step_mono [of "H - {H_vote}" E s "Inr s1" H] by blast
next
  case (handled ord s v ch s1 vs s')
  then show ?case
    using reachable.step node_step.vote [of H ord s v ch E] by metis
qed

text \<open>The other steps do not touch the count.\<close>

lemma quiet_step_frame:
  assumes "node_step (H - {H_vote}) E s (Inr s1)" and "view s1 = view s"
  shows "cfg s1 = cfg s" and "leader s1 = leader s" and "vh_voteMap s1 = vh_voteMap s" and "vh_isCertified s1 = vh_isCertified s"
  using step_rotates [OF assms(1)] quiet_step_votes [OF assms(1)] assms(2) by (auto simp: same_votes_def)

text \<open>A vote for the current leader that passes the check or is the replica's own.\<close>

definition good_vote :: "env \<Rightarrow> SyncHS \<Rightarrow> Vote \<Rightarrow> bool" where
  "good_vote E s v \<longleftrightarrow> Vote_Owner v = Inr (leader s) \<and> (Vote_GetVoter v = GetID (cfg s) \<or> isVoteValid E s v = Inr True)"

lemma isVoteValid_cfg:
  assumes "cfg t = cfg s"
  shows "isVoteValid E t v = isVoteValid E s v"
  unfolding isVoteValid_def assms ..

lemma good_vote_cong: "leader t = leader s \<Longrightarrow> cfg t = cfg s \<Longrightarrow> good_vote E t v = good_vote E s v"
  by (simp add: good_vote_def isVoteValid_cfg [of t s])

lemma voteHandler_good:
  assumes "good_vote E s v"
  shows "voteHandler E rs v s = (if mget (vh_votes s) (Vote_GetVoter v) \<noteq> None then Inr (vh_open s) else vh_count E rs v (vh_open s))"
  using assms by (auto simp: voteHandler_def good_vote_def Let_def isVoteValid_cfg [of "vh_open s" s])

section \<open>Progress\<close>

text \<open>What holds while a view is not certified: the counted voters have reputations, but not enough.\<close>

definition too_few :: "SyncHS \<Rightarrow> bool" where
  "too_few s \<longleftrightarrow> distinct (mkeys (vh_votes s)) \<and> set (mkeys (vh_votes s)) \<subseteq> set (mkeys (view_reps (view s) s))
     \<and> (\<Sum>i\<in>set (mkeys (vh_votes s)). rep_weight (view_reps (view s) s) i)
        < (1 + 2 * rep_slack (view_reps (view s) s)) * rep_total (view_reps (view s) s) / 2"

definition view_certified :: "SyncHS \<Rightarrow> bool" where
  "view_certified s \<longleftrightarrow> mget (vh_isCertified s) (view s) = Some True \<and> mget (vh_voteMap s) (view s) \<noteq> None"

lemma vh_open_progress [simp]:
  "mget (vh_voteMap (vh_open s)) (view s) \<noteq> None"
  by (auto simp: vh_open_def split: option.splits)

lemma too_few_open [simp]: "too_few (vh_open s) = too_few s"
  by (simp add: too_few_def)

lemma view_certified_open: "view_certified s \<Longrightarrow> vh_open s = s"
  by (auto simp: view_certified_def vh_open_def)

lemma mkeys_mput_new:
  "mget m i = None \<Longrightarrow> distinct (mkeys m) \<Longrightarrow> distinct (mkeys (mput i x m)) \<and> set (mkeys (mput i x m)) = insert i (set (mkeys m))"
  by (induction m) (auto simp: dom_update split: if_splits)

text \<open>A vote that is counted without ending the view has an author with a reputation.\<close>

lemma counted_too_few:
  assumes "too_few s" and "mget (vh_votes s) (Vote_GetVoter v) = None"
    and "reps_positive (view_reps (view s) s)" and "\<forall>k. is_order (rs k)" and "length (view_reps (view s) s) < 2 ^ 50"
    and "enough_reputation rs (vote_counted v s) (mkeys (vh_votes (vote_counted v s))) = Inr False"
  shows "too_few (vote_counted v s)"
    and "set (mkeys (vh_votes (vote_counted v s))) = insert (Vote_GetVoter v) (set (mkeys (vh_votes s)))"
proof -
  let ?t = "vote_counted v s" and ?m = "view_reps (view s) s"
  have keys: "distinct (mkeys (vh_votes ?t))" "set (mkeys (vh_votes ?t)) = insert (Vote_GetVoter v) (set (mkeys (vh_votes s)))"
    using mkeys_mput_new [OF assms(2)] assms(1) by (simp_all add: too_few_def)
  have reps: "view_reps (view ?t) ?t = ?m"
    by simp
  have sub: "set (mkeys (vh_votes ?t)) \<subseteq> set (mkeys ?m)"
  proof (rule ccontr)
    assume "\<not> set (mkeys (vh_votes ?t)) \<subseteq> set (mkeys ?m)"
    then show False
      using enough_reputation_panic [of rs "mkeys (vh_votes ?t)" ?t, unfolded reps] assms(4,6) unfolding set_mkeys by simp
  qed
  then have "?m \<noteq> []"
    using keys(2) by auto
  then have "\<not> (1 + 2 * rep_slack ?m) * rep_total ?m / 2 \<le> (\<Sum>i\<in>set (mkeys (vh_votes ?t)). rep_weight ?m i)"
    using quorum_complete [of ?t rs "mkeys (vh_votes ?t)", unfolded reps] assms(3-6) keys(1) sub by auto
  then show "too_few ?t"
    unfolding too_few_def reps using keys(1) sub by linarith
  show "set (mkeys (vh_votes ?t)) = insert (Vote_GetVoter v) (set (mkeys (vh_votes s)))"
    by (rule keys(2))
qed

lemma too_few_cong:
  "view t = view s \<Longrightarrow> view_reps (view s) t = view_reps (view s) s \<Longrightarrow> vh_votes t = vh_votes s \<Longrightarrow> too_few t = too_few s"
  by (simp add: too_few_def)

text \<open>The state of the count: certified, or too few votes so far, those of \<open>A\<close> among them.\<close>

definition progress :: "u64 set \<Rightarrow> SyncHS \<Rightarrow> bool" where
  "progress A s \<longleftrightarrow> view_certified s \<or> too_few s \<and> A \<subseteq> set (mkeys (vh_votes s))"

definition same_view :: "SyncHS \<Rightarrow> SyncHS \<Rightarrow> bool" where
  "same_view s t \<longleftrightarrow> view t = view s \<and> leader t = leader s \<and> cfg t = cfg s \<and> view_reps (view s) t = view_reps (view s) s"

lemma progress_cong:
  assumes "view t = view s" and "view_reps (view s) t = view_reps (view s) s" and "vh_voteMap t = vh_voteMap s" and "vh_isCertified t = vh_isCertified s"
  shows "progress A t = progress A s"
  using too_few_cong [of t s] assms by (simp add: progress_def view_certified_def vh_votes_def)

lemma progress_open [simp]: "progress A s \<Longrightarrow> progress A (vh_open s)"
  using view_certified_open [of s] by (auto simp: progress_def)

lemma count_progress:
  assumes "vh_count E rs v (vh_open s) = Inr s'" and "mget (vh_votes s) (Vote_GetVoter v) = None"
    and "\<forall>k. is_order (rs k)" and "reps_positive (view_reps (view s) s)" and "length (view_reps (view s) s) < 2 ^ 50" and "progress A s"
  shows "progress (insert (Vote_GetVoter v) A) s' \<and> same_view s s'"
  using assms(1)
proof (cases rule: vh_count_cases)
  case late
  obtain m where "s' = (vh_open s)\<lparr>voteMap := m\<rparr>"
    using recorders_frame(1) [OF late(1)] by blast
  then show ?thesis
    using late(2) by (simp add: progress_def same_view_def view_certified_def view_reps_def)
next
  case (counted s1)
  let ?v = "snd (Vote_ToProto v)"
  obtain m where s1: "s1 = (vh_open s)\<lparr>voteMap := m\<rparr>"
    using recorders_frame(1) [OF counted(1)] by blast
  have sel: "view s1 = view s" "view_reps n s1 = view_reps n s" "vh_votes s1 = vh_votes s" for n
    using addVotetoMap_sel [OF counted(1)] by simp_all
  have frame: "same_view s s'"
    unfolding same_view_def by (simp add: counted(2) sel) (simp add: vote_counted_def s1)
  show ?thesis
  proof (cases "view_certified s")
    case True
    then have "view_certified s'"
      using view_certified_open [OF True] by (simp add: view_certified_def counted(2) vote_counted_def s1)
    then show ?thesis
      using frame by (simp add: progress_def)
  next
    case False
    have "too_few s1"
      using assms(6) False too_few_cong [of s1 s] by (simp add: sel progress_def)
    from counted_too_few [OF this, of ?v rs] have "too_few s'" "set (mkeys (vh_votes s')) = insert (Vote_GetVoter v) (set (mkeys (vh_votes s)))"
      using assms(2-5) counted(3) unfolding counted(2) by (simp_all add: sel)
    then show ?thesis
      using frame assms(6) False unfolding progress_def by blast
  qed
next
  case (certified s1 x)
  obtain m where s1: "s1 = (vh_open s)\<lparr>voteMap := m\<rparr>"
    using recorders_frame(1) [OF certified(1)] by blast
  show ?thesis
    unfolding certified(5) by (simp add: progress_def same_view_def view_certified_def vote_counted_def s1 view_reps_def spawn_def)
qed

text \<open>Every vote that the handler takes keeps the count going, and a good one is counted.\<close>

lemma vote_progress:
  assumes "voteHandler E rs v s = Inr s'" and "\<forall>k. is_order (rs k)" and "reps_positive (view_reps (view s) s)"
    and "length (view_reps (view s) s) < 2 ^ 50" and "progress A s"
  shows "progress (A \<union> (if good_vote E s v then {Vote_GetVoter v} else {})) s' \<and> same_view s s'"
proof -
  note count = count_progress [OF _ _ assms(2-5)]
  have opened: "progress B (vh_open s) \<and> same_view s (vh_open s)" if "progress B s" for B
    using that by (simp add: same_view_def)
  show ?thesis
  proof (cases "good_vote E s v")
    case True
    show ?thesis
    proof (cases "mget (vh_votes s) (Vote_GetVoter v) = None")
      case new: True
      then show ?thesis
        using count [of E v s'] voteHandler_good [OF True] assms(1) True by simp
    next
      case False
      then have "progress (insert (Vote_GetVoter v) A) s"
        using assms(5) unfolding progress_def set_mkeys by auto
      then have "progress (insert (Vote_GetVoter v) A) (vh_open s) \<and> same_view s (vh_open s)"
        by (rule opened)
      moreover have "s' = vh_open s"
        using voteHandler_good [OF True, of rs] assms(1) False by simp
      ultimately show ?thesis
        using True by simp
    qed
  next
    case False
    from assms(1) show ?thesis
    proof (cases rule: voteHandler_cases)
      case evidence
      then show ?thesis
        using assms(5) False progress_cong [of s' s A] by (simp add: same_view_def spawn_def view_reps_def)
    next
      case ignored
      then show ?thesis
        using opened assms(5) False by simp
    next
      case count
      then show ?thesis
        using count_progress [OF count(3) _ assms(2-5)] False by (auto simp: progress_def)
    qed
  qed
qed

lemma vote_run_progress:
  assumes "vote_run H E vs s s'" and "reps_positive (view_reps (view s) s)"
    and "length (view_reps (view s) s) < 2 ^ 50" and "progress A s"
  shows "progress (A \<union> Vote_GetVoter ` {v \<in> set vs. good_vote E s v}) s' \<and> same_view s s'"
  using assms
proof (induction arbitrary: A)
  case (other s s1 vs s')
  note frame = quiet_step_frame [OF other.hyps(1,2)]
  have "progress A s1"
    using other.prems(3) progress_cong [of s1 s A] other.hyps(2,3) frame by simp
  then show ?case
    using other.IH [of A] other.prems(1,2) other.hyps(2,3) good_vote_cong [OF frame(2,1)] frame by (simp add: same_view_def)
next
  case (handled ord s v ch s1 vs s')
  let ?t = "s\<lparr>voteChannel := ch\<rparr>" and ?B = "A \<union> (if good_vote E s v then {Vote_GetVoter v} else {})"
  have t: "good_vote E ?t u = good_vote E s u" "view_reps n ?t = view_reps n s" for u n
    using good_vote_cong [of ?t s E u] by (simp_all add: view_reps_def)
  have "progress A ?t"
    using handled.prems(3) progress_cong [of ?t s A] by (simp add: view_reps_def)
  then have s1: "progress ?B s1" "same_view s s1"
    using vote_progress [OF handled.hyps(4), of A] handled.hyps(2) handled.prems(1,2)
    by (simp_all add: t orders_ok_def) (simp add: same_view_def t)
  have "A \<union> Vote_GetVoter ` {u \<in> set (v # vs). good_vote E s u} = ?B \<union> Vote_GetVoter ` {u \<in> set vs. good_vote E s1 u}"
    using s1(2) good_vote_cong [of s1 s E] by (auto simp: same_view_def)
  then show ?case
    using handled.IH [OF _ _ s1(1)] handled.prems(1,2) s1(2) by (simp add: same_view_def)
qed (simp add: same_view_def)

text \<open>C4. Enough votes make a certificate. A reachable replica has a reputation for somebody in its view
  and has not counted a vote there. It runs on in this view, without a change of the reputations of the
  view; the vote handler takes votes from its channel, good and bad ones, in any order, in any order of
  its loops, and between any other steps. If the authors of the good votes, which are for the current
  leader and pass the check or are the replica's own, hold more than half of the reputation, by twice
  the rounding error, then the view is certified at the end of the run.\<close>

theorem votes_certify:
  assumes "reachable H E c peers s" and "vote_run H E vs s s'" and "vh_votes s = []"
    and "view_reps (view s) s \<noteq> []" and "length (view_reps (view s) s) < 2 ^ 50"
    and "(1 + 2 * rep_slack (view_reps (view s) s)) * rep_total (view_reps (view s) s) / 2
      \<le> (\<Sum>i\<in>Vote_GetVoter ` {v \<in> set vs. good_vote E s v}. rep_weight (view_reps (view s) s) i)"
  shows "view s' = view s \<and> mget (vh_isCertified s') (view s) = Some True"
proof -
  let ?m = "view_reps (view s) s" and ?V = "Vote_GetVoter ` {v \<in> set vs. good_vote E s v}"
  have pos: "reps_positive ?m"
    using reachable_invariants(3) [OF assms(1)] by (simp add: reputation_inv_def)
  have "0 < rep_total ?m"
    unfolding rep_total_def using reps_positiveD(1) [OF pos] assms(4) by (intro sum_pos) auto
  moreover have "0 \<le> rep_slack ?m"
    by (simp add: rep_slack_def ulp53_def)
  ultimately have "progress {} s"
    using assms(3) by (simp add: progress_def too_few_def)
  then have run: "progress ?V s'" "view s' = view s" "view_reps (view s) s' = ?m"
    using vote_run_progress [OF assms(2) pos assms(5), of "{}"] by (simp_all add: same_view_def)
  have "\<not> (too_few s' \<and> ?V \<subseteq> set (mkeys (vh_votes s')))"
  proof
    assume few: "too_few s' \<and> ?V \<subseteq> set (mkeys (vh_votes s'))"
    then have "set (mkeys (vh_votes s')) \<subseteq> set (mkeys ?m)"
      using run(2,3) by (simp add: too_few_def)
    then have "(\<Sum>i\<in>?V. rep_weight ?m i) \<le> (\<Sum>i\<in>set (mkeys (vh_votes s')). rep_weight ?m i)"
      using few reps_positiveD(1) [OF pos, THEN less_imp_le] by (intro sum_mono2) blast+
    then show False
      using few assms(6) run(2,3) by (simp add: too_few_def)
  qed
  then show ?thesis
    using run unfolding progress_def view_certified_def by metis
qed

text \<open>The scheduler of \<open>Sample_Run\<close>, with the votes it handles.\<close>

fun exec_votes :: "env \<Rightarrow> event list \<Rightarrow> SyncHS \<Rightarrow> (Vote list \<times> SyncHS) option" where
  "exec_votes E [] s = Some ([], s)"
| "exec_votes E (ev # evs) s = (case exec E ev s of
     Some (Inr s1) \<Rightarrow>
       if ev = Ev_vote then map_option (map_prod (\<lambda>vs. hd (voteChannel s) # vs) (\<lambda>t. t)) (exec_votes E evs s1)
       else if view s1 = view s \<and> view_reps (view s) s1 = view_reps (view s) s then exec_votes E evs s1 else None
   | _ \<Rightarrow> None)"

lemma exec_other:
  assumes "exec E ev s = Some r" and "ev \<noteq> Ev_vote"
  shows "node_step (Start_handlers - {H_vote}) E s r"
  using assms
  by (cases ev)
    (auto simp: exec_def exec_go_def Start_handlers_def split: if_splits list.splits option.splits
      intro: node_step.goroutine [OF orders_ok_plain] node_step.forwarded [OF _ orders_ok_plain]
        node_step.timeout [OF orders_ok_plain] node_step.dispatch node_step.receive node_step.connect node_step.client)

lemma exec_votes_run: "exec_votes E evs s = Some (vs, s') \<Longrightarrow> vote_run Start_handlers E vs s s'"
proof (induction evs arbitrary: s vs)
  case (Cons ev evs)
  then obtain s1 where s1: "exec E ev s = Some (Inr s1)"
    by (auto split: option.splits sum.splits)
  show ?case
  proof (cases "ev = Ev_vote")
    case True
    then obtain v ch where v: "voteChannel s = v # ch" "voteHandler E (o_maps plain_orders) v (s\<lparr>voteChannel := ch\<rparr>) = Inr s1"
      using s1 by (auto simp: exec_def split: list.splits)
    obtain us where "vs = v # us" "exec_votes E evs s1 = Some (us, s')"
      using Cons.prems s1 True v(1) by auto
    then show ?thesis
      using vote_run.handled [OF _ orders_ok_plain v Cons.IH] by (simp add: Start_handlers_def)
  next
    case False
    then have "view s1 = view s" "view_reps (view s) s1 = view_reps (view s) s" "exec_votes E evs s1 = Some (vs, s')"
      using Cons.prems s1 by (auto split: if_splits)
    then show ?thesis
      using vote_run.other [OF exec_other [OF s1 False]] Cons.IH by blast
  qed
qed (simp add: vote_run.finished)

text \<open>The leader of the sample run, from the connection of its client to the certificate, with the votes
  of the nodes 1 and 2.\<close>

definition round_open :: SyncHS where
  "round_open = client_connect 5 round_boot"

lemma round_open_facts:
  "reachable Start_handlers round_env (sample_cfg 0 3) round_peers round_open"
  "view round_open = 1" "vh_votes round_open = []"
  "view_reps 1 round_open = [(0, SetFloat64 f64_1em6), (1, SetFloat64 f64_1em6), (2, SetFloat64 f64_1em6)]"
proof -
  have "mget (cliMap round_boot) 5 = None"
    by code_simp
  then show "reachable Start_handlers round_env (sample_cfg 0 3) round_peers round_open"
    unfolding round_open_def by (intro reachable.step [OF round_reachable(1)] node_step.connect)
  show "view round_open = 1" "vh_votes round_open = []"
    "view_reps 1 round_open = [(0, SetFloat64 f64_1em6), (1, SetFloat64 f64_1em6), (2, SetFloat64 f64_1em6)]"
    by code_simp+
qed

lemma round_open_run:
  "map_option fst (exec_votes round_env (tl round_events @ [Ev_vote]) round_open)
     = Some (map (\<lambda>i. Vote_FromProto (sample_ballot i)) [1, 2])"
  "list_all (\<lambda>i. good_vote round_env round_open (Vote_FromProto (sample_ballot i))) [1, 2]"
  by code_simp+

theorem votes_certify_witness:
  "\<exists>s'. vote_run Start_handlers round_env (map (\<lambda>i. Vote_FromProto (sample_ballot i)) [1, 2]) round_open s'
     \<and> mget (vh_isCertified s') 1 = Some True"
proof -
  let ?vs = "map (\<lambda>i. Vote_FromProto (sample_ballot i)) [1, 2]"
  obtain s' where run: "vote_run Start_handlers round_env ?vs round_open s'"
    using round_open_run(1) exec_votes_run by fastforce
  have "{v \<in> set ?vs. good_vote round_env round_open v} = set ?vs"
    using round_open_run(2) by auto
  moreover have "Vote_GetVoter ` set ?vs = {1, 2}"
    by code_simp
  ultimately have voters: "Vote_GetVoter ` {v \<in> set ?vs. good_vote round_env round_open v} = {1, 2}"
    by simp
  show ?thesis
    using votes_certify [OF round_open_facts(1) run round_open_facts(3)] run sample_margins(1)
    unfolding voters round_open_facts(2,4) sample_weights by auto
qed

section \<open>Certificates of two replicas\<close>

interpretation rep_quorum: weighted_quorum "set (mkeys m)" "rep_weight m" "rep_slack m"
  "\<lambda>A. reps_positive m \<and> A \<subseteq> set (mkeys m) \<and> (1 - rep_slack m) * rep_total m / 2 \<le> (\<Sum>i\<in>A. rep_weight m i)"
  for m :: "(u64, big_float) gomap"
proof unfold_locales
  fix A :: "u64 set"
  assume "reps_positive m \<and> A \<subseteq> set (mkeys m) \<and> (1 - rep_slack m) * rep_total m / 2 \<le> (\<Sum>i\<in>A. rep_weight m i)"
  then show "A \<subseteq> set (mkeys m) \<and> (\<forall>i \<in> set (mkeys m). 0 < rep_weight m i)
      \<and> (1 - rep_slack m) * (\<Sum>i\<in>set (mkeys m). rep_weight m i) / 2 \<le> (\<Sum>i\<in>A. rep_weight m i)"
    using reps_positiveD(1) unfolding rep_total_def by blast
qed simp

text \<open>C2. The certificates of two replicas for a view share a signer. Two replicas in reachable states both
  build a certificate for a view in which they have the same reputations; reputations are local, so this
  is a hypothesis. If the signers of the first certificate hold a clear majority, beyond the rounding
  error, then some node has signed both: each of the two replicas accepted a vote of it, with the
  signature that its certificate shows.\<close>

theorem certificates_share_signer:
  assumes "reachable H E c peers s" and "voteChannel s = v # vs" and "\<forall>k. is_order (rs k)"
    and "voteHandler E rs v (s\<lparr>voteChannel := vs\<rparr>) = Inr s'" and "goroutines s' = goroutines s @ [[Act_addCert x n]]"
    and "reachable H' E c' peers' t" and "voteChannel t = w # ws" and "\<forall>k. is_order (rs' k)"
    and "voteHandler E rs' w (t\<lparr>voteChannel := ws\<rparr>) = Inr t'" and "goroutines t' = goroutines t @ [[Act_addCert y n]]"
    and "view_reps n t = view_reps n s"
    and "(1 + rep_slack (view_reps n s)) * rep_total (view_reps n s) / 2
      < (\<Sum>i\<in>set (PC_GetSigners (bc_Partial x)). rep_weight (view_reps n s) i)"
  shows "\<exists>i vt vt'. i \<in> set (PC_GetSigners (bc_Partial x)) \<inter> set (PC_GetSigners (bc_Partial y))
    \<and> Vote_GetVoter vt = i \<and> vote_accepted E c vt \<and> PC_GetSignatureFromID i (bc_Partial x) = Some (Vote_GetSignature vt)
    \<and> Vote_GetVoter vt' = i \<and> vote_accepted E c' vt' \<and> PC_GetSignatureFromID i (bc_Partial y) = Some (Vote_GetSignature vt')"
proof -
  note x = built_certificate [OF assms(1-5)] and y = built_certificate [OF assms(6-10), unfolded assms(11)]
  have "set (PC_GetSigners (bc_Partial x)) \<inter> set (PC_GetSigners (bc_Partial y)) \<noteq> {}"
    using rep_quorum.clear_majority_intersects [of "view_reps n s"] x(3-5) y(3-5) assms(12) unfolding rep_total_def by blast
  then show ?thesis
    using x(2) y(2) unfolding genuine_cert_def by blast
qed

text \<open>Node 0 has the votes of the nodes 1 and 2, node 1 those of the nodes 2 and 0.\<close>

theorem certificates_share_signer_witness:
  "\<exists>t x y i. exec round_env Ev_vote second_ready = Some (Inr t) \<and> goroutines round_voted = goroutines round_ready @ [[Act_addCert x 1]]
     \<and> goroutines t = goroutines second_ready @ [[Act_addCert y 1]]
     \<and> PC_GetSigners (bc_Partial x) = [1, 2] \<and> PC_GetSigners (bc_Partial y) = [2, 0]
     \<and> i \<in> set (PC_GetSigners (bc_Partial x)) \<inter> set (PC_GetSigners (bc_Partial y))"
proof -
  obtain x where x: "goroutines round_voted = goroutines round_ready @ [[Act_addCert x 1]]" "pc_ids (bc_Partial x) = [1, 2]"
    using round_voted_facts(5) by blast
  obtain t y where t: "exec round_env Ev_vote second_ready = Some (Inr t)"
    "goroutines t = goroutines second_ready @ [[Act_addCert y 1]]" "pc_ids (bc_Partial y) = [2, 0]"
    using second_facts(5) by blast
  have sig: "PC_GetSigners (bc_Partial x) = [1, 2]" "PC_GetSigners (bc_Partial y) = [2, 0]"
    and ord: "\<forall>k. is_order (o_maps plain_orders k)"
    using x(2) t(3) by (simp_all add: PC_GetSigners_def plain_orders_def)
  have h: "voteHandler round_env (o_maps plain_orders) (Vote_FromProto (sample_ballot 2))
      (round_ready\<lparr>voteChannel := [Vote_FromProto (sample_ballot 0)]\<rparr>) = Inr round_voted"
    using round_runs(2) unfolding exec_def round_ready_facts(1) by simp
  have k: "voteHandler round_env (o_maps plain_orders) (Vote_FromProto (sample_ballot 0)) (second_ready\<lparr>voteChannel := []\<rparr>) = Inr t"
    using t(1) unfolding exec_def second_facts(3) by simp
  have reps: "view_reps 1 second_ready = view_reps 1 round_ready"
    unfolding second_facts(4) round_ready_facts(5) ..
  have "(1 + rep_slack (view_reps 1 round_ready)) * rep_total (view_reps 1 round_ready) / 2
      < (\<Sum>i\<in>set (PC_GetSigners (bc_Partial x)). rep_weight (view_reps 1 round_ready) i)"
    unfolding sig round_ready_facts(5) sample_weights using sample_margins(2) by simp
  from certificates_share_signer [OF round_reachable(2) round_ready_facts(1) ord h x(1)
      second_facts(2,3) ord k t(2) reps this]
  obtain i where i: "i \<in> set (PC_GetSigners (bc_Partial x)) \<inter> set (PC_GetSigners (bc_Partial y))"
    by blast
  show ?thesis
    by (intro exI conjI) (rule t(1) x(1) t(2) sig i)+
qed

end
