(* ===== verification/State_Types.thy ===== *)
theory State_Types
  imports Replica_Properties
begin

text \<open>
  The type of a replica's state: what the Go types leave open and the operations keep. A seventh
  invariant, on the marks in the maps that record behaviour, joins those of \<open>Node_Safety\<close>.
\<close>

section \<open>Marks\<close>

text \<open>Every entry of a view is a map from nodes to the mark 1.\<close>

definition marks_ok :: "score_map \<Rightarrow> bool" where
  "marks_ok m \<longleftrightarrow> (\<forall>v r. mget m v = Some r \<longrightarrow> wf_map r \<and> (\<forall>i x. mget r i = Some x \<longrightarrow> x = 1))"

definition marks_inv :: "SyncHS \<Rightarrow> bool" where
  "marks_inv s \<longleftrightarrow> marks_ok (proposalMap s) \<and> marks_ok (withproposalMap s) \<and> marks_ok (equiproposalMap s)
     \<and> marks_ok (maliproposalMap s) \<and> marks_ok (voteMap s) \<and> marks_ok (voteMaliMap s)"

lemma marks_ok_empty [simp]: "marks_ok []"
  by (simp add: marks_ok_def)

lemma marks_ok_mput2 [intro]:
  assumes "marks_ok m"
  shows "marks_ok (mput2 v i 1 m)"
  using assms unfolding marks_ok_def
  by (cases "mget m v") (auto simp: mget_mput2 wf_map_def distinct_update simp del: map_of_eq_Some_iff split: if_splits)

lemma marks_ok_mput [intro]: "marks_ok m \<Longrightarrow> marks_ok (mput v [(i, 1)] m)"
  by (auto simp: marks_ok_def wf_map_def split: if_splits)

lemma marks_inv_recorders:
  assumes "marks_inv s"
  shows "addVotetoMap pv s = Inr s' \<Longrightarrow> marks_inv s'"
    and "addMaliVotetoMap pv s = Inr s' \<Longrightarrow> marks_inv s'"
    and "addMaliProposaltoMap p s = Inr s' \<Longrightarrow> marks_inv s'"
    and "marks_inv (addEquiProposaltoMap s)" and "marks_inv (addWitholdProposaltoMap s)"
    and "marks_inv (addProposaltoMap s)"
  using assms by (auto simp: marks_inv_def addVotetoMap_def addMaliVotetoMap_def addMaliProposaltoMap_def
      addEquiProposaltoMap_def addWitholdProposaltoMap_def addProposaltoMap_def bind_r_eq_Inr)

lemma marks_inv_cong:
  "marks_inv s \<Longrightarrow> voteMap s' = voteMap s \<Longrightarrow> voteMaliMap s' = voteMaliMap s \<Longrightarrow> proposalMap s' = proposalMap s \<Longrightarrow>
   equiproposalMap s' = equiproposalMap s \<Longrightarrow> withproposalMap s' = withproposalMap s \<Longrightarrow>
   maliproposalMap s' = maliproposalMap s \<Longrightarrow> marks_inv s'"
  by (simp add: marks_inv_def)

lemma marks_inv_frames [simp]:
  "marks_inv (spawn as s) = marks_inv s" "marks_inv (addCert x n s) = marks_inv s" "marks_inv (vh_open s) = marks_inv s"
  "marks_inv (addNewViewReputaiontoMap E rss s) = marks_inv s" "marks_inv (initialReputationMap s) = marks_inv s"
  by (auto simp: marks_inv_def spawn_def addCert_def vh_open_def addNewView_eq initialReputation_eq split: option.splits)

interpretation marks: node_invariant E marks_inv
  for E
proof unfold_locales
  show "marks_inv s \<Longrightarrow> core s' = core s \<Longrightarrow> marks_inv s'" for s s'
    by (erule marks_inv_cong) (erule coreD)+
  show "marks_inv s \<Longrightarrow> addVotetoMap pv s = Inr s' \<Longrightarrow> marks_inv s'"
    "marks_inv s \<Longrightarrow> addMaliVotetoMap pv s = Inr s' \<Longrightarrow> marks_inv s'"
    "marks_inv s \<Longrightarrow> addMaliProposaltoMap p s = Inr s' \<Longrightarrow> marks_inv s'" for s s' pv p
    by (fact marks_inv_recorders)+
qed (auto simp: marks_inv_recorders(4-6) dest!: store_block_frame changeLeader_frame elim!: marks_inv_cong)

lemma marks_reachable: "reachable H E c peers s \<Longrightarrow> marks_inv s"
  by (erule marks.I_reachable) (simp add: marks_inv_def Setup_def Init_def)

section \<open>The type of the state\<close>

text \<open>C8. The type of a replica's state. In every reachable state the configuration is the one it was
  started with and the leader is one of its nodes; the six maps that record behaviour have one entry per
  view, each with one mark per node, and every mark is 1; the votes counted for a view are stored once
  per voter, under its id; and no channel holds more messages than its buffer.\<close>

theorem state_wellformed:
  assumes "reachable H E c peers s"
  shows "cfg s = c \<and> (GetNumNodes c \<noteq> 0 \<longrightarrow> leader s < GetNumNodes c)
    \<and> list_all (\<lambda>m. wf_map m \<and> marks_ok m) [proposalMap s, withproposalMap s, equiproposalMap s, maliproposalMap s, voteMap s, voteMaliMap s]
    \<and> (\<forall>v m. mget (vh_voteMap s) v = Some m \<longrightarrow> wf_map m \<and> (\<forall>i vt. mget m i = Some vt \<longrightarrow> Vote_GetVoter vt = i))
    \<and> length (msgChannel s) \<le> ProtocolMsgBuffer \<and> length (voteChannel s) \<le> ProtocolMsgBuffer
    \<and> length (proposeChannel s) \<le> ProtocolMsgBuffer \<and> length (eqEvidenceChannel s) \<le> ProtocolMsgBuffer
    \<and> length (maliProEvidenceChannel s) \<le> ProtocolMsgBuffer \<and> length (maliVoteEvidenceChannel s) \<le> ProtocolMsgBuffer
    \<and> length (maliPropseChannel s) \<le> ProtocolMsgBuffer \<and> length (SyncChannel s) \<le> 1"
proof -
  note inv = reachable_invariants [OF assms]
  have "\<forall>v m. mget (vh_voteMap s) v = Some m \<longrightarrow> wf_map m \<and> (\<forall>i vt. mget m i = Some vt \<longrightarrow> Vote_GetVoter vt = i)"
    using inv(5) unfolding certs_inv_def counted_votes_def by blast
  then show ?thesis
    using inv(1,2,6) marks_reachable [OF assms] by (simp add: rounds_inv_def wf_behaviour_def marks_inv_def channels_inv_def)
qed

theorem state_wellformed_witness:
  "leader round_voted < 3 \<and> wf_map (voteMap round_voted) \<and> marks_ok (voteMap round_voted)
   \<and> length (voteChannel round_voted) = 1 \<and> length (voteChannel round_voted) \<le> ProtocolMsgBuffer"
proof -
  have n: "GetNumNodes (sample_cfg 0 3) = 3"
    by code_simp
  show ?thesis
    using state_wellformed [OF round_reachable(3)] round_voted_facts(3) unfolding n by simp
qed

end
