(* ===== verification/Protocol_Properties.thy ===== *)
theory Protocol_Properties
  imports Node_Protocol
begin

text \<open>
  What the steps of a round do: voting, ending a round, proposing and forwarding, and that honest
  messages pass the checks of their receivers.
\<close>

section \<open>Honest signatures\<close>

text \<open>A public key accepts what was signed with a private key; the hash conversions invert each other.\<close>

definition keys_match :: "env \<Rightarrow> bytes \<Rightarrow> pubkey \<Rightarrow> bool" where
  "keys_match E k pk \<longleftrightarrow> (\<forall>d sig. Sign E k d = (sig, False) \<longrightarrow> Verify E pk d sig = (True, False))"

definition hash_bytes_law :: "env \<Rightarrow> bool" where
  "hash_bytes_law E \<longleftrightarrow> (\<forall>h. length h = 32 \<longrightarrow> ToHash E (HashBytes E h) = h)"

text \<open>The vote of an honest replica, and what its receiver makes of it.\<close>

lemma cast_vote_valid:
  assumes "voteForBlock E ep s = Inr s'" and "ExtBlock_GetBlockHash E (ep_ExtBlock ep) = Inr bh"
    and "\<forall>d. \<not> snd (MarshalVoteData E d)" and "\<forall>d. \<not> snd (Sign E (GetMyKey (cfg s)) d)"
    and "keys_match E (GetMyKey (cfg s)) pk" and "GetPubKeyFromID (cfg t) (GetID (cfg s)) = Some pk"
  shows "\<exists>pv. goroutines s' = goroutines s @ [[Act_Broadcast (Msg_Vote pv), Act_sendVote (Vote_FromProto pv)]]
    \<and> pv_Data pv = Some \<lparr>vd_BlockHash = HashBytes E bh, vd_View = view s, vd_Owner = pr_Miner (ep_Proposal ep)\<rparr>
    \<and> Vote_GetVoter (Vote_FromProto pv) = GetID (cfg s) \<and> isVoteValid E t (Vote_FromProto pv) = Inr True
    \<and> mget2 (voteMap s') (view s) (GetID (cfg s)) = Some 1"
proof -
  let ?d = "\<lparr>vd_BlockHash = HashBytes E bh, vd_View = view s, vd_Owner = pr_Miner (ep_Proposal ep)\<rparr>"
  define data where "data = fst (MarshalVoteData E (Some ?d))"
  define sig where "sig = fst (Sign E (GetMyKey (cfg s)) data)"
  let ?pv = "\<lparr>pv_Data = Some ?d, pv_Body = Some \<lparr>vb_Voter = GetID (cfg s), vb_Signature = sig\<rparr>\<rparr>"
  have data: "MarshalVoteData E (Some ?d) = (data, False)" and sig: "Sign E (GetMyKey (cfg s)) data = (sig, False)"
    using assms(3,4) by (simp_all add: data_def sig_def prod_eq_iff)
  obtain s1 where s1: "addVotetoMap ?pv s = Inr s1"
    and s': "s' = spawn [Act_Broadcast (Msg_Vote ?pv), Act_sendVote (Vote_FromProto ?pv)] s1"
    using assms(1,2) by (auto simp: voteForBlock_def cast_vote_def data sig bind_r_eq_Inr Let_def)
  have "isVoteValid E t (Vote_FromProto ?pv) = Inr True"
    using assms(5,6) sig by (auto simp: isVoteValid_def Vote_FromProto_def Vote_GetVoter_def Vote_GetSignature_def
        ProtoVoteBody_GetVoter_def ProtoVoteBody_GetSignature_def nil_safe_def data keys_match_def)
  moreover have "goroutines s1 = goroutines s" "mget2 (voteMap s1) (view s) (GetID (cfg s)) = Some 1"
    using s1 by (auto simp: addVotetoMap_def)
  ultimately show ?thesis
    unfolding s' by (intro exI [of _ ?pv]) (simp add: Vote_FromProto_def Vote_GetVoter_def ProtoVoteBody_GetVoter_def
        nil_safe_def spawn_def)
qed

lemma sample_keys_match: "keys_match sample_env k k" "hash_bytes_law sample_env"
  by (auto simp: keys_match_def hash_bytes_law_def sample_env_def sample_hash_def)

lemma sample_signing: "\<forall>d. \<not> snd (MarshalVoteData sample_env d)" "\<forall>d. \<not> snd (Sign sample_env k d)"
  by (simp_all add: sample_env_def)

text \<open>A follower with a proposal of the leader over the genesis certificate.\<close>

definition sample_ext_proposal :: ExtProposal where
  "sample_ext_proposal = \<lparr>ep_Proposal = \<lparr>pr_Block = Some sample_block, pr_ForwardSender = 0, pr_ForwardSig = [],
      pr_Miner = 0, pr_MiningProof = [], pr_View = 1, pr_ProposeEvidence = []\<rparr>,
     ep_ExtBlock = ext_of sample_env sample_block, ep_BlockCertificate = GenesisCert sample_env\<rparr>"

section \<open>The end of a round\<close>






definition sample_leader :: SyncHS where
  "sample_leader = (sample_node 0 3)\<lparr>pendingCommands := [[41], [42]]\<rparr>"



text \<open>Ending a round of a withheld or equivocated block without a block at the head stops the
  replica: the acknowledgement dereferences a nil block.\<close>

lemma empty_commit_panics:
  assumes "withholdingProposalInject s \<or> equivocatingProposalInject s" and "mget (BlocksByHeight (bc s)) (Head (bc s)) = None"
  shows "callback E rss r s = Inl NilDereference"
  using assms by (auto simp: callback_def commit_round_def addNewView_eq ExtBlock_ToProto_def)

section \<open>Proposing\<close>

text \<open>C20. What the leader proposes: with a certificate for the head and enough commands, \<open>Propose\<close> moves
  the head by one, stores and broadcasts a block of that height that extends the certified block and
  carries the last \<open>BlockSize\<close> pending commands, signed over the header; the commands leave the pool,
  the others stay in order.\<close>

theorem propose_extends_chain:
  assumes "getCertForBlockIndex (Head (bc s)) s = Some cert" and "length (pendingCommands s) < 2 ^ 64"
    and "unat (GetBlockSize (cfg s)) \<le> length (pendingCommands s)" and "\<forall>d. \<not> snd (Sign E (GetMyKey (cfg s)) d)"
  shows "\<exists>s' p d h b. Propose E s = Inr s' \<and> pr_Block p = Some d \<and> pb_Header d = Some h \<and> pb_Body d = Some b
    \<and> Head (bc s') = Head (bc s) + 1 \<and> ph_Height h = Head (bc s')
    \<and> ph_ParentHash h = HashBytes E (fst (BC_GetBlockInfo E cert))
    \<and> mget (BlocksByHeight (bc s')) (Head (bc s')) = Some (ext_of E d)
    \<and> pendingCommands s = pendingCommands s' @ pbd_Txs b \<and> length (pbd_Txs b) = unat (GetBlockSize (cfg s))
    \<and> pr_Miner p = GetID (cfg s) \<and> Sign E (GetMyKey (cfg s)) (fst (MarshalHeader E (Some h))) = (pr_MiningProof p, False)
    \<and> goroutines s' = goroutines s @ [[Act_addProposaltoMap, Act_Broadcast (Msg_Prop p)]]"
proof -
  obtain cmds s1 where g: "getCmdsIfSufficient s = (Some cmds, s1)"
    using assms(2,3) by (auto simp: getCmdsIfSufficient_cases Let_def not_less)
  note s1 = getCmdsIfSufficient_Some [OF assms(2) g]
  let ?ht = "Head (bc s) + 1" and ?s2 = "s1\<lparr>bc := (bc s1)\<lparr>Head := Head (bc s1) + 1\<rparr>\<rparr>"
  note sel = getCmds_sel [OF g]
  have "\<exists>p. NewCandidateProposal E cmds cert ?ht [] ?s2 = Inr (p, snd (BC_ToProto E cert))"
    using assms(4) by (simp add: NewCandidateProposal_def Let_def case_prod_beta sel)
  then obtain p where p: "NewCandidateProposal E cmds cert ?ht [] ?s2 = Inr (p, snd (BC_ToProto E cert))" ..
  note new = NewCandidateProposal_Inr [OF p]
  let ?h = "child_header E cert ?ht []" and ?b = "\<lparr>pbd_Txs = cmds, pbd_Responses = cmds\<rparr>"
  let ?d = "child_block E cmds cert ?ht [] (DoHash E (fst (MarshalHeader E (Some ?h))))"
  obtain s3 where s3: "store_block E ?ht (ext_of E ?d) (addCert (snd (BC_ToProto E cert)) (Head (bc s)) ?s2) = Inr s3"
    by (simp add: store_block_def GetBlockHash_ext_of)
  have s': "Propose E s = Inr (spawn [Act_addProposaltoMap, Act_Broadcast (Msg_Prop p)]
      (s3\<lparr>proposalByviewMap := mput (view s3) p (proposalByviewMap s3)\<rparr>))"
    using s3 p by (simp add: Propose_def assms(1) g sel new(2))
  have fields: "Head (bc s3) = ?ht" "mget (BlocksByHeight (bc s3)) ?ht = Some (ext_of E ?d)"
    "pendingCommands s3 = pendingCommands s1" "goroutines s3 = goroutines s1"
    using s3 by (auto simp: store_block_def GetBlockHash_ext_of addCert_def sel)
  have gs: "goroutines s1 = goroutines s"
    by (subst s1(3)) simp
  have child: "pb_Header ?d = Some ?h" "pb_Body ?d = Some ?b" "ph_Height ?h = ?ht"
    "ph_ParentHash ?h = HashBytes E (fst (BC_GetBlockInfo E cert))"
    by (simp_all add: child_block_def child_header_def)
  have sig: "Sign E (GetMyKey (cfg s)) (fst (MarshalHeader E (Some ?h))) = (pr_MiningProof p, False)"
    using new(6) by (simp add: sel)
  show ?thesis
    by (rule exI, rule exI [of _ p], rule exI [of _ ?d], rule exI [of _ ?h], rule exI [of _ ?b], intro conjI, rule s')
      (simp_all add: new(2,3) sig fields gs s1(1,2) child sel spawn_def)
qed

theorem propose_extends_chain_witness:
  "\<exists>s' (b :: ProtoBody). Propose sample_env sample_leader = Inr s' \<and> pendingCommands sample_leader = pendingCommands s' @ pbd_Txs b
     \<and> length (pbd_Txs b) = 1 \<and> Head (bc s') = 1"
proof -
  have f: "getCertForBlockIndex (Head (bc sample_leader)) sample_leader = Some (GenesisCert sample_env)"
    "unat (GetBlockSize (cfg sample_leader)) = 1" "length (pendingCommands sample_leader) = 2" "Head (bc sample_leader) = 0"
    by code_simp+
  have "length (pendingCommands sample_leader) < 2 ^ 64"
    "unat (GetBlockSize (cfg sample_leader)) \<le> length (pendingCommands sample_leader)"
    using f by simp_all
  from propose_extends_chain [OF f(1) this sample_signing(2)]
  obtain s' and b :: ProtoBody where "Propose sample_env sample_leader = Inr s'" "pendingCommands sample_leader = pendingCommands s' @ pbd_Txs b"
    "length (pbd_Txs b) = unat (GetBlockSize (cfg sample_leader))" "Head (bc s') = Head (bc sample_leader) + 1"
    by blast
  then show ?thesis
    using f by auto
qed

section \<open>Forwarding\<close>

text \<open>C23. A replica forwards only what the leader signed: if \<open>forward\<close> spawns anything, the leader's key
  verifies the header of the proposal, the certificate of the parent is valid, and the only thing that
  changes in the message is the forwarder and its signature.\<close>

theorem forward_sound:
  assumes "forward E r p s = Inr s'" and "s' \<noteq> s"
  shows "\<exists>k ep sig. GetPubKeyFromID (cfg s) (leader s) = Some k
    \<and> Verify E k (fst (MarshalHeader E (ProtoBlock_GetHeader (Proposal_GetBlock (Some p))))) (pr_MiningProof p) = (True, False)
    \<and> ExtProposal_FromProto E p = Inr ep \<and> IsCertValid E r s (ep_BlockCertificate ep) = Inr True
    \<and> Sign E (GetMyKey (cfg s)) (fst (MarshalHeader E (ProtoBlock_GetHeader (Proposal_GetBlock (Some p))))) = (sig, False)
    \<and> s' = spawn [Act_Broadcast (Msg_Prop (p\<lparr>pr_ForwardSender := GetID (cfg s), pr_ForwardSig := sig\<rparr>)),
                  Act_sendPropose (p\<lparr>pr_ForwardSender := GetID (cfg s), pr_ForwardSig := sig\<rparr>)] s"
proof -
  let ?data = "fst (MarshalHeader E (ProtoBlock_GetHeader (Proposal_GetBlock (Some p))))"
  obtain ep ok where ep: "ExtProposal_FromProto E p = Inr ep" and ok: "proposal_checks E r p ep s = Inr ok"
    using assms(1) by (auto simp: forward_def bind_r_eq_Inr)
  obtain d where "ep_Proposal ep = p"
    using ExtProposal_FromProto_block [OF ep] by blast
  have ok_True: "ok"
    using assms ep ok by (cases ok) (auto simp: forward_def)
  obtain sig where sig: "Sign E (GetMyKey (cfg s)) ?data = (sig, False)"
    using assms ep ok ok_True by (cases "Sign E (GetMyKey (cfg s)) ?data") (auto simp: forward_def split: if_splits)
  have "IsCertValid E r s (ep_BlockCertificate ep) = Inr True
      \<and> (\<exists>k. GetPubKeyFromID (cfg s) (leader s) = Some k \<and> Verify E k ?data (pr_MiningProof p) = (True, False))"
    using ok ok_True \<open>ep_Proposal ep = p\<close>
    by (auto simp: proposal_checks_def verified_def bind_r_eq_Inr Let_def case_prod_beta prod_eq_iff split: if_splits)
  moreover have "s' = spawn [Act_Broadcast (Msg_Prop (p\<lparr>pr_ForwardSender := GetID (cfg s), pr_ForwardSig := sig\<rparr>)),
                  Act_sendPropose (p\<lparr>pr_ForwardSender := GetID (cfg s), pr_ForwardSig := sig\<rparr>)] s"
    using assms(1) ep ok ok_True sig by (simp add: forward_def Let_def)
  ultimately show ?thesis
    using ep sig by blast
qed

text \<open>The proposal of node 0 over the genesis certificate, at node 1.\<close>

definition sample_proposal :: Proposal where
  "sample_proposal = (case NewCandidateProposal sample_env [[42]] (GenesisCert sample_env) 1 [] (sample_node 0 3) of
     Inr (p, _) \<Rightarrow> p | _ \<Rightarrow> ep_Proposal sample_ext_proposal)"

lemma sample_proposal_facts:
  "NewCandidateProposal sample_env [[42]] (GenesisCert sample_env) 1 [] (sample_node 0 3)
     = Inr (sample_proposal, snd (BC_ToProto sample_env (GenesisCert sample_env)))"
  "case ExtProposal_FromProto sample_env sample_proposal of
     Inr ep \<Rightarrow> IsCertValid sample_env rev (sample_node 1 3) (ep_BlockCertificate ep) = Inr True | _ \<Rightarrow> False"
  "case forward sample_env rev sample_proposal (sample_node 1 3) of
     Inr t \<Rightarrow> goroutines t \<noteq> goroutines (sample_node 1 3) | _ \<Rightarrow> False"
  "leader (sample_node 1 3) = GetID (cfg (sample_node 0 3))"
  "GetPubKeyFromID (cfg (sample_node 1 3)) (GetID (cfg (sample_node 0 3))) = Some (GetMyKey (cfg (sample_node 0 3)))"
  by code_simp+

theorem forward_sound_witness:
  "\<exists>t k. forward sample_env rev sample_proposal (sample_node 1 3) = Inr t
     \<and> Verify sample_env k (fst (MarshalHeader sample_env (ProtoBlock_GetHeader (Proposal_GetBlock (Some sample_proposal)))))
         (pr_MiningProof sample_proposal) = (True, False)"
proof -
  obtain t where t: "forward sample_env rev sample_proposal (sample_node 1 3) = Inr t" "goroutines t \<noteq> goroutines (sample_node 1 3)"
    using sample_proposal_facts(3) by (auto split: sum.splits)
  then have "t \<noteq> sample_node 1 3"
    by auto
  then show ?thesis
    using forward_sound [OF t(1)] t(1) by blast
qed

text \<open>C22. An honest proposal is forwarded: what the leader builds over a certificate that the receiver
  considers valid passes all checks of a receiver that has the leader's key, provided that the hash of its
  header has 32 bytes and is not the reserved empty hash.\<close>

theorem honest_proposal_forwarded:
  assumes "NewCandidateProposal E cmds cert ht extra s = Inr (p, cert')" and "leader t = GetID (cfg s)"
    and "keys_match E (GetMyKey (cfg s)) pk" and "GetPubKeyFromID (cfg t) (GetID (cfg s)) = Some pk"
    and "hash_bytes_law E" and "hash = DoHash E (fst (MarshalHeader E (ProtoBlock_GetHeader (Proposal_GetBlock (Some p)))))"
    and "length hash = 32" and "hash \<noteq> EmptyHash"
    and "ExtProposal_FromProto E p = Inr ep" and "IsCertValid E r t (ep_BlockCertificate ep) = Inr True"
    and "Sign E (GetMyKey (cfg t)) (fst (MarshalHeader E (ProtoBlock_GetHeader (Proposal_GetBlock (Some p))))) = (sig, False)"
  shows "forward E r p t = Inr (spawn [Act_Broadcast (Msg_Prop (p\<lparr>pr_ForwardSender := GetID (cfg t), pr_ForwardSig := sig\<rparr>)),
                  Act_sendPropose (p\<lparr>pr_ForwardSender := GetID (cfg t), pr_ForwardSig := sig\<rparr>)] t)"
proof -
  note new = NewCandidateProposal_Inr [OF assms(1)]
  let ?h = "child_header E cert ht extra"
  let ?d = "child_block E cmds cert ht extra (DoHash E (fst (MarshalHeader E (Some ?h))))"
  obtain d where d: "pr_Block p = Some d" "ep_ExtBlock ep = ext_of E d" "ep_Proposal ep = p"
    by (rule ExtProposal_FromProto_block [OF assms(9)])
  have "d = ?d"
    using d(1) new(2) by simp
  then have hdr: "pb_Header d = Some ?h" and bytes: "pb_BlockHash d = HashBytes E (DoHash E (fst (MarshalHeader E (Some ?h))))"
    by (simp_all add: child_block_def)
  have data: "ProtoBlock_GetHeader (Proposal_GetBlock (Some p)) = Some ?h"
    using d(1) hdr by (simp add: ProtoBlock_GetHeader_def Proposal_GetBlock_def nil_safe_def)
  then have hash: "hash = DoHash E (fst (MarshalHeader E (Some ?h)))" "ToHash E (pb_BlockHash d) = hash"
    using assms(5-7) bytes by (simp_all add: hash_bytes_law_def)
  have "Verify E pk (fst (MarshalHeader E (Some ?h))) (pr_MiningProof p) = (True, False)"
    using assms(3) new(6) by (simp add: keys_match_def)
  then have "proposal_checks E r p ep t = Inr True"
    using assms(2,4,8,10) by (simp add: proposal_checks_def d hash(2) data verified_def GetBlockHash_ext_of)
  then show ?thesis
    using assms(9,11) by (simp add: forward_def Let_def)
qed

theorem honest_proposal_forwarded_witness:
  "\<exists>p'. forward sample_env rev sample_proposal (sample_node 1 3)
     = Inr (spawn [Act_Broadcast (Msg_Prop p'), Act_sendPropose p'] (sample_node 1 3))"
proof -
  obtain ep where ep: "ExtProposal_FromProto sample_env sample_proposal = Inr ep"
    "IsCertValid sample_env rev (sample_node 1 3) (ep_BlockCertificate ep) = Inr True"
    using sample_proposal_facts(2) by (auto split: sum.splits)
  have "length (DoHash sample_env d) = 32" "DoHash sample_env d \<noteq> EmptyHash" for d
    by (auto simp: sample_env_def EmptyHash_def replicate_eq_replicate numeral_eq_Suc)
  moreover have "Sign sample_env k d = (k @ d, False)" for k d
    by (simp add: sample_env_def)
  ultimately show ?thesis
    using honest_proposal_forwarded [OF sample_proposal_facts(1,4) sample_keys_match(1) sample_proposal_facts(5)
        sample_keys_match(2) refl _ _ ep] by blast
qed

end
