(* ===== verification/Evidence_Properties.thy ===== *)
theory Evidence_Properties
  imports Protocol_Properties
begin

text \<open>
  Detecting and punishing misbehaviour: when the forward handler sees an equivocation, what accepted
  evidence proves and what it does not, what the handlers then change, and what a new client changes.
\<close>

section \<open>Equivocation\<close>

text \<open>C24. Equivocation is detected by comparing block hashes: for a proposal that passes all checks in a
  view whose first proposal is known, the handler raises the flag exactly when the two blocks have
  different hashes. It then neither moves the head nor votes; a follower sends both proposals as
  evidence.\<close>

theorem equivocation_detected:
  assumes "\<not> equivocatingProposalInject s" and "ExtProposal_FromProto E p = Inr ep"
    and "proposal_checks E r p ep s = Inr True"
    and "verified E (GetPubKeyFromID (cfg s) (pr_ForwardSender p))
      (fst (MarshalHeader E (ProtoBlock_GetHeader (Proposal_GetBlock (Some p))))) (pr_ForwardSig p) = Inr True"
    and "mget (proposalByviewMap s) (view s) = Some q" and "ExtProposal_FromProto E q = Inr eq"
    and "ExtBlock_GetBlockHash E (ep_ExtBlock eq) \<noteq> ExtBlock_GetBlockHash E (ep_ExtBlock ep)"
  shows "\<exists>s'. forwardProposalHandler E r p s = Inr s' \<and> equivocatingProposalInject s' \<and> bc s' = bc s \<and> voteMap s' = voteMap s
    \<and> goroutines s' = goroutines s @ (if GetID (cfg s) \<noteq> leader s then [[Act_sendEqProEvidenceCall q p]] else [])"
proof -
  obtain d d' where d: "ep_Proposal ep = p" "ep_ExtBlock ep = ext_of E d" "ep_ExtBlock eq = ext_of E d'"
    using ExtProposal_FromProto_block [OF assms(2)] ExtProposal_FromProto_block [OF assms(6)] by metis
  then obtain h h' where h: "ExtBlock_GetBlockHash E (ext_of E d) = Inr h" "ExtBlock_GetBlockHash E (ext_of E d') = Inr h'"
    by (auto simp: GetBlockHash_ext_of)
  have "forwardProposalHandler E r p s = fh_compare E p ep s"
    using assms(1-4) by (simp add: forwardProposalHandler_def d Let_def)
  also have "\<dots> = Inr (let s2 = s\<lparr>proposalByviewMap := mput (view s) q (proposalByviewMap s), equivocatingProposalInject := True\<rparr>
      in if GetID (cfg s) \<noteq> leader s then spawn [Act_sendEqProEvidenceCall q p] s2 else s2)"
    using assms(5-7) h by (simp add: fh_compare_def d Let_def)
  finally show ?thesis
    by (simp add: Let_def spawn_def)
qed

text \<open>A second proposal of node 0 for the same height, forwarded by node 2.\<close>

definition sample_other :: Proposal where
  "sample_other = (case NewCandidateProposal sample_env [[42]] (GenesisCert sample_env) 1 [50] (sample_node 0 3) of
     Inr (p, _) \<Rightarrow> p\<lparr>pr_ForwardSender := 2,
       pr_ForwardSig := 2 # fst (MarshalHeader sample_env (ProtoBlock_GetHeader (Proposal_GetBlock (Some p))))\<rparr>
   | _ \<Rightarrow> sample_proposal)"

definition sample_follower :: SyncHS where
  "sample_follower = (sample_node 1 3)\<lparr>proposalByviewMap := [(1, sample_proposal)]\<rparr>"

lemma sample_equivocation:
  "\<not> equivocatingProposalInject sample_follower" "mget (proposalByviewMap sample_follower) (view sample_follower) = Some sample_proposal"
  "GetID (cfg sample_follower) \<noteq> leader sample_follower" "goroutines sample_follower = []"
  "verified sample_env (GetPubKeyFromID (cfg sample_follower) (pr_ForwardSender sample_other))
      (fst (MarshalHeader sample_env (ProtoBlock_GetHeader (Proposal_GetBlock (Some sample_other))))) (pr_ForwardSig sample_other) = Inr True"
  "case ExtProposal_FromProto sample_env sample_other of
     Inr ep \<Rightarrow> proposal_checks sample_env rev sample_other ep sample_follower = Inr True \<and>
       (case ExtProposal_FromProto sample_env sample_proposal of
          Inr eq \<Rightarrow> ExtBlock_GetBlockHash sample_env (ep_ExtBlock eq) \<noteq> ExtBlock_GetBlockHash sample_env (ep_ExtBlock ep)
        | _ \<Rightarrow> False)
   | _ \<Rightarrow> False"
  by code_simp+

theorem equivocation_detected_witness:
  "\<exists>s'. forwardProposalHandler sample_env rev sample_other sample_follower = Inr s' \<and> equivocatingProposalInject s'
     \<and> goroutines s' = [[Act_sendEqProEvidenceCall sample_proposal sample_other]]"
proof -
  obtain ep eq where e: "ExtProposal_FromProto sample_env sample_other = Inr ep"
    "proposal_checks sample_env rev sample_other ep sample_follower = Inr True"
    "ExtProposal_FromProto sample_env sample_proposal = Inr eq"
    "ExtBlock_GetBlockHash sample_env (ep_ExtBlock eq) \<noteq> ExtBlock_GetBlockHash sample_env (ep_ExtBlock ep)"
    using sample_equivocation(6) by (auto split: sum.splits)
  show ?thesis
    using equivocation_detected [OF sample_equivocation(1) e(1,2) sample_equivocation(5,2) e(3,4)] sample_equivocation(3,4)
    by auto
qed

section \<open>What evidence proves\<close>

lemma verified_True: "verified E key data sig = Inr True \<longleftrightarrow> (\<exists>k. key = Some k \<and> Verify E k data sig = (True, False))"
  by (auto simp: verified_def bind_r_eq_Inr case_prod_beta prod_eq_iff Let_def)

lemma origin_signed_True:
  "origin_signed E s ev d = Inr True \<longleftrightarrow> \<not> snd (MarshalEvidenceData E (Some d)) \<and>
     (\<exists>k. GetPubKeyFromID (cfg s) (ev_EvOrigin ev) = Some k
        \<and> Verify E k (fst (MarshalEvidenceData E (Some d))) (ev_OrSignature ev) = (True, False))"
  by (auto simp: origin_signed_def case_prod_beta Let_def verified_True)

text \<open>C25. Accepted evidence of an equivocation is about the current leader and view, its sender signed
  it, and both proposals it contains carry the leader's signature over their headers.\<close>

theorem equivocation_evidence_sound:
  assumes "isEqpEvidenceValid E s e = Inr True"
  shows "\<exists>ev d k ko. eq_Evidence e = Some ev \<and> ev_EvidenceData ev = Some d
    \<and> ed_MisbehaviourTarget d = leader s \<and> ed_View d = view s
    \<and> GetPubKeyFromID (cfg s) (ev_EvOrigin ev) = Some ko
    \<and> Verify E ko (fst (MarshalEvidenceData E (Some d))) (ev_OrSignature ev) = (True, False)
    \<and> GetPubKeyFromID (cfg s) (leader s) = Some k
    \<and> Verify E k (fst (MarshalHeader E (ProtoBlock_GetHeader (Proposal_GetBlock (eq_E1 e))))) (Proposal_GetMiningProof (eq_E1 e)) = (True, False)
    \<and> Verify E k (fst (MarshalHeader E (ProtoBlock_GetHeader (Proposal_GetBlock (eq_E2 e))))) (Proposal_GetMiningProof (eq_E2 e)) = (True, False)"
proof -
  obtain ev d where e: "eq_Evidence e = Some ev" "ev_EvidenceData ev = Some d"
    using assms by (auto simp: isEqpEvidenceValid_def evidence_parts_def bind_r_eq_Inr)
  then have "origin_signed E s ev d = Inr True" "ed_MisbehaviourTarget d = leader s" "ed_View d = view s"
    "verified E (GetPubKeyFromID (cfg s) (leader s)) (fst (MarshalHeader E (ProtoBlock_GetHeader (Proposal_GetBlock (eq_E1 e)))))
       (Proposal_GetMiningProof (eq_E1 e)) = Inr True"
    "verified E (GetPubKeyFromID (cfg s) (leader s)) (fst (MarshalHeader E (ProtoBlock_GetHeader (Proposal_GetBlock (eq_E2 e)))))
       (Proposal_GetMiningProof (eq_E2 e)) = Inr True"
    using assms by (auto simp: isEqpEvidenceValid_def evidence_parts_def bind_r_eq_Inr case_prod_beta Let_def split: if_splits)
  then show ?thesis
    unfolding origin_signed_True verified_True using e by force
qed

text \<open>Evidence against leader 0, signed by node 2.\<close>

definition sample_charge :: EvidenceData where
  "sample_charge = \<lparr>ed_MisbehaviourTarget = 0, ed_View = 1\<rparr>"

definition sample_evidence :: Evidence where
  "sample_evidence = \<lparr>ev_EvidenceData = Some sample_charge, ev_EvOrigin = 2, ev_OrSignature = 2 # sample_enc_ed (Some sample_charge)\<rparr>"

definition sample_eq_evidence :: EquivocationEvidence where
  "sample_eq_evidence = \<lparr>eq_Evidence = Some sample_evidence, eq_E1 = Some sample_proposal, eq_E2 = Some sample_other\<rparr>"

lemma sample_eq_evidence_valid: "isEqpEvidenceValid sample_env sample_follower sample_eq_evidence = Inr True"
  by code_simp

theorem equivocation_evidence_sound_witness:
  "\<exists>k. GetPubKeyFromID (cfg sample_follower) 0 = Some k
     \<and> Verify sample_env k (fst (MarshalHeader sample_env (ProtoBlock_GetHeader (Proposal_GetBlock (Some sample_proposal)))))
         (Proposal_GetMiningProof (Some sample_proposal)) = (True, False)
     \<and> Verify sample_env k (fst (MarshalHeader sample_env (ProtoBlock_GetHeader (Proposal_GetBlock (Some sample_other)))))
         (Proposal_GetMiningProof (Some sample_other)) = (True, False)"
proof -
  have "leader sample_follower = 0"
    by code_simp
  then show ?thesis
    using equivocation_evidence_sound [OF sample_eq_evidence_valid] by (auto simp: sample_eq_evidence_def)
qed

section \<open>Punishing an equivocation\<close>

lemma commit_empty_ok:
  assumes "getCertForBlockIndex (Head (bc s)) s = Some cert"
  shows "\<exists>s' c. commit_empty E s = Inr (Some s') \<and> Head (bc s') = Head (bc s) + 1
    \<and> mget (BlocksByHeight (bc s')) (Head (bc s')) = Some (ext_of E (child_block E [] cert (Head (bc s) + 1) [69] EmptyHash))
    \<and> getCertForBlockIndex (view s) s' = Some c \<and> PC_GetSigners (bc_Partial c) = []
    \<and> view s' = view s \<and> leader s' = leader s \<and> equiproposalMap s' = equiproposalMap s"
  using assms
  by (simp add: commit_empty_def createAnEmptyBlock_eq store_block_def GetBlockHash_ext_of Let_def addCert_def
      getCertForBlockIndex_def BC_SetBlockInfo_def BlockCertificate_zero_def PartialCertificate_zero_def PC_GetSigners_def)

text \<open>C26. Valid evidence against a leader that was not convicted in this view replaces the block of the
  view by an empty one: the head moves by one, the block there has no commands and extends the certified
  block, the view has a certificate without signers, and the leader is marked, which costs it ten
  proposals in the next reputation.\<close>

theorem equivocation_punished:
  assumes "isEqpEvidenceValid E s e = Inr True" and "mget2 (equiproposalMap s) (view s) (leader s) \<noteq> Some 1"
    and "getCertForBlockIndex (Head (bc s)) s = Some cert"
  shows "\<exists>s' d c. EquivocationEvidenceHandler E e s = Inr s' \<and> Head (bc s') = Head (bc s) + 1
    \<and> mget (BlocksByHeight (bc s')) (Head (bc s')) = Some (ext_of E d) \<and> ProtoBody_GetTxs (pb_Body d) = []
    \<and> ProtoHeader_GetParentHash (pb_Header d) = HashBytes E (fst (BC_GetBlockInfo E cert))
    \<and> getCertForBlockIndex (view s) s' = Some c \<and> PC_GetSigners (bc_Partial c) = []
    \<and> mget2 (equiproposalMap s') (view s) (leader s) = Some 1"
proof -
  let ?d = "child_block E [] cert (Head (bc s) + 1) [69] EmptyHash"
  obtain s1 c where s1: "commit_empty E s = Inr (Some s1)" "Head (bc s1) = Head (bc s) + 1"
    "mget (BlocksByHeight (bc s1)) (Head (bc s1)) = Some (ext_of E ?d)"
    "getCertForBlockIndex (view s) s1 = Some c" "PC_GetSigners (bc_Partial c) = []"
    "view s1 = view s" "leader s1 = leader s" "equiproposalMap s1 = equiproposalMap s"
    using commit_empty_ok [OF assms(3)] by metis
  have "EquivocationEvidenceHandler E e s = Inr (addEquiProposaltoMap s1)"
    using assms(1,2) s1(1) by (simp add: EquivocationEvidenceHandler_def)
  moreover have "bc (addEquiProposaltoMap s1) = bc s1" "certMap (addEquiProposaltoMap s1) = certMap s1"
    "mget2 (equiproposalMap (addEquiProposaltoMap s1)) (view s) (leader s) = Some 1"
    using assms(2) s1(6-8) by (auto simp: addEquiProposaltoMap_def mget2_mput)
  moreover have "ProtoBody_GetTxs (pb_Body ?d) = []"
    "ProtoHeader_GetParentHash (pb_Header ?d) = HashBytes E (fst (BC_GetBlockInfo E cert))"
    by (simp_all add: child_block_def child_header_def ProtoBody_GetTxs_def ProtoHeader_GetParentHash_def nil_safe_def)
  ultimately show ?thesis
    using s1 unfolding getCertForBlockIndex_def by metis
qed

theorem equivocation_punished_witness:
  "\<exists>s' d. EquivocationEvidenceHandler sample_env sample_eq_evidence sample_follower = Inr s' \<and> Head (bc s') = 1
     \<and> mget (BlocksByHeight (bc s')) 1 = Some (ext_of sample_env d) \<and> ProtoBody_GetTxs (pb_Body d) = []
     \<and> mget2 (equiproposalMap s') 1 0 = Some 1"
proof -
  have f: "mget2 (equiproposalMap sample_follower) (view sample_follower) (leader sample_follower) \<noteq> Some 1"
    "getCertForBlockIndex (Head (bc sample_follower)) sample_follower = Some (GenesisCert sample_env)"
    "Head (bc sample_follower) = 0" "view sample_follower = 1" "leader sample_follower = 0"
    by code_simp+
  obtain s' d where "EquivocationEvidenceHandler sample_env sample_eq_evidence sample_follower = Inr s'"
    "Head (bc s') = Head (bc sample_follower) + 1" "mget (BlocksByHeight (bc s')) (Head (bc s')) = Some (ext_of sample_env d)"
    "ProtoBody_GetTxs (pb_Body d) = []" "mget2 (equiproposalMap s') (view sample_follower) (leader sample_follower) = Some 1"
    using equivocation_punished [OF sample_eq_evidence_valid f(1,2)] by blast
  then show ?thesis
    using f(3-5) by auto
qed

text \<open>C37. One honest proposal is enough to convict its leader: the check does not compare the two
  proposals of the evidence, so evidence that repeats a single proposal the leader signed, sent by any
  node with a key, is valid.\<close>

theorem single_proposal_convicts:
  assumes "verified E (GetPubKeyFromID (cfg s) (leader s)) (fst (MarshalHeader E (ProtoBlock_GetHeader (pr_Block p)))) (pr_MiningProof p) = Inr True"
    and "\<not> snd (MarshalHeader E (ProtoBlock_GetHeader (pr_Block p)))"
    and "origin_signed E s ev \<lparr>ed_MisbehaviourTarget = leader s, ed_View = view s\<rparr> = Inr True"
    and "ev_EvidenceData ev = Some \<lparr>ed_MisbehaviourTarget = leader s, ed_View = view s\<rparr>"
  shows "isEqpEvidenceValid E s \<lparr>eq_Evidence = Some ev, eq_E1 = Some p, eq_E2 = Some p\<rparr> = Inr True"
  using assms by (simp add: isEqpEvidenceValid_def evidence_parts_def case_prod_beta Let_def Proposal_GetBlock_def
      Proposal_GetMiningProof_def nil_safe_def)

theorem single_proposal_convicts_witness:
  "isEqpEvidenceValid sample_env sample_follower
     \<lparr>eq_Evidence = Some sample_evidence, eq_E1 = Some sample_proposal, eq_E2 = Some sample_proposal\<rparr> = Inr True"
  by (rule single_proposal_convicts; code_simp)

section \<open>Malicious votes\<close>

text \<open>C38. An honest vote is enough to convict its voter: evidence of a malicious vote is accepted for any
  vote with a valid signature, also one for the block of the leader, and the voter is marked.\<close>

theorem honest_vote_convicts:
  assumes "pv_Data v = Some vd" and "pv_Body v = Some b" and "vd_Owner vd = leader s"
    and "\<not> snd (MarshalVoteData E (Some vd))"
    and "verified E (GetPubKeyFromID (cfg s) (vb_Voter b)) (fst (MarshalVoteData E (Some vd))) (vb_Signature b) = Inr True"
    and "ev_EvidenceData ev = Some d" and "ed_View d = view s" and "origin_signed E s ev d = Inr True"
    and "mget (voteMaliMap s) (view s) = None"
  shows "\<exists>s'. MaliciousVoteEvidenceHandler E \<lparr>mv_Evidence = Some ev, mv_E = Some v\<rparr> s = Inr s'
    \<and> mget2 (voteMaliMap s') (view s) (vb_Voter b) = Some 1"
  using assms by (simp add: MaliciousVoteEvidenceHandler_def isMalivEvidenceValid_def evidence_parts_def
      case_prod_beta Let_def addMaliVotetoMap_def)

text \<open>The vote of node 1 for the leader's block in view 1.\<close>

definition sample_leader_vote :: ProtoVote where
  "sample_leader_vote = (let d = \<lparr>vd_BlockHash = [7], vd_View = 1, vd_Owner = 0\<rparr> in
     \<lparr>pv_Data = Some d, pv_Body = Some \<lparr>vb_Voter = 1, vb_Signature = 1 # sample_enc_vd d\<rparr>\<rparr>)"

theorem honest_vote_convicts_witness:
  "\<exists>s'. MaliciousVoteEvidenceHandler sample_env \<lparr>mv_Evidence = Some sample_evidence, mv_E = Some sample_leader_vote\<rparr>
       (sample_node 0 3) = Inr s' \<and> mget2 (voteMaliMap s') 1 1 = Some 1"
proof -
  let ?d = "\<lparr>vd_BlockHash = [7], vd_View = 1, vd_Owner = 0\<rparr>" and ?s = "sample_node 0 3"
  let ?b = "\<lparr>vb_Voter = 1, vb_Signature = 1 # sample_enc_vd ?d\<rparr>"
  have "pv_Data sample_leader_vote = Some ?d" "pv_Body sample_leader_vote = Some ?b" "vd_Owner ?d = leader ?s"
    "\<not> snd (MarshalVoteData sample_env (Some ?d))"
    "verified sample_env (GetPubKeyFromID (cfg ?s) (vb_Voter ?b)) (fst (MarshalVoteData sample_env (Some ?d))) (vb_Signature ?b) = Inr True"
    "ev_EvidenceData sample_evidence = Some sample_charge" "ed_View sample_charge = view ?s"
    "origin_signed sample_env ?s sample_evidence sample_charge = Inr True" "mget (voteMaliMap ?s) (view ?s) = None"
    by code_simp+
  from honest_vote_convicts [OF this] show ?thesis
    by (simp add: sample_node_def)
qed

section \<open>Clients\<close>

text \<open>Every new client resets the reputations of the current view: whatever the nodes have earned,
  all of them have the initial score afterwards.\<close>

lemma new_client_resets_reputations:
  assumes "i \<in> set (node_ids s)"
  shows "mget2 (reputationMap (client_connect rw s)) (view (client_connect rw s)) i = Some (initialReplicaSore s)"
  using assms
  by (auto simp: client_connect_def setConsensusTimer_def initialReputation_eq addClient_def node_ids_def mget2_foldl_mput2)

end
