(* ===== verification/Client_Config.thy ===== *)
theory Client_Config
  imports Node_Config
begin

text \<open>
  The configuration of a client, \<^verbatim>\<open>config/client-conf.go\<close>, and what loading a configuration file
  guarantees for nodes and clients alike.
\<close>

section \<open>Client configuration\<close>

record ClientConfig =
  cl_ProtoInfo :: "ProtoInfo option"
  cl_NetConfig :: "NetConfig option"
  cl_CryptoConfig :: "CryptoConfig option"
  cl_alg :: "string option"
  cl_pvtKey :: privkey
  cl_nodeKeyMap :: "(u64, pubkey) gomap"
  cl_proto :: "ClientDataConfig option"

definition ClientConfig_zero :: ClientConfig where
  "ClientConfig_zero = \<lparr>cl_ProtoInfo = None, cl_NetConfig = None, cl_CryptoConfig = None, cl_alg = None,
     cl_pvtKey = [], cl_nodeKeyMap = [], cl_proto = None\<rparr>"

definition ClientConfig_ToProto :: "ClientConfig \<Rightarrow> ClientDataConfig \<times> ClientConfig" where
  "ClientConfig_ToProto cc = (case cl_proto cc of
       None \<Rightarrow> let d = \<lparr>cd_Info = cl_ProtoInfo cc, cd_NetConfig = cl_NetConfig cc, cd_CryptoCon = cl_CryptoConfig cc\<rparr>
               in (d, cc\<lparr>cl_proto := Some d\<rparr>)
     | Some d \<Rightarrow> (d, cc))"

text \<open>Unlike the node configuration, the client configuration does not update its cache.\<close>

definition ClientConfig_FromProto :: "ClientDataConfig \<Rightarrow> ClientConfig \<Rightarrow> ClientConfig" where
  "ClientConfig_FromProto data cc = cc\<lparr>cl_ProtoInfo := cd_Info data, cl_NetConfig := cd_NetConfig data,
     cl_CryptoConfig := cd_CryptoCon data\<rparr>"

definition ClientConfig_init :: "pki \<Rightarrow> ClientConfig \<Rightarrow> ClientConfig result" where
  "ClientConfig_init P cc = (case GetAlgo P (CryptoConfig_GetKeyType (cl_CryptoConfig cc)) of
       None \<Rightarrow> Inl ExplicitPanic
     | Some alg \<Rightarrow> Inr (cc\<lparr>cl_alg := Some alg,
         cl_pvtKey := PrivKeyFromBytes P alg (CryptoConfig_GetPvtKey (cl_CryptoConfig cc)),
         cl_nodeKeyMap := map (\<lambda>(i, b). (i, PubKeyFromBytes P alg b))
           (CryptoConfig_GetNodeKeyMap (cl_CryptoConfig cc))\<rparr>))"

definition NewClientConfig :: "pki \<Rightarrow> ClientDataConfig \<Rightarrow> ClientConfig result" where
  "NewClientConfig P con = ClientConfig_init P (ClientConfig_FromProto con ClientConfig_zero)"

definition ClientConfig_MarshalBinary :: "pki \<Rightarrow> ClientConfig \<Rightarrow> bytes option" where
  "ClientConfig_MarshalBinary P cc = MarshalClientData P (fst (ClientConfig_ToProto cc))"

definition ClientConfig_MarshalJSON :: "pki \<Rightarrow> ClientConfig \<Rightarrow> bytes option" where
  "ClientConfig_MarshalJSON P cc = JsonMarshalClientData P (fst (ClientConfig_ToProto cc))"

definition ClientConfig_UnmarshalBinary :: "pki \<Rightarrow> bytes \<Rightarrow> ClientConfig \<Rightarrow> (ClientConfig \<times> bool) result" where
  "ClientConfig_UnmarshalBinary P inp cc = (case UnmarshalClientData P inp of
       None \<Rightarrow> Inr (cc, False)
     | Some data \<Rightarrow> bind_r (ClientConfig_init P (ClientConfig_FromProto data cc)) (\<lambda>cc'. Inr (cc', False)))"

definition ClientConfig_UnmarshalJSON :: "pki \<Rightarrow> bytes \<Rightarrow> ClientConfig \<Rightarrow> (ClientConfig \<times> bool) result" where
  "ClientConfig_UnmarshalJSON P inp cc = (let (d, cc1) = ClientConfig_ToProto cc in
     case JsonUnmarshalClientData P inp d of
       None \<Rightarrow> Inr (cc1, True)
     | Some d' \<Rightarrow> bind_r (ClientConfig_init P (cc1\<lparr>cl_proto := Some d'\<rparr>)) (\<lambda>cc'. Inr (cc', False)))"

definition ClientConfig_GetNumNodes :: "ClientConfig \<Rightarrow> u64" where
  "ClientConfig_GetNumNodes cc = ProtoInfo_GetNodeSize (cl_ProtoInfo cc)"

definition ClientConfig_GetP2PAddrFromID :: "ClientConfig \<Rightarrow> u64 \<Rightarrow> string result" where
  "ClientConfig_GetP2PAddrFromID cc rid = bind_r (deref (mget (NetConfig_GetNodeAddressMap (cl_NetConfig cc)) rid))
     (\<lambda>a. Inr (''/ip4/'' @ ad_IP a @ ''/tcp/'' @ ad_Port a))"

definition ClientConfig_GetMyKey :: "ClientConfig \<Rightarrow> privkey" where
  "ClientConfig_GetMyKey cc = cl_pvtKey cc"

definition ClientConfig_GetPubKeyFromID :: "ClientConfig \<Rightarrow> u64 \<Rightarrow> pubkey option" where
  "ClientConfig_GetPubKeyFromID cc nid = mget (cl_nodeKeyMap cc) nid"

definition ClientConfig_GetPeerFromID :: "pki \<Rightarrow> ClientConfig \<Rightarrow> u64 \<Rightarrow> addr_info result" where
  "ClientConfig_GetPeerFromID P cc nid = (case IDFromPublicKey P (ClientConfig_GetPubKeyFromID cc nid) of
       None \<Rightarrow> Inl ExplicitPanic
     | Some pID \<Rightarrow> bind_r (ClientConfig_GetP2PAddrFromID cc nid) (\<lambda>a. case NewMultiaddr P a of
         None \<Rightarrow> Inl ExplicitPanic
       | Some addr \<Rightarrow> Inr (pID, [addr])))"

section \<open>Loading a configuration\<close>

text \<open>
  What nodes and clients share: a configuration holds a message, \<open>FromProto\<close> stores one, \<open>init\<close>
  derives keys from it or panics when its key type is unknown. Loading is decoding, storing, \<open>init\<close>.
\<close>

locale config_loader =
  fixes from_proto :: "'d \<Rightarrow> 'c \<Rightarrow> 'c" and init :: "'c \<Rightarrow> 'c result" and stored :: "'c \<Rightarrow> 'd"
    and known :: "'d \<Rightarrow> bool" and decode :: "bytes \<Rightarrow> 'd option"
    and load :: "bytes \<Rightarrow> 'c \<Rightarrow> ('c \<times> bool) result"
  assumes stored_from: "stored (from_proto d c) = d"
    and init_known: "known (stored c) \<Longrightarrow> \<exists>c'. init c = Inr c' \<and> stored c' = stored c"
    and init_unknown: "\<not> known (stored c) \<Longrightarrow> init c = Inl ExplicitPanic"
    and load_eq: "load inp c = (case decode inp of None \<Rightarrow> Inr (c, False)
      | Some d \<Rightarrow> bind_r (init (from_proto d c)) (\<lambda>c'. Inr (c', False)))"
begin

lemma load_cases:
  "(decode inp = None \<longrightarrow> load inp c = Inr (c, False))
   \<and> (\<forall>d. decode inp = Some d \<and> known d \<longrightarrow> (\<exists>c'. load inp c = Inr (c', False) \<and> stored c' = d))
   \<and> (\<forall>d. decode inp = Some d \<and> \<not> known d \<longrightarrow> load inp c = Inl ExplicitPanic)"
proof (cases "decode inp")
  case (Some d)
  then show ?thesis
    using init_known [of "from_proto d c"] init_unknown [of "from_proto d c"] by (auto simp: load_eq stored_from)
qed (simp add: load_eq)

end

text \<open>A configuration that can also be saved: what is saved of a configuration made from a message is the
  encoded message. Loading it into the zero value gives the configuration back.\<close>

locale config_file = config_loader from_proto init stored known decode load
  for from_proto :: "'d \<Rightarrow> 'c \<Rightarrow> 'c" and init stored known decode load +
  fixes zero :: 'c and encode :: "'d \<Rightarrow> bytes option" and save :: "'c \<Rightarrow> bytes option"
  assumes save_new: "init (from_proto d zero) = Inr c \<Longrightarrow> save c = encode d"
begin

lemma save_load:
  assumes "\<forall>d b. encode d = Some b \<longrightarrow> decode b = Some d"
    and "init (from_proto d zero) = Inr c" and "save c = Some b"
  shows "load b zero = Inr (c, False) \<and> stored c = d"
proof -
  have "decode b = Some d"
    using assms(1,3) save_new [OF assms(2)] by simp
  moreover have "stored c = d"
    using assms(2) init_known [of "from_proto d zero"] init_unknown [of "from_proto d zero"] by (fastforce simp: stored_from)
  ultimately show ?thesis
    using assms(2) by (simp add: load_eq)
qed

end

definition NodeConfig_stored :: "NodeConfig \<Rightarrow> NodeDataConfig" where
  "NodeConfig_stored nc = \<lparr>nd_ProtConfig = nc_SyncHSConfig nc, nd_NetConfig = nc_NetConfig nc,
     nd_ClientPort = nc_ClientPort nc, nd_CryptoCon = nc_CryptoConfig nc\<rparr>"

definition ClientConfig_stored :: "ClientConfig \<Rightarrow> ClientDataConfig" where
  "ClientConfig_stored cc = \<lparr>cd_Info = cl_ProtoInfo cc, cd_NetConfig = cl_NetConfig cc, cd_CryptoCon = cl_CryptoConfig cc\<rparr>"

definition known_key_type :: "pki \<Rightarrow> CryptoConfig option \<Rightarrow> bool" where
  "known_key_type P c \<longleftrightarrow> GetAlgo P (CryptoConfig_GetKeyType c) \<noteq> None"

interpretation node_loader: config_loader NodeConfig_FromProto "NodeConfig_init P" NodeConfig_stored
  "\<lambda>d. known_key_type P (nd_CryptoCon d)" "UnmarshalNodeData P" "NodeConfig_UnmarshalBinary P"
  for P
  by unfold_locales (auto simp: NodeConfig_FromProto_def NodeConfig_init_def NodeConfig_stored_def
      known_key_type_def NodeConfig_UnmarshalBinary_def split: option.splits)

interpretation client_loader: config_loader ClientConfig_FromProto "ClientConfig_init P" ClientConfig_stored
  "\<lambda>d. known_key_type P (cd_CryptoCon d)" "UnmarshalClientData P" "ClientConfig_UnmarshalBinary P"
  for P
  by unfold_locales (auto simp: ClientConfig_FromProto_def ClientConfig_init_def ClientConfig_stored_def
      known_key_type_def ClientConfig_UnmarshalBinary_def split: option.splits)

interpretation node_file: config_file NodeConfig_FromProto "NodeConfig_init P" NodeConfig_stored
  "\<lambda>d. known_key_type P (nd_CryptoCon d)" "UnmarshalNodeData P" "NodeConfig_UnmarshalBinary P"
  NodeConfig_zero "MarshalNodeData P" "NodeConfig_MarshalBinary P"
  for P
  by unfold_locales (auto simp: NodeConfig_FromProto_def NodeConfig_init_def NodeConfig_MarshalBinary_def
      NodeConfig_ToProto_def split: option.splits)

lemma ClientDataConfig_collapse [simp]:
  "\<lparr>cd_Info = cd_Info d, cd_NetConfig = cd_NetConfig d, cd_CryptoCon = cd_CryptoCon d\<rparr> = d"
  by (cases d) simp

interpretation client_file: config_file ClientConfig_FromProto "ClientConfig_init P" ClientConfig_stored
  "\<lambda>d. known_key_type P (cd_CryptoCon d)" "UnmarshalClientData P" "ClientConfig_UnmarshalBinary P"
  ClientConfig_zero "MarshalClientData P" "ClientConfig_MarshalBinary P"
  for P
  by unfold_locales (auto simp: ClientConfig_FromProto_def ClientConfig_init_def ClientConfig_MarshalBinary_def
      ClientConfig_ToProto_def ClientConfig_zero_def Let_def split: option.splits)

section \<open>Properties\<close>

text \<open>C29. A configuration survives its file, for nodes and clients: what was built from a message, saved
  and loaded into a fresh structure is the same configuration, keys and caches included, provided that
  decoding inverts encoding.\<close>

theorem config_file_roundtrip:
  assumes "\<forall>d b. MarshalNodeData P d = Some b \<longrightarrow> UnmarshalNodeData P b = Some d"
    and "\<forall>d b. MarshalClientData P d = Some b \<longrightarrow> UnmarshalClientData P b = Some d"
  shows "(NewNodeConfig P d = Inr nc \<and> NodeConfig_MarshalBinary P nc = Some b \<longrightarrow>
       NodeConfig_UnmarshalBinary P b NodeConfig_zero = Inr (nc, False) \<and> NodeConfig_stored nc = d)
    \<and> (NewClientConfig P e = Inr cc \<and> ClientConfig_MarshalBinary P cc = Some b' \<longrightarrow>
       ClientConfig_UnmarshalBinary P b' ClientConfig_zero = Inr (cc, False) \<and> ClientConfig_stored cc = e)"
  using node_file.save_load [OF assms(1)] client_file.save_load [OF assms(2)]
  unfolding NewNodeConfig_def NewClientConfig_def by blast

text \<open>Loading a configuration file, for nodes and clients: a decodable message with a known key type
  is stored completely; a message with an unknown key type panics; bytes that cannot be decoded leave
  the configuration as it was, and the caller is told that no error occurred.\<close>

lemma config_load:
  "(UnmarshalNodeData P inp = None \<longrightarrow> NodeConfig_UnmarshalBinary P inp nc = Inr (nc, False))
   \<and> (UnmarshalNodeData P inp = Some d \<and> known_key_type P (nd_CryptoCon d) \<longrightarrow>
       (\<exists>nc'. NodeConfig_UnmarshalBinary P inp nc = Inr (nc', False) \<and> NodeConfig_stored nc' = d))
   \<and> (UnmarshalNodeData P inp = Some d \<and> \<not> known_key_type P (nd_CryptoCon d) \<longrightarrow>
       NodeConfig_UnmarshalBinary P inp nc = Inl ExplicitPanic)
   \<and> (UnmarshalClientData P inp = None \<longrightarrow> ClientConfig_UnmarshalBinary P inp cc = Inr (cc, False))
   \<and> (UnmarshalClientData P inp = Some e \<and> known_key_type P (cd_CryptoCon e) \<longrightarrow>
       (\<exists>cc'. ClientConfig_UnmarshalBinary P inp cc = Inr (cc', False) \<and> ClientConfig_stored cc' = e))
   \<and> (UnmarshalClientData P inp = Some e \<and> \<not> known_key_type P (cd_CryptoCon e) \<longrightarrow>
       ClientConfig_UnmarshalBinary P inp cc = Inl ExplicitPanic)"
  using node_loader.load_cases [of P inp nc] client_loader.load_cases [of P inp cc] by blast

text \<open>A key algorithm named \<^verbatim>\<open>k\<close>; one file with this key type, one with another.\<close>

definition sample_crypto :: "string \<Rightarrow> CryptoConfig" where
  "sample_crypto k = \<lparr>cc_KeyType = k, cc_PvtKey = [7], cc_NodeKeyMap = [(0, [7]), (1, [8])]\<rparr>"

definition sample_node_file :: "string \<Rightarrow> NodeDataConfig" where
  "sample_node_file k = \<lparr>nd_ProtConfig = None, nd_NetConfig = None, nd_ClientPort = ''20000'', nd_CryptoCon = Some (sample_crypto k)\<rparr>"

definition sample_client_file :: ClientDataConfig where
  "sample_client_file = \<lparr>cd_Info = None, cd_NetConfig = None, cd_CryptoCon = Some (sample_crypto ''k'')\<rparr>"

definition sample_pki :: pki where
  "sample_pki = \<lparr>GetAlgo = \<lambda>k. if k = ''k'' then Some k else None, PrivKeyFromBytes = \<lambda>_ b. b, PubKeyFromBytes = \<lambda>_ b. b,
     MarshalNodeData = \<lambda>d. if d = sample_node_file ''k'' then Some [1] else if d = sample_node_file ''x'' then Some [2] else None,
     MarshalClientData = \<lambda>d. if d = sample_client_file then Some [3] else None, JsonMarshalNodeData = \<lambda>d. None, JsonMarshalClientData = \<lambda>d. None,
     UnmarshalNodeData = \<lambda>b. if b = [1] then Some (sample_node_file ''k'') else if b = [2] then Some (sample_node_file ''x'') else None,
     UnmarshalClientData = \<lambda>b. if b = [3] then Some sample_client_file else None, JsonUnmarshalNodeData = \<lambda>b d. Some (sample_node_file ''k''),
     JsonUnmarshalClientData = \<lambda>b d. Some sample_client_file,
     IDFromPublicKey = map_option (map (\<lambda>b. char_of (unat b))), NewMultiaddr = Some\<rparr>"

theorem config_file_roundtrip_witness:
  "\<exists>nc cc. NewNodeConfig sample_pki (sample_node_file ''k'') = Inr nc \<and> NodeConfig_MarshalBinary sample_pki nc = Some [1]
     \<and> NodeConfig_UnmarshalBinary sample_pki [1] NodeConfig_zero = Inr (nc, False)
     \<and> NewClientConfig sample_pki sample_client_file = Inr cc \<and> ClientConfig_MarshalBinary sample_pki cc = Some [3]
     \<and> ClientConfig_UnmarshalBinary sample_pki [3] ClientConfig_zero = Inr (cc, False)"
proof -
  have law: "\<forall>d b. MarshalNodeData sample_pki d = Some b \<longrightarrow> UnmarshalNodeData sample_pki b = Some d"
    "\<forall>d b. MarshalClientData sample_pki d = Some b \<longrightarrow> UnmarshalClientData sample_pki b = Some d"
    by (simp_all add: sample_pki_def)
  have known: "known_key_type sample_pki (nd_CryptoCon (sample_node_file ''k''))"
    "known_key_type sample_pki (cd_CryptoCon sample_client_file)"
    by code_simp+
  obtain nc where nc: "NewNodeConfig sample_pki (sample_node_file ''k'') = Inr nc"
    using node_loader.init_known [of sample_pki "NodeConfig_FromProto (sample_node_file ''k'') NodeConfig_zero"] known(1)
    unfolding node_loader.stored_from NewNodeConfig_def by blast
  obtain cc where cc: "NewClientConfig sample_pki sample_client_file = Inr cc"
    using client_loader.init_known [of sample_pki "ClientConfig_FromProto sample_client_file ClientConfig_zero"] known(2)
    unfolding client_loader.stored_from NewClientConfig_def by blast
  have "NodeConfig_MarshalBinary sample_pki nc = Some [1]" "ClientConfig_MarshalBinary sample_pki cc = Some [3]"
    using node_file.save_new [OF nc [unfolded NewNodeConfig_def]] client_file.save_new [OF cc [unfolded NewClientConfig_def]]
    by (simp_all add: sample_pki_def)
  with nc cc show ?thesis
    using config_file_roundtrip [OF law] by blast
qed

text \<open>A configuration in JSON cannot be loaded into a fresh structure: the decoded message only reaches
  the cache, so \<open>init\<close> sees an empty key type and panics, for nodes and clients, unless the empty string
  names an algorithm.\<close>

lemma json_load_panics:
  assumes "GetAlgo P [] = None" and "JsonUnmarshalNodeData P inp (NodeConfig_stored NodeConfig_zero) = Some d"
    and "JsonUnmarshalClientData P inp (ClientConfig_stored ClientConfig_zero) = Some e"
  shows "NodeConfig_UnmarshalJSON P inp NodeConfig_zero = Inl ExplicitPanic
    \<and> ClientConfig_UnmarshalJSON P inp ClientConfig_zero = Inl ExplicitPanic"
  using assms by (simp add: NodeConfig_UnmarshalJSON_def ClientConfig_UnmarshalJSON_def NodeConfig_ToProto_def
      ClientConfig_ToProto_def NodeConfig_zero_def ClientConfig_zero_def NodeConfig_stored_def ClientConfig_stored_def
      NodeConfig_init_def ClientConfig_init_def CryptoConfig_GetKeyType_def nil_safe_def Let_def)

end
