(* ===== verification/Gen_Config.thy ===== *)
theory Gen_Config
  imports Client_Config Protocol_Properties
begin

text \<open>
  The configuration generator, \<^verbatim>\<open>tools/options.go\<close> and \<^verbatim>\<open>tools/genConfig.go\<close>: it writes one file per
  replica and one for clients. The generated files fit together: every replica knows the public key
  of every other one, so replicas started from them accept each other's votes.
\<close>

section \<open>Options\<close>

record options =
  nReplicas :: u64
  nFaulty :: u64
  blkSize :: u64
  delta :: dyadic
  basePort :: "32 word"
  clientBasePort :: "32 word"
  outDir :: string
  defaultIP :: string

definition default_options :: options where
  "default_options = \<lparr>nReplicas = 10, nFaulty = 4, blkSize = 1, delta = (1, 0), basePort = 10000,
     clientBasePort = 20000, outDir = ''testData/'', defaultIP = ''127.0.0.1''\<rparr>"

text \<open>The values of the command-line flags; an absent flag has its default.\<close>

record flags =
  optNumReplica :: u64
  optNumFaulty :: u64
  optBlockSize :: u64
  optDelay :: u64
  optBasePort :: "32 word"
  optClientBasePort :: "32 word"
  optOutDir :: string

text \<open>\<open>float64(d) / 1000.0\<close>: the quotient is computed with 121 fractional bits, the last of which
  records a remainder, and rounded once to 53 bits.\<close>

definition div1000 :: "u64 \<Rightarrow> dyadic" where
  "div1000 d = (let (m, e) = dround 53 (uint d, 0); q = m * 2 ^ 120 div 1000;
     sticky = (if m * 2 ^ 120 mod 1000 = 0 then 0 else 1) in dround 53 (2 * q + sticky, e - 121))"

definition ParseOptions :: "flags \<Rightarrow> options \<Rightarrow> options" where
  "ParseOptions f opts =
    (let opts1 = (if nReplicas opts = optNumReplica f then opts\<lparr>nFaulty := optNumFaulty f\<rparr>
       else let opts2 = opts\<lparr>nReplicas := optNumReplica f\<rparr>; tempFaulty = (nReplicas opts2 - 1) div 2 in
         if optNumFaulty f < tempFaulty then opts2\<lparr>nFaulty := optNumFaulty f\<rparr>
         else opts2\<lparr>nFaulty := tempFaulty\<rparr>)
     in opts1\<lparr>blkSize := optBlockSize f, delta := div1000 (optDelay f), basePort := optBasePort f,
          clientBasePort := optClientBasePort f, outDir := optOutDir f\<rparr>)"

section \<open>Generating\<close>

text \<open>\<open>Sprintf("%d", n)\<close>.\<close>

fun decimal :: "nat \<Rightarrow> string" where
  "decimal n = (if n < 10 then [char_of (48 + n)] else decimal (n div 10) @ [char_of (48 + n mod 10)])"

declare decimal.simps [simp del]

text \<open>The ids of the replicas, in the order of the loops. The keys come from \<open>alg.KeyGen()\<close>: the raw
  private and public key of replica \<open>i\<close> are \<open>keys i\<close>.\<close>

definition replica_ids :: "options \<Rightarrow> u64 list" where
  "replica_ids opts = map word_of_nat [0..<unat (nReplicas opts)]"

definition node_address :: "options \<Rightarrow> 32 word \<Rightarrow> u64 \<Rightarrow> Address" where
  "node_address opts base i = \<lparr>ad_IP = defaultIP opts, ad_Port = decimal (unat (base + ucast i))\<rparr>"

definition gen_pubKeyMap :: "options \<Rightarrow> (u64 \<Rightarrow> bytes \<times> bytes) \<Rightarrow> (u64, bytes) gomap" where
  "gen_pubKeyMap opts keys = map (\<lambda>i. (i, snd (keys i))) (replica_ids opts)"

definition gen_node :: "options \<Rightarrow> string \<Rightarrow> (u64 \<Rightarrow> bytes \<times> bytes) \<Rightarrow> u64 \<Rightarrow> NodeDataConfig" where
  "gen_node opts alg keys i = \<lparr>
     nd_ProtConfig = Some \<lparr>sc_Id = i,
       sc_Info = Some \<lparr>pi_NodeSize = nReplicas opts, pi_Faults = nFaulty opts, pi_BlockSize = blkSize opts\<rparr>,
       sc_Delta = delta opts\<rparr>,
     nd_NetConfig = Some \<lparr>nw_NodeAddressMap = map (\<lambda>j. (j, node_address opts (basePort opts) j)) (replica_ids opts)\<rparr>,
     nd_ClientPort = ad_Port (node_address opts (clientBasePort opts) i),
     nd_CryptoCon = Some \<lparr>cc_KeyType = alg, cc_PvtKey = fst (keys i), cc_NodeKeyMap = gen_pubKeyMap opts keys\<rparr>\<rparr>"

text \<open>The number of faults of the client's file is not set.\<close>

definition gen_client :: "options \<Rightarrow> string \<Rightarrow> (u64 \<Rightarrow> bytes \<times> bytes) \<Rightarrow> bytes \<Rightarrow> ClientDataConfig" where
  "gen_client opts alg keys clientKey = \<lparr>
     cd_Info = Some \<lparr>pi_NodeSize = nReplicas opts, pi_Faults = 0, pi_BlockSize = blkSize opts\<rparr>,
     cd_NetConfig = Some \<lparr>nw_NodeAddressMap = map (\<lambda>j. (j, node_address opts (clientBasePort opts) j)) (replica_ids opts)\<rparr>,
     cd_CryptoCon = Some \<lparr>cc_KeyType = alg, cc_PvtKey = clientKey, cc_NodeKeyMap = gen_pubKeyMap opts keys\<rparr>\<rparr>"

section \<open>Decimal numbers\<close>

lemma decimal_length: "decimal n \<noteq> []"
  by (subst decimal.simps) simp

lemma digit_inj: "m < 10 \<Longrightarrow> n < 10 \<Longrightarrow> char_of (48 + m) = (char_of (48 + n) :: char) \<Longrightarrow> m = (n :: nat)"
  using arg_cong [of "char_of (48 + m)" "char_of (48 + n)" of_char] by simp

lemma decimal_inj: "decimal m = decimal n \<Longrightarrow> m = n"
proof (induction m arbitrary: n rule: less_induct)
  case (less m)
  consider "m < 10" "n < 10" | "m < 10" "\<not> n < 10" | "\<not> m < 10" "n < 10" | "\<not> m < 10" "\<not> n < 10"
    by blast
  then show ?case
  proof cases
    case 1
    then show ?thesis
      using less.prems digit_inj by (simp add: decimal.simps [of m] decimal.simps [of n])
  next
    case 4
    then have "decimal (m div 10) = decimal (n div 10)" "m mod 10 = n mod 10"
      using less.prems digit_inj [of "m mod 10" "n mod 10"] by (simp_all add: decimal.simps [of m] decimal.simps [of n])
    then have "m div 10 = n div 10" "m mod 10 = n mod 10"
      using less.IH [of "m div 10"] 4 by simp_all
    then show ?thesis
      by (metis div_mult_mod_eq)
  qed (use less.prems in \<open>simp_all add: decimal.simps [of m] decimal.simps [of n] decimal_length decimal_length [symmetric]\<close>)
qed

section \<open>The files fit together\<close>

lemma mget_ids: "mget (map (\<lambda>i. (i, f i)) is) j = (if j \<in> set is then Some (f j) else None)"
  by (induction "is") auto

lemma set_replica_ids: "j \<in> set (replica_ids opts) \<longleftrightarrow> j < nReplicas opts"
proof
  assume "j < nReplicas opts"
  then have "unat j < unat (nReplicas opts)"
    by (simp add: word_less_nat_alt)
  then show "j \<in> set (replica_ids opts)"
    unfolding replica_ids_def by (auto intro!: image_eqI [of _ _ "unat j"])
next
  assume "j \<in> set (replica_ids opts)"
  then obtain k where k: "j = word_of_nat k" "k < unat (nReplicas opts)"
    by (auto simp: replica_ids_def)
  moreover have "unat (nReplicas opts) < 2 ^ 64"
    using unsigned_less [of "nReplicas opts"] by simp
  ultimately show "j < nReplicas opts"
    by (simp add: word_less_nat_alt unat_of_nat)
qed

lemma generated_node:
  assumes "GetAlgo P alg = Some a" and "NewNodeConfig P (gen_node opts alg keys i) = Inr c"
  shows "GetID c = i" "GetNumNodes c = nReplicas opts" "GetBlockSize c = blkSize opts"
    "GetMyKey c = PrivKeyFromBytes P a (fst (keys i))"
    "GetPubKeyFromID c j = (if j < nReplicas opts then Some (PubKeyFromBytes P a (snd (keys j))) else None)"
    "j < nReplicas opts \<Longrightarrow> GetP2PAddrFromID c j = Inr (''/ip4/'' @ defaultIP opts @ ''/tcp/'' @ decimal (unat (basePort opts + ucast j)))"
proof -
  have c: "c = NodeConfig_zero\<lparr>nc_SyncHSConfig := nd_ProtConfig (gen_node opts alg keys i),
      nc_NetConfig := nd_NetConfig (gen_node opts alg keys i), nc_CryptoConfig := nd_CryptoCon (gen_node opts alg keys i),
      nc_ClientPort := nd_ClientPort (gen_node opts alg keys i), nc_proto := Some (gen_node opts alg keys i), nc_alg := Some a,
      nc_pvtKey := PrivKeyFromBytes P a (fst (keys i)),
      nc_nodeKeyMap := map (\<lambda>i. (i, PubKeyFromBytes P a (snd (keys i)))) (replica_ids opts)\<rparr>"
    using assms by (auto simp: NewNodeConfig_def NodeConfig_init_def NodeConfig_FromProto_def gen_node_def
        CryptoConfig_GetKeyType_def CryptoConfig_GetPvtKey_def CryptoConfig_GetNodeKeyMap_def nil_safe_def gen_pubKeyMap_def)
  show "GetID c = i" "GetNumNodes c = nReplicas opts" "GetBlockSize c = blkSize opts"
    "GetMyKey c = PrivKeyFromBytes P a (fst (keys i))"
    by (simp_all add: c GetID_def GetNumNodes_def GetBlockSize_def GetMyKey_def gen_node_def SyncHSConfig_GetId_def
        SyncHSConfig_GetInfo_def ProtoInfo_GetNodeSize_def ProtoInfo_GetBlockSize_def nil_safe_def)
  show "GetPubKeyFromID c j = (if j < nReplicas opts then Some (PubKeyFromBytes P a (snd (keys j))) else None)"
    by (simp add: c GetPubKeyFromID_def mget_ids set_replica_ids)
  show "GetP2PAddrFromID c j = Inr (''/ip4/'' @ defaultIP opts @ ''/tcp/'' @ decimal (unat (basePort opts + ucast j)))"
    if "j < nReplicas opts"
    using that by (simp add: c GetP2PAddrFromID_def gen_node_def NetConfig_GetNodeAddressMap_def nil_safe_def mget_ids
        set_replica_ids node_address_def)
qed

text \<open>The generated files fit together: a replica loaded from its file has its own id and the number
  of nodes of all files, knows exactly the public keys of the generated replicas, each matching the private
  key in the file of that replica, and, with at most \<open>2 ^ 32\<close> replicas, has a different address for each.\<close>

lemma generated_configs_fit:
  assumes "GetAlgo P alg = Some a" and "NewNodeConfig P (gen_node opts alg keys i) = Inr c"
    and "NewNodeConfig P (gen_node opts alg keys j) = Inr c'" and "j < nReplicas opts" and "k < nReplicas opts" and "j \<noteq> k"
    and "unat (nReplicas opts) \<le> 2 ^ 32"
    and "\<forall>x. keys_match E (PrivKeyFromBytes P a (fst (keys x))) (PubKeyFromBytes P a (snd (keys x)))"
  shows "GetID c = i \<and> GetNumNodes c = GetNumNodes c'
    \<and> (\<exists>pk. GetPubKeyFromID c j = Some pk \<and> keys_match E (GetMyKey c') pk)
    \<and> (GetPubKeyFromID c x \<noteq> None \<longleftrightarrow> x < GetNumNodes c)
    \<and> GetP2PAddrFromID c j \<noteq> GetP2PAddrFromID c k"
proof -
  note c = generated_node [OF assms(1,2)] and c' = generated_node [OF assms(1,3)]
  have "decimal (unat (basePort opts + ucast j)) \<noteq> decimal (unat (basePort opts + ucast k))"
  proof
    assume "decimal (unat (basePort opts + ucast j)) = decimal (unat (basePort opts + ucast k))"
    then have "basePort opts + (ucast j :: 32 word) = basePort opts + ucast k"
      by (intro word_unat_eq_iff [THEN iffD2] decimal_inj)
    then have "(ucast j :: 32 word) = ucast k"
      by simp
    moreover have "unat j < 2 ^ 32" "unat k < 2 ^ 32"
      using assms(4,5,7) by (auto simp: word_less_nat_alt)
    then have "unat (ucast j :: 32 word) = unat j" "unat (ucast k :: 32 word) = unat k"
      by (simp_all add: unsigned_ucast_eq take_bit_nat_eq_self)
    ultimately have "unat j = unat k"
      by simp
    then show False
      using assms(6) by (simp add: word_unat_eq_iff)
  qed
  then show ?thesis
    using assms(4,5,8) by (simp add: c c')
qed

text \<open>Three replicas with keys of one byte.\<close>

definition sample_options :: options where
  "sample_options = default_options\<lparr>nReplicas := 3, nFaulty := 1\<rparr>"

definition sample_keys :: "u64 \<Rightarrow> bytes \<times> bytes" where
  "sample_keys i = ([ucast i], [ucast i])"

section \<open>The number of faults\<close>

text \<open>The bound on the number of faulty replicas, at most \<open>(n - 1) / 2\<close>, is only enforced when the
  number of replicas differs from its default: with the default number any fault count is taken over.\<close>

lemma options_fault_bound:
  "(optNumReplica f \<noteq> nReplicas opts \<longrightarrow> nFaulty (ParseOptions f opts) \<le> (optNumReplica f - 1) div 2)
   \<and> (optNumReplica f = nReplicas opts \<longrightarrow> nFaulty (ParseOptions f opts) = optNumFaulty f)
   \<and> nReplicas (ParseOptions f opts) = optNumReplica f"
  by (auto simp: ParseOptions_def Let_def)

end
