(* ===== verification/Client_Acks.thy ===== *)
theory Client_Acks
  imports Msg_Cert Sample_Node "HOL-Library.Signed_Division"
begin

text \<open>
  The client program, \<^verbatim>\<open>client/client.go\<close>: numbering commands, sending them to all replicas, and
  counting acknowledgements, and the latency report. Every first commit of a block starts as many new commands as the block
  contains, so that the number of commands in flight stays constant.
\<close>

unbundle bit_operations_syntax

section \<open>Commands\<close>

text \<open>\<open>binary.LittleEndian.PutUint64\<close> writes eight bytes and panics on a shorter slice. The slice has
  \<open>8 + payload\<close> bytes, a sum of 64-bit numbers; that \<^verbatim>\<open>make\<close> panics on a size beyond the memory of the
  machine is not modelled.\<close>

definition PutUint64 :: "u64 \<Rightarrow> bytes \<Rightarrow> bytes result" where
  "PutUint64 v b = (if length b < 8 then Inl IndexOutOfRange
     else Inr (map (\<lambda>k. ucast (drop_bit (8 * k) v)) [0..<8] @ drop 8 b))"

definition build_cmd :: "u64 \<Rightarrow> u64 \<Rightarrow> bytes result" where
  "build_cmd payload idx = PutUint64 idx (replicate (unat (8 + payload)) 0)"

section \<open>State\<close>

text \<open>
  Times are numbers of nanoseconds, the zero time is 0. A started goroutine \<open>sendCommandToServer\<close> is
  an entry of \<open>ca_sending\<close>. Commands reach \<open>handleVotes\<close> through a channel that one loop fills in the
  order of their numbers, so the state only holds the number of the next command to be received.
\<close>

record Client =
  ca_voteMap :: "(u64, (hash, u64) gomap) gomap"
  ca_commitMap :: "(u64, (hash, bool) gomap) gomap"
  ca_timeMap :: "(hash, int) gomap"
  ca_commitTimeMetric :: "(hash, 64 word) gomap"
  ca_payload :: u64
  ca_idx :: u64
  ca_rwMap :: "(u64, unit) gomap"
  ca_sending :: "SyncHSMsg list"
  ca_out :: "(u64 \<times> bytes) list"

definition faultNum :: u64 where
  "faultNum = 0"

text \<open>\<open>Time.Sub\<close> saturates.\<close>

definition time_Sub :: "int \<Rightarrow> int \<Rightarrow> 64 word" where
  "time_Sub a b = word_of_int (max (- (2 ^ 63)) (min (2 ^ 63 - 1) (a - b)))"

section \<open>Sending\<close>

definition sendCommandToServer :: "env \<Rightarrow> u64 order \<Rightarrow> int \<Rightarrow> SyncHSMsg \<Rightarrow> Client \<Rightarrow> Client" where
  "sendCommandToServer E r now cmd s =
    (let cmdHash = DoHash E (case SyncHSMsg_GetTx cmd of None \<Rightarrow> [] | Some tx \<Rightarrow> tx); (data, err) = MarshalMsg E cmd in
     if err then s
     else s\<lparr>ca_timeMap := mput cmdHash now (ca_timeMap s),
            ca_out := ca_out s @ map (\<lambda>idx. (idx, data)) (r (mkeys (ca_rwMap s)))\<rparr>)"

text \<open>Building the next command and starting its goroutine: an iteration of the first loop of \<open>main\<close>, and
  what \<open>handleVotes\<close> does with a command it receives.\<close>

definition start_cmd :: "Client \<Rightarrow> Client result" where
  "start_cmd s = bind_r (build_cmd (ca_payload s) (ca_idx s)) (\<lambda>cmd.
     Inr (s\<lparr>ca_idx := ca_idx s + 1, ca_sending := ca_sending s @ [Msg_Tx cmd]\<rparr>))"

fun start_cmds :: "nat \<Rightarrow> Client \<Rightarrow> Client result" where
  "start_cmds 0 s = Inr s"
| "start_cmds (Suc n) s = bind_r (start_cmd s) (start_cmds n)"

section \<open>Acknowledgements\<close>

text \<open>One read of \<open>ackMsgHandler\<close>: the acknowledgement it puts into the channel, if any; \<open>Some None\<close> is a
  message of another kind, which is sent as a nil pointer.\<close>

definition ackMsgHandler :: "env \<Rightarrow> bytes \<Rightarrow> CommitAck option option" where
  "ackMsgHandler E buf = (let (m, err) = UnmarshalMsg E buf in if err then None else Some (SyncHSMsg_GetAck m))"

definition count_ack :: "u64 \<Rightarrow> hash \<Rightarrow> Client \<Rightarrow> Client" where
  "count_ack ht bhash s = (case mget2 (ca_voteMap s) ht bhash of
       None \<Rightarrow> s\<lparr>ca_voteMap := mput ht [(bhash, 1)] (ca_voteMap s), ca_commitMap := mput ht [(bhash, False)] (ca_commitMap s)\<rparr>
     | Some n \<Rightarrow> s\<lparr>ca_voteMap := mput2 ht bhash (n + 1) (ca_voteMap s)\<rparr>)"

text \<open>The loop over the commands of a block.\<close>

fun ack_txs :: "env \<Rightarrow> int \<Rightarrow> bool \<Rightarrow> bytes list \<Rightarrow> Client \<Rightarrow> Client result" where
  "ack_txs E received sendNew [] s = Inr s"
| "ack_txs E received sendNew (tx # txs) s =
    (let cmdHash = DoHash E tx; sent = (case mget (ca_timeMap s) cmdHash of None \<Rightarrow> 0 | Some t \<Rightarrow> t);
         s1 = s\<lparr>ca_commitTimeMetric := mput cmdHash (time_Sub received sent) (ca_commitTimeMetric s)\<rparr> in
     bind_r (if sendNew then start_cmd s1 else Inr s1) (ack_txs E received sendNew txs))"

definition handleVotes :: "env \<Rightarrow> int \<Rightarrow> CommitAck option \<Rightarrow> Client \<Rightarrow> Client result" where
  "handleVotes E received ack s = (case ack of
       None \<Rightarrow> Inr s
     | Some _ \<Rightarrow>
        let blk = CommitAck_GetBlock ack;
            bhash = ToHash E (ProtoBlock_GetBlockHash blk);
            ht = ProtoHeader_GetHeight (ProtoBlock_GetHeader blk);
            s1 = count_ack ht bhash s;
            old = (mget2 (ca_commitMap s1) ht bhash = Some True) in
        if (case mget2 (ca_voteMap s1) ht bhash of None \<Rightarrow> 0 | Some n \<Rightarrow> n) \<le> faultNum then Inr s1
        else case mget (ca_commitMap s1) ht of
            None \<Rightarrow> Inl NilMapWrite
          | Some m \<Rightarrow>
              let s2 = s1\<lparr>ca_commitMap := mput ht (mput bhash True m) (ca_commitMap s1)\<rparr>;
                  sendNewCommands = (old \<noteq> True);
                  txs = ProtoBody_GetTxs (ProtoBlock_GetBody blk) in
              if txs = [] \<and> sendNewCommands then start_cmd s2 else ack_txs E received sendNewCommands txs s2)"

fun handle_acks :: "env \<Rightarrow> (int \<times> CommitAck option) list \<Rightarrow> Client \<Rightarrow> Client result" where
  "handle_acks E [] s = Inr s"
| "handle_acks E ((received, ack) # acks) s = bind_r (handleVotes E received ack s) (handle_acks E acks)"

section \<open>The report\<close>

text \<open>\<open>Duration.Milliseconds\<close> divides the signed number of nanoseconds and truncates. A report prints the
  number of commands and the sum of their durations; \<open>count\<close> is declared outside of the loop of
  \<open>printMetrics\<close>. The arguments are the metric maps at the times of the reports, with the order of the
  \<^verbatim>\<open>range\<close> loop.\<close>

definition Milliseconds :: "64 word \<Rightarrow> 64 word" where
  "Milliseconds d = word_of_int (sint d sdiv 1000000)"

definition print_metric :: "(hash, 64 word) gomap \<Rightarrow> hash order \<Rightarrow> 64 word \<Rightarrow> 64 word \<times> 64 word" where
  "print_metric m r cnt = fold (\<lambda>k (n, c). (n + 1, c + Milliseconds (case mget m k of None \<Rightarrow> 0 | Some d \<Rightarrow> d))) (r (mkeys m)) (0, cnt)"

fun printMetrics :: "((hash, 64 word) gomap \<times> hash order) list \<Rightarrow> 64 word \<Rightarrow> (64 word \<times> 64 word) list" where
  "printMetrics [] cnt = []"
| "printMetrics ((m, r) # ms) cnt = (let (n, c) = print_metric m r cnt in (n, c) # printMetrics ms c)"

section \<open>Commands are unique\<close>

lemma PutUint64_inj:
  assumes "map (\<lambda>k. ucast (drop_bit (8 * k) v) :: 8 word) [0..<8] = map (\<lambda>k. ucast (drop_bit (8 * k) w)) [0..<8]"
  shows "v = (w :: u64)"
proof (rule bit_word_eqI)
  fix n assume "n < LENGTH(64)"
  then have k: "n div 8 \<in> set [0..<8]" "n mod 8 < 8" "8 * (n div 8) + n mod 8 = n"
    by auto
  have "(ucast (drop_bit (8 * (n div 8)) v) :: 8 word) = ucast (drop_bit (8 * (n div 8)) w)"
    using assms k(1) unfolding map_eq_conv by blast
  then have "bit (ucast (drop_bit (8 * (n div 8)) v) :: 8 word) (n mod 8) = bit (ucast (drop_bit (8 * (n div 8)) w) :: 8 word) (n mod 8)"
    by simp
  then show "bit v n = bit w n"
    using k(2,3) \<open>n < LENGTH(64)\<close> by (simp add: bit_simps)
qed

lemma build_cmd_eq:
  "build_cmd p i = (if unat (8 + p) < 8 then Inl IndexOutOfRange
     else Inr (map (\<lambda>k. ucast (drop_bit (8 * k) i)) [0..<8] @ replicate (unat (8 + p) - 8) 0))"
  by (simp add: build_cmd_def PutUint64_def)

lemma unat_8_plus: "unat (8 + p) < 8 \<longleftrightarrow> 2 ^ 64 - 8 \<le> unat (p :: u64)"
proof -
  have "unat p < 2 ^ 64"
    using unsigned_less [of p] by simp
  then have "unat (8 + p) = (if 8 + unat p < 2 ^ 64 then 8 + unat p else 8 + unat p - 2 ^ 64)"
    by (simp add: unat_word_ariths mod_if)
  then show ?thesis
    using \<open>unat p < 2 ^ 64\<close> by (auto split: if_splits)
qed

lemma build_cmd_total: "unat p < 2 ^ 64 - 8 \<Longrightarrow> \<exists>c. build_cmd p i = Inr c"
  using unat_8_plus [of p] by (auto simp: build_cmd_eq)

text \<open>Every command is unique: commands with different numbers or payload sizes are different byte
  strings, and building one fails only when \<open>8 + payload\<close> overflows.\<close>

lemma commands_unique:
  "(build_cmd p i = Inr c \<and> build_cmd q j = Inr c \<longrightarrow> i = j \<and> p = q)
   \<and> ((\<exists>x. build_cmd p i = Inl x) \<longleftrightarrow> 2 ^ 64 - 8 \<le> unat p)"
proof -
  have "i = j \<and> p = q" if "build_cmd p i = Inr c" "build_cmd q j = Inr c"
  proof -
    let ?le = "\<lambda>v :: u64. map (\<lambda>k. ucast (drop_bit (8 * k) v) :: 8 word) [0..<8]"
    have c: "?le i @ replicate (unat (8 + p) - 8) 0 = ?le j @ replicate (unat (8 + q) - 8) 0"
      and n: "8 \<le> unat (8 + p)" "8 \<le> unat (8 + q)"
      using that by (auto simp: build_cmd_eq split: if_splits)
    have "length (?le i) = length (?le j)"
      by (simp only: length_map)
    then have le: "?le i = ?le j" and "replicate (unat (8 + p) - 8) (0 :: 8 word) = replicate (unat (8 + q) - 8) 0"
      using c append_eq_append_conv by blast+
    then have "unat (8 + p) - 8 = unat (8 + q) - 8"
      by (metis length_replicate)
    then have "unat (8 + p) = unat (8 + q)"
      using n by linarith
    then have "8 + p = 8 + q"
      by (rule word_unat_eq_iff [THEN iffD2])
    then show ?thesis
      using PutUint64_inj [OF le] by simp
  qed
  moreover have "(\<exists>x. build_cmd p i = Inl x) \<longleftrightarrow> unat (8 + p) < 8"
    by (simp add: build_cmd_eq)
  ultimately show ?thesis
    unfolding unat_8_plus by blast
qed

section \<open>Acknowledgements\<close>

text \<open>The block of an acknowledgement, its commands, and how many new commands its commit starts.\<close>

definition ack_height :: "CommitAck \<Rightarrow> u64" where
  "ack_height a = ProtoHeader_GetHeight (ProtoBlock_GetHeader (ack_Block a))"

definition ack_hash :: "env \<Rightarrow> CommitAck \<Rightarrow> hash" where
  "ack_hash E a = ToHash E (ProtoBlock_GetBlockHash (ack_Block a))"

definition ack_new :: "CommitAck \<Rightarrow> nat" where
  "ack_new a = max 1 (length (ProtoBody_GetTxs (ProtoBlock_GetBody (ack_Block a))))"

text \<open>Effects on the fields that decide about new commands.\<close>

lemma start_cmd_ok:
  assumes "unat (ca_payload s) < 2 ^ 64 - 8"
  shows "\<exists>m. start_cmd s = Inr (s\<lparr>ca_idx := ca_idx s + 1, ca_sending := ca_sending s @ [m]\<rparr>)"
proof -
  obtain c where "build_cmd (ca_payload s) (ca_idx s) = Inr c"
    using assms build_cmd_total [of "ca_payload s" "ca_idx s"] by auto
  then show ?thesis
    by (auto simp: start_cmd_def)
qed

lemma ack_txs_new:
  assumes "unat (ca_payload s) < 2 ^ 64 - 8"
  shows "\<exists>s'. ack_txs E now True txs s = Inr s' \<and> ca_idx s' = ca_idx s + of_nat (length txs)
    \<and> length (ca_sending s') = length (ca_sending s) + length txs \<and> ca_payload s' = ca_payload s
    \<and> ca_voteMap s' = ca_voteMap s \<and> ca_commitMap s' = ca_commitMap s"
  using assms
proof (induction txs arbitrary: s)
  case (Cons tx txs)
  let ?s1 = "s\<lparr>ca_commitTimeMetric := mput (DoHash E tx)
    (time_Sub now (case mget (ca_timeMap s) (DoHash E tx) of None \<Rightarrow> 0 | Some t \<Rightarrow> t)) (ca_commitTimeMetric s)\<rparr>"
  obtain m where m: "start_cmd ?s1 = Inr (?s1\<lparr>ca_idx := ca_idx ?s1 + 1, ca_sending := ca_sending ?s1 @ [m]\<rparr>)"
    using start_cmd_ok [of ?s1] Cons.prems by auto
  have "unat (ca_payload (?s1\<lparr>ca_idx := ca_idx ?s1 + 1, ca_sending := ca_sending ?s1 @ [m]\<rparr>)) < 2 ^ 64 - 8"
    using Cons.prems by simp
  from Cons.IH [OF this] m show ?case
    by (auto simp: Let_def algebra_simps)
qed simp

lemma ack_txs_old:
  "\<exists>s'. ack_txs E now False txs s = Inr s' \<and> ca_idx s' = ca_idx s \<and> ca_sending s' = ca_sending s
    \<and> ca_payload s' = ca_payload s \<and> ca_voteMap s' = ca_voteMap s \<and> ca_commitMap s' = ca_commitMap s"
proof (induction txs arbitrary: s)
  case (Cons tx txs)
  show ?case
    using Cons.IH [of "s\<lparr>ca_commitTimeMetric := mput (DoHash E tx)
      (time_Sub now (case mget (ca_timeMap s) (DoHash E tx) of None \<Rightarrow> 0 | Some t \<Rightarrow> t)) (ca_commitTimeMetric s)\<rparr>"]
    by (simp add: Let_def)
qed simp

text \<open>The first acknowledgement of a block commits it and starts its new commands; the counters of this
  height are those of this block afterwards.\<close>

lemma handleVotes_first:
  assumes "mget2 (ca_voteMap s) (ack_height a) (ack_hash E a) = None" and "unat (ca_payload s) < 2 ^ 64 - 8"
  shows "\<exists>s'. handleVotes E now (Some a) s = Inr s' \<and> ca_idx s' = ca_idx s + of_nat (ack_new a)
    \<and> length (ca_sending s') = length (ca_sending s) + ack_new a \<and> ca_payload s' = ca_payload s
    \<and> mget (ca_voteMap s') (ack_height a) = Some [(ack_hash E a, 1)]
    \<and> mget (ca_commitMap s') (ack_height a) = Some [(ack_hash E a, True)]"
proof -
  let ?h = "ack_hash E a" and ?ht = "ack_height a" and ?txs = "ProtoBody_GetTxs (ProtoBlock_GetBody (ack_Block a))"
  let ?s2 = "s\<lparr>ca_voteMap := mput ?ht [(?h, 1)] (ca_voteMap s),
      ca_commitMap := mput ?ht [(?h, True)] (mput ?ht [(?h, False)] (ca_commitMap s))\<rparr>"
  have "handleVotes E now (Some a) s = (if ?txs = [] then start_cmd ?s2 else ack_txs E now True ?txs ?s2)"
    using assms(1) by (simp add: handleVotes_def count_ack_def mget2_mput faultNum_def Let_def CommitAck_GetBlock_def nil_safe_def
        ack_hash_def [symmetric] ack_height_def [symmetric])
  moreover obtain m where "start_cmd ?s2 = Inr (?s2\<lparr>ca_idx := ca_idx ?s2 + 1, ca_sending := ca_sending ?s2 @ [m]\<rparr>)"
    using start_cmd_ok [of ?s2] assms(2) by auto
  moreover obtain s' where "ack_txs E now True ?txs ?s2 = Inr s'" "ca_idx s' = ca_idx ?s2 + of_nat (length ?txs)"
    "length (ca_sending s') = length (ca_sending ?s2) + length ?txs" "ca_payload s' = ca_payload ?s2"
    "ca_voteMap s' = ca_voteMap ?s2" "ca_commitMap s' = ca_commitMap ?s2"
    using ack_txs_new [of ?s2 E now ?txs] assms(2) by auto
  ultimately show ?thesis
    by (cases "?txs = []") (auto simp: ack_new_def max_def Suc_le_eq)
qed

text \<open>A block that is committed already starts nothing, and stays committed.\<close>

definition ack_committed :: "env \<Rightarrow> CommitAck \<Rightarrow> Client \<Rightarrow> bool" where
  "ack_committed E a s \<longleftrightarrow> mget2 (ca_voteMap s) (ack_height a) (ack_hash E a) \<noteq> None
     \<and> mget2 (ca_commitMap s) (ack_height a) (ack_hash E a) = Some True"

lemma handleVotes_again:
  assumes "ack_committed E a s"
  shows "\<exists>s'. handleVotes E now (Some a) s = Inr s' \<and> ca_idx s' = ca_idx s \<and> ca_sending s' = ca_sending s
    \<and> ca_payload s' = ca_payload s \<and> ack_committed E a s'"
proof -
  let ?h = "ack_hash E a" and ?ht = "ack_height a" and ?txs = "ProtoBody_GetTxs (ProtoBlock_GetBody (ack_Block a))"
  obtain n m where n: "mget2 (ca_voteMap s) ?ht ?h = Some n" and m: "mget (ca_commitMap s) ?ht = Some m" "mget m ?h = Some True"
    using assms by (auto simp: ack_committed_def mget2_def split: option.splits)
  let ?s1 = "s\<lparr>ca_voteMap := mput2 ?ht ?h (n + 1) (ca_voteMap s)\<rparr>"
  let ?s2 = "?s1\<lparr>ca_commitMap := mput ?ht (mput ?h True m) (ca_commitMap s)\<rparr>"
  have c: "mget2 (ca_commitMap s) ?ht ?h = Some True"
    using assms by (simp add: ack_committed_def)
  have "handleVotes E now (Some a) s = (if n + 1 \<le> faultNum then Inr ?s1 else ack_txs E now False ?txs ?s2)"
    using n m c by (simp add: handleVotes_def count_ack_def Let_def CommitAck_GetBlock_def nil_safe_def
        ack_hash_def [symmetric] ack_height_def [symmetric])
  moreover obtain s' where "ack_txs E now False ?txs ?s2 = Inr s'" "ca_idx s' = ca_idx ?s2" "ca_sending s' = ca_sending ?s2"
    "ca_payload s' = ca_payload ?s2" "ca_voteMap s' = ca_voteMap ?s2" "ca_commitMap s' = ca_commitMap ?s2"
    using ack_txs_old by blast
  ultimately show ?thesis
    using c by (cases "n + 1 \<le> faultNum") (auto simp: ack_committed_def mget2_mput)
qed

lemma handle_acks_again:
  assumes "ack_committed E a s" and "\<forall>x \<in> set acks. snd x = Some a"
  shows "\<exists>s'. handle_acks E acks s = Inr s' \<and> ca_idx s' = ca_idx s \<and> ca_sending s' = ca_sending s"
  using assms
proof (induction acks arbitrary: s)
  case (Cons x acks)
  obtain s' where "handleVotes E (fst x) (Some a) s = Inr s'" "ca_idx s' = ca_idx s" "ca_sending s' = ca_sending s"
    "ack_committed E a s'"
    using handleVotes_again [OF Cons.prems(1)] by blast
  then show ?case
    using Cons.IH [of s'] Cons.prems(2) by (cases x) auto
qed simp

text \<open>C30. A committed block starts its new commands exactly once: after any positive number of
  acknowledgements of a block not seen before, from whichever replicas, as many commands have been started
  as the block contains, and one for an empty block.\<close>

theorem acks_start_once:
  assumes "mget2 (ca_voteMap s) (ack_height a) (ack_hash E a) = None" and "unat (ca_payload s) < 2 ^ 64 - 8"
    and "acks \<noteq> []" and "\<forall>x \<in> set acks. snd x = Some a"
  shows "\<exists>s'. handle_acks E acks s = Inr s' \<and> ca_idx s' = ca_idx s + of_nat (ack_new a)
    \<and> length (ca_sending s') = length (ca_sending s) + ack_new a"
proof -
  obtain x as where acks: "acks = x # as"
    using assms(3) by (cases acks) auto
  obtain s1 where s1: "handleVotes E (fst x) (Some a) s = Inr s1" "ca_idx s1 = ca_idx s + of_nat (ack_new a)"
    "length (ca_sending s1) = length (ca_sending s) + ack_new a"
    "mget (ca_voteMap s1) (ack_height a) = Some [(ack_hash E a, 1)]" "mget (ca_commitMap s1) (ack_height a) = Some [(ack_hash E a, True)]"
    using handleVotes_first [OF assms(1,2)] by blast
  then have "ack_committed E a s1"
    by (simp add: ack_committed_def mget2_def)
  then show ?thesis
    using handle_acks_again [of E a s1 as] assms(4) s1 by (cases x) (auto simp: acks)
qed

text \<open>A client in its initial state, and two blocks of the same height.\<close>

definition sample_client :: Client where
  "sample_client = \<lparr>ca_voteMap = [], ca_commitMap = [], ca_timeMap = [], ca_commitTimeMetric = [], ca_payload = 2,
     ca_idx = 4, ca_rwMap = [(0, ()), (1, ())], ca_sending = [], ca_out = []\<rparr>"

definition sample_ack :: "8 word \<Rightarrow> bytes list \<Rightarrow> CommitAck" where
  "sample_ack h txs = \<lparr>ack_Block = Some \<lparr>pb_Header = Some \<lparr>ph_ParentHash = [], ph_TxHash = [], ph_Height = 1, ph_Extra = []\<rparr>,
     pb_Body = Some \<lparr>pbd_Txs = txs, pbd_Responses = txs\<rparr>, pb_BlockHash = [h]\<rparr>\<rparr>"

lemma sample_client_payload: "unat (ca_payload sample_client) < 2 ^ 64 - 8"
  by (simp add: sample_client_def)

theorem acks_start_once_witness:
  "\<exists>s'. handle_acks sample_env [(10, Some (sample_ack 7 [[1], [2]])), (20, Some (sample_ack 7 [[1], [2]]))] sample_client = Inr s'
     \<and> ca_idx s' = 6 \<and> length (ca_sending s') = 2"
proof -
  have "mget2 (ca_voteMap sample_client) (ack_height (sample_ack 7 [[1], [2]])) (ack_hash sample_env (sample_ack 7 [[1], [2]])) = None"
    "ack_new (sample_ack 7 [[1], [2]]) = 2" "ca_idx sample_client = 4" "ca_sending sample_client = []"
    by code_simp+
  then show ?thesis
    using acks_start_once [OF _ sample_client_payload,
        of "sample_ack 7 [[1], [2]]" sample_env "[(10, Some (sample_ack 7 [[1], [2]])), (20, Some (sample_ack 7 [[1], [2]]))]"]
    by auto
qed

text \<open>C39. The counters forget a block when another block of its height is acknowledged: after
  acknowledgements of two different blocks of one height, a repeated acknowledgement of the first one
  commits it a second time and starts its new commands again.\<close>

theorem forked_acks_restart:
  assumes "mget (ca_voteMap s) (ack_height a) = None" and "unat (ca_payload s) < 2 ^ 64 - 8"
    and "ack_height b = ack_height a" and "ack_hash E b \<noteq> ack_hash E a"
  shows "\<exists>s'. handle_acks E [(t1, Some a), (t2, Some b), (t3, Some a)] s = Inr s'
    \<and> length (ca_sending s') = length (ca_sending s) + 2 * ack_new a + ack_new b"
proof -
  obtain s1 where s1: "handleVotes E t1 (Some a) s = Inr s1" "length (ca_sending s1) = length (ca_sending s) + ack_new a"
    "ca_payload s1 = ca_payload s" "mget (ca_voteMap s1) (ack_height a) = Some [(ack_hash E a, 1)]"
    using handleVotes_first [of s a E t1] assms(1,2) by (auto simp: mget2_def)
  obtain s2 where s2: "handleVotes E t2 (Some b) s1 = Inr s2" "length (ca_sending s2) = length (ca_sending s1) + ack_new b"
    "ca_payload s2 = ca_payload s1" "mget (ca_voteMap s2) (ack_height a) = Some [(ack_hash E b, 1)]"
    using handleVotes_first [of s1 b E t2] assms(2-4) s1 by (auto simp: mget2_def)
  obtain s3 where "handleVotes E t3 (Some a) s2 = Inr s3" "length (ca_sending s3) = length (ca_sending s2) + ack_new a"
    using handleVotes_first [of s2 a E t3] assms(2,4) s1(3) s2 by (auto simp: mget2_def)
  then show ?thesis
    using s1 s2 by simp
qed

theorem forked_acks_restart_witness:
  "\<exists>s'. handle_acks sample_env [(10, Some (sample_ack 7 [[1]])), (20, Some (sample_ack 8 [])), (30, Some (sample_ack 7 [[1]]))] sample_client = Inr s'
     \<and> length (ca_sending s') = 3"
proof -
  have "mget (ca_voteMap sample_client) (ack_height (sample_ack 7 [[1]])) = None" "ack_new (sample_ack 7 [[1]]) = 1"
    "ack_height (sample_ack 8 []) = ack_height (sample_ack 7 [[1]])" "ack_new (sample_ack 8 []) = 1" "ca_sending sample_client = []"
    "ack_hash sample_env (sample_ack 8 []) \<noteq> ack_hash sample_env (sample_ack 7 [[1]])"
    by code_simp+
  then show ?thesis
    using forked_acks_restart [OF _ sample_client_payload, of "sample_ack 7 [[1]]" "sample_ack 8 []" sample_env 10 20 30] by auto
qed

section \<open>Reports add up\<close>

lemma fold_metric:
  "fold (\<lambda>k (n, c). (n + 1, c + f k)) ks (n :: 64 word, c :: 64 word) = (n + word_of_nat (length ks), c + sum_list (map f ks))"
  by (induction ks arbitrary: n c) (auto simp: algebra_simps)

definition metric_total :: "(hash, 64 word) gomap \<Rightarrow> 64 word" where
  "metric_total m = sum_list (map (\<lambda>k. Milliseconds (case mget m k of None \<Rightarrow> 0 | Some d \<Rightarrow> d)) (mkeys m))"

lemma print_metric_eq:
  assumes "is_order r"
  shows "print_metric m r cnt = (word_of_nat (length (mkeys m)), cnt + metric_total m)"
proof -
  have "mset (r (mkeys m)) = mset (mkeys m)"
    using assms by (simp add: is_order_def)
  then have "length (r (mkeys m)) = length (mkeys m)"
    by (rule mset_eq_length)
  moreover have "sum_mset (image_mset f (mset (r (mkeys m)))) = sum_mset (image_mset f (mset (mkeys m)))" for f :: "hash \<Rightarrow> 64 word"
    by (simp only: \<open>mset (r (mkeys m)) = mset (mkeys m)\<close>)
  then have "sum_list (map f (r (mkeys m))) = sum_list (map f (mkeys m))" for f :: "hash \<Rightarrow> 64 word"
    by (simp only: mset_map [symmetric] sum_mset_sum_list)
  ultimately show ?thesis
    by (simp only: print_metric_def fold_metric metric_total_def add_0)
qed

text \<open>Every report adds the durations of all commands to the sum of the previous reports, while the number
  of commands starts from zero: the latency computed from report \<open>i\<close> over unchanged metrics is \<open>i + 1\<close> times
  the average duration.\<close>

lemma latency_accumulates:
  assumes "is_order r"
  shows "printMetrics (replicate k (m, r)) cnt =
    map (\<lambda>i. (word_of_nat (length (mkeys m)), cnt + word_of_nat (Suc i) * metric_total m)) [0..<k]"
proof (induction k arbitrary: cnt)
  case (Suc k)
  then show ?case
    by (simp add: print_metric_eq [OF assms] upt_conv_Cons map_Suc_upt [symmetric] algebra_simps del: upt_Suc)
qed simp

end
