(* ===== verification/Main_Programs.thy ===== *)
theory Main_Programs
  imports Gen_Config Client_Acks Node_Safety
begin

text \<open>
  The programs: what \<open>main\<close> of \<^verbatim>\<open>tools/genConfig.go\<close> writes, what \<open>main\<close> of \<^verbatim>\<open>node/node.go\<close> starts
  from such a file, and what \<open>main\<close> of \<^verbatim>\<open>client/client.go\<close> does up to its loop of commands.
\<close>

section \<open>Files and logging\<close>

text \<open>\<open>io.ReadFromFile(d, name)\<close> is an argument that is given the \<open>UnmarshalBinary\<close> of \<open>d\<close> and the value of
  \<open>d\<close>; it reads \<open>b\<close> when it does what its documentation says.\<close>

type_synonym 'c file_reader = "(bytes \<Rightarrow> 'c \<Rightarrow> ('c \<times> bool) result) \<Rightarrow> 'c \<Rightarrow> 'c result"

definition reads_file :: "'c file_reader \<Rightarrow> bytes \<Rightarrow> bool" where
  "reads_file R b \<longleftrightarrow> (\<forall>f c. R f c = bind_r (f b c) (\<lambda>(c', _). Inr c'))"

datatype log_level = PanicLevel | FatalLevel | ErrorLevel | WarnLevel | InfoLevel | DebugLevel | TraceLevel

definition switch_level :: "u64 \<Rightarrow> log_level \<Rightarrow> log_level" where
  "switch_level flag other = (let l = (ucast flag :: 32 word) in
     if l = 0 then PanicLevel else if l = 1 then FatalLevel else if l = 2 then ErrorLevel
     else if l = 3 then WarnLevel else if l = 4 then InfoLevel else if l = 5 then DebugLevel
     else if l = 6 then TraceLevel else other)"

definition node_log_level :: "u64 \<Rightarrow> log_level" where
  "node_log_level flag = switch_level flag InfoLevel"

text \<open>The client looks at its flag before \<open>flag.Parse()\<close>, so it sees the default, 5, and not the value
  \<open>flag\<close> of the command line.\<close>

definition client_log_level :: "u64 \<Rightarrow> log_level \<Rightarrow> log_level" where
  "client_log_level flag current = switch_level 5 current"

section \<open>The generator and the node\<close>

text \<open>The contents of the files that \<open>main\<close> of the generator writes.\<close>

definition gen_node_file :: "pki \<Rightarrow> options \<Rightarrow> string \<Rightarrow> (u64 \<Rightarrow> bytes \<times> bytes) \<Rightarrow> u64 \<Rightarrow> bytes option result" where
  "gen_node_file P opts alg keys i = bind_r (NewNodeConfig P (gen_node opts alg keys i)) (\<lambda>nc. Inr (NodeConfig_MarshalBinary P nc))"

definition gen_client_file :: "pki \<Rightarrow> options \<Rightarrow> string \<Rightarrow> (u64 \<Rightarrow> bytes \<times> bytes) \<Rightarrow> bytes \<Rightarrow> bytes option result" where
  "gen_client_file P opts alg keys clientKey =
     bind_r (NewClientConfig P (gen_client opts alg keys clientKey)) (\<lambda>cc. Inr (ClientConfig_MarshalBinary P cc))"

text \<open>\<open>net.Setup\<close> and \<open>Connect\<close> give the peers of the replica (\<open>connect\<close>). After the last line, \<open>Start\<close>,
  the replica runs by \<open>node_step\<close>.\<close>

definition node_main :: "env \<Rightarrow> pki \<Rightarrow> NodeConfig file_reader \<Rightarrow> (NodeConfig \<Rightarrow> (u64, string) gomap) \<Rightarrow> (u64 \<Rightarrow> nat \<Rightarrow> bool) \<Rightarrow> SyncHS result" where
  "node_main E P R connect dial = bind_r (R (NodeConfig_UnmarshalBinary P) NodeConfig_zero) (\<lambda>config.
     Inr (Setup dial (connect config) (Init E config SyncHS_zero)))"

section \<open>The client\<close>

text \<open>
  The network of the client: whether \<open>p2p.New\<close> succeeds, whether node \<open>i\<close> accepts the connection, and
  whether attempt \<open>k\<close> to open a stream to it succeeds. The attempts are repeated without a bound.
\<close>

record client_net =
  host_ok :: bool
  Connect :: "u64 \<Rightarrow> addr_info \<Rightarrow> bool"
  NewStream :: "u64 \<Rightarrow> nat \<Rightarrow> bool"

partial_function (option) client_stream :: "(nat \<Rightarrow> bool) \<Rightarrow> nat \<Rightarrow> nat option" where
  "client_stream attempt k = (if attempt k then Some k else client_stream attempt (Suc k))"

declare client_stream.simps [code]

definition client_zero :: "u64 \<Rightarrow> Client" where
  "client_zero payload = \<lparr>ca_voteMap = [], ca_commitMap = [], ca_timeMap = [], ca_commitTimeMetric = [], ca_payload = payload,
     ca_idx = 0, ca_rwMap = [], ca_sending = [], ca_out = []\<rparr>"

text \<open>The argument \<open>GetPeerFromID(i)\<close> of the goroutine is evaluated by the loop itself.\<close>

fun client_peers :: "pki \<Rightarrow> ClientConfig \<Rightarrow> u64 list \<Rightarrow> (u64 \<times> addr_info) list result" where
  "client_peers P cc [] = Inr []"
| "client_peers P cc (i # is) = bind_r (ClientConfig_GetPeerFromID P cc i) (\<lambda>p.
     bind_r (client_peers P cc is) (\<lambda>ps. Inr ((i, p) # ps)))"

definition connect_node :: "client_net \<Rightarrow> u64 \<times> addr_info \<Rightarrow> Client \<times> u64 \<Rightarrow> (Client \<times> u64) option" where
  "connect_node N ip st = (let (i, peer) = ip; (s, connectedNodes) = st in
     if \<not> Connect N i peer then Some (s, connectedNodes)
     else Option.bind (client_stream (NewStream N i) 0) (\<lambda>_.
       Some (s\<lparr>ca_rwMap := mput i () (ca_rwMap s)\<rparr>, connectedNodes + 1)))"

text \<open>The goroutines change the maps under a lock, each for its own node, and \<open>wg.Wait()\<close> waits for all.\<close>

fun connect_nodes :: "client_net \<Rightarrow> (u64 \<times> addr_info) list \<Rightarrow> Client \<times> u64 \<Rightarrow> (Client \<times> u64) option" where
  "connect_nodes N [] st = Some st"
| "connect_nodes N (ip # ips) st = Option.bind (connect_node N ip st) (connect_nodes N ips)"

definition client_ids :: "ClientConfig \<Rightarrow> u64 list" where
  "client_ids cc = map word_of_nat [0..<unat (ClientConfig_GetNumNodes cc)]"

text \<open>The outcome is \<open>None\<close> when \<open>wg.Wait()\<close> never returns, and \<open>Some (Inr None)\<close> when there are too few
  connections.\<close>

definition client_main :: "pki \<Rightarrow> ClientConfig file_reader \<Rightarrow> client_net \<Rightarrow> u64 \<Rightarrow> Client option result option" where
  "client_main P R N payload = (case R (ClientConfig_UnmarshalBinary P) ClientConfig_zero of
       Inl p \<Rightarrow> Some (Inl p)
     | Inr confData \<Rightarrow>
        if \<not> host_ok N then Some (Inl ExplicitPanic)
        else case client_peers P confData (client_ids confData) of
          Inl p \<Rightarrow> Some (Inl p)
        | Inr peers \<Rightarrow> Option.bind (connect_nodes N peers (client_zero payload, 0)) (\<lambda>(s, connectedNodes).
            Some (if connectedNodes \<le> ProtoInfo_GetFaults (cl_ProtoInfo confData) then Inr None
              else bind_r (start_cmds (unat (ProtoInfo_GetBlockSize (cl_ProtoInfo confData))) s) (\<lambda>s'. Inr (Some s')))))"

section \<open>Replicas started from their files\<close>

abbreviation node_runs :: "handler set \<Rightarrow> env \<Rightarrow> SyncHS \<Rightarrow> SyncHS \<Rightarrow> bool" where
  "node_runs H E \<equiv> rtranclp (\<lambda>s s'. node_step H E s (Inr s'))"

lemma node_runs_reachable: "node_runs H E s s' \<Longrightarrow> reachable H E c peers s \<Longrightarrow> reachable H E c peers s'"
  by (induction rule: rtranclp_induct) (auto intro: reachable.step)

text \<open>A replica that the node program started from a generated file runs, in every later state, with the
  configuration of that file.\<close>

lemma node_main_runs:
  assumes "\<forall>d b. MarshalNodeData P d = Some b \<longrightarrow> UnmarshalNodeData P b = Some d"
    and "gen_node_file P opts alg keys i = Inr (Some b)" and "reads_file R b"
    and "node_main E P R connect dial = Inr s0" and "node_runs H E s0 s"
  shows "NewNodeConfig P (gen_node opts alg keys i) = Inr (cfg s)" and "reachable H E (cfg s) (connect (cfg s)) s"
proof -
  obtain c where c: "NewNodeConfig P (gen_node opts alg keys i) = Inr c" "NodeConfig_MarshalBinary P c = Some b"
    using assms(2) by (auto simp: gen_node_file_def bind_r_eq_Inr)
  have "NodeConfig_UnmarshalBinary P b NodeConfig_zero = Inr (c, False)"
    using node_file.save_load [OF assms(1) c(1) [unfolded NewNodeConfig_def] c(2)] by blast
  then have "s0 = Setup dial (connect c) (Init E c SyncHS_zero)"
    using assms(3,4) by (simp add: node_main_def reads_file_def)
  then have r: "reachable H E c (connect c) s"
    using node_runs_reachable [OF assms(5)] reachable.boot by simp
  moreover have "cfg s = c"
    using reachable_invariants(1) [OF r] by (simp add: rounds_inv_def)
  ultimately show "NewNodeConfig P (gen_node opts alg keys i) = Inr (cfg s)" and "reachable H E (cfg s) (connect (cfg s)) s"
    using c(1) by simp_all
qed

section \<open>Opening a stream\<close>

lemma client_stream_returns: "attempt j \<Longrightarrow> k \<le> j \<Longrightarrow> \<exists>i. client_stream attempt k = Some i"
proof (induction "j - k" arbitrary: k)
  case 0
  then show ?case
    by (subst client_stream.simps) simp
next
  case (Suc n)
  then have "n = j - Suc k" "Suc k \<le> j"
    by auto
  then have "\<exists>i. client_stream attempt (Suc k) = Some i"
    using Suc by blast
  then show ?case
    by (subst client_stream.simps) simp
qed

lemma client_stream_sound:
  assumes "client_stream attempt k = Some i"
  shows "attempt i \<and> k \<le> i"
proof (rule client_stream.raw_induct [where P = "\<lambda>attempt k i. attempt i \<and> k \<le> i", OF _ assms])
  fix f attempt k i
  assume IH: "\<And>attempt k i. f attempt k = Some i \<Longrightarrow> attempt i \<and> k \<le> i"
    and eq: "(if attempt k then Some k else f attempt (Suc k)) = Some i"
  show "attempt i \<and> k \<le> i"
  proof (cases "attempt k")
    case False
    then show ?thesis
      using IH [of attempt "Suc k" i] eq by auto
  qed (use eq in simp)
qed

lemma client_stream_iff: "client_stream attempt 0 = None \<longleftrightarrow> (\<forall>k. \<not> attempt k)"
  using client_stream_returns [of attempt _ 0] client_stream_sound [of attempt 0] by (metis le0 not_Some_eq)

section \<open>Connecting\<close>

text \<open>The nodes that a client ends up connected to.\<close>

definition connected_ids :: "client_net \<Rightarrow> (u64 \<times> addr_info) list \<Rightarrow> u64 list" where
  "connected_ids N peers = map fst (filter (\<lambda>(i, peer). Connect N i peer) peers)"

lemma connect_nodes_None:
  "connect_nodes N peers st = None \<longleftrightarrow> (\<exists>(i, peer) \<in> set peers. Connect N i peer \<and> (\<forall>k. \<not> NewStream N i k))"
proof (induction peers arbitrary: st)
  case (Cons ip ips)
  then show ?case
    by (cases ip; cases st) (auto simp: connect_node_def client_stream_iff Let_def split: if_splits bind_splits dest: client_stream_sound)
qed simp

lemma connect_nodes_Some:
  assumes "connect_nodes N peers (s, n) = Some (s', n')" and "distinct (map fst peers)"
    and "\<forall>i \<in> fst ` set peers. mget (ca_rwMap s) i = None"
  shows "s' = s\<lparr>ca_rwMap := ca_rwMap s'\<rparr> \<and> n' = n + word_of_nat (length (connected_ids N peers))
    \<and> set (mkeys (ca_rwMap s')) = set (mkeys (ca_rwMap s)) \<union> set (connected_ids N peers)"
  using assms
proof (induction peers arbitrary: s n)
  case (Cons ip ips)
  obtain i peer where ip: "ip = (i, peer)"
    by (cases ip)
  show ?case
  proof (cases "Connect N i peer")
    case False
    then show ?thesis
      using Cons by (simp add: ip connect_node_def connected_ids_def)
  next
    case True
    let ?s = "s\<lparr>ca_rwMap := mput i () (ca_rwMap s)\<rparr>"
    have "connect_nodes N ips (?s, n + 1) = Some (s', n')"
      using Cons.prems(1) True by (auto simp: ip connect_node_def split: bind_splits)
    moreover have "\<forall>j \<in> fst ` set ips. mget (ca_rwMap ?s) j = None"
      using Cons.prems(2,3) by (force simp: ip)
    ultimately have "s' = ?s\<lparr>ca_rwMap := ca_rwMap s'\<rparr> \<and> n' = n + 1 + word_of_nat (length (connected_ids N ips))
        \<and> set (mkeys (ca_rwMap s')) = set (mkeys (ca_rwMap ?s)) \<union> set (connected_ids N ips)"
      using Cons.IH Cons.prems(2) by simp
    then show ?thesis
      using True by (auto simp: ip connected_ids_def dom_update)
  qed
qed (simp add: connected_ids_def)

lemma client_peers_ids: "client_peers P cc is = Inr peers \<Longrightarrow> map fst peers = is"
  by (induction "is" arbitrary: peers) (auto simp: bind_r_eq_Inr)

lemma u64_of_nat_inj:
  assumes "(word_of_nat m :: u64) = word_of_nat n" and "m < 2 ^ 64" and "n < 2 ^ 64"
  shows "m = n"
  using arg_cong [OF assms(1), of unat] assms(2,3) by (simp add: unat_of_nat)

lemma distinct_client_ids: "distinct (client_ids cc)"
proof -
  have "unat (ClientConfig_GetNumNodes cc) < 2 ^ 64"
    using unsigned_less [of "ClientConfig_GetNumNodes cc"] by simp
  then have "inj_on (word_of_nat :: nat \<Rightarrow> u64) (set [0..<unat (ClientConfig_GetNumNodes cc)])"
    by (intro inj_onI) (auto intro: u64_of_nat_inj)
  then show ?thesis
    by (simp add: client_ids_def distinct_map)
qed

section \<open>The first commands\<close>

lemma start_cmds_Inr:
  "start_cmds n s = Inr s' \<Longrightarrow> ca_rwMap s' = ca_rwMap s \<and> ca_idx s' = ca_idx s + word_of_nat n
     \<and> (\<exists>cs. ca_sending s' = ca_sending s @ map Msg_Tx cs
          \<and> map Inr cs = map (\<lambda>k. build_cmd (ca_payload s) (ca_idx s + word_of_nat k)) [0..<n])"
proof (induction n arbitrary: s)
  case (Suc n)
  then obtain c where c: "build_cmd (ca_payload s) (ca_idx s) = Inr c"
    and "start_cmds n (s\<lparr>ca_idx := ca_idx s + 1, ca_sending := ca_sending s @ [Msg_Tx c]\<rparr>) = Inr s'"
    by (auto simp: start_cmd_def bind_r_eq_Inr)
  from Suc.IH [OF this(2)] obtain cs where cs: "ca_rwMap s' = ca_rwMap s" "ca_idx s' = ca_idx s + 1 + word_of_nat n"
    "ca_sending s' = ca_sending s @ map Msg_Tx (c # cs)"
    "map Inr cs = map (\<lambda>k. build_cmd (ca_payload s) (ca_idx s + 1 + word_of_nat k)) [0..<n]"
    by auto
  have "map Inr (c # cs) = map (\<lambda>k. build_cmd (ca_payload s) (ca_idx s + word_of_nat k)) [0..<Suc n]"
    using c cs(4) by (simp add: upt_conv_Cons map_Suc_upt [symmetric] add.assoc del: upt_Suc)
  then show ?case
    using cs(1,2,3) by (intro conjI exI [of _ "c # cs"]) (simp_all add: add.assoc)
qed simp

lemma build_cmds_distinct:
  assumes "map Inr cs = map (\<lambda>k. build_cmd p (i + word_of_nat k)) [0..<n]" and "n < 2 ^ 64"
  shows "distinct cs \<and> length cs = n"
proof
  show len: "length cs = n"
    using arg_cong [OF assms(1), of length] by simp
  have nth: "build_cmd p (i + word_of_nat k) = Inr (cs ! k)" if "k < n" for k
    using arg_cong [OF assms(1), of "\<lambda>xs. xs ! k"] that len by simp
  show "distinct cs"
    unfolding distinct_conv_nth len
  proof (intro allI impI notI)
    fix k l assume kl: "k < n" "l < n" "k \<noteq> l" "cs ! k = cs ! l"
    then have "i + word_of_nat k = i + (word_of_nat l :: u64)"
      using nth [of k] nth [of l] commands_unique [of p "i + word_of_nat k" "cs ! k" p "i + word_of_nat l"] by auto
    then show False
      using kl assms(2) u64_of_nat_inj [of k l] by simp
  qed
qed

section \<open>A sample deployment\<close>

text \<open>The files of three replicas and of a client, two commands per block. Node 2 is not reachable; the
  others open a stream at the fourth attempt.\<close>

definition deploy_options :: options where
  "deploy_options = sample_options\<lparr>blkSize := 2, basePort := 1, clientBasePort := 4\<rparr>"

abbreviation deploy_node :: "u64 \<Rightarrow> NodeDataConfig" where
  "deploy_node \<equiv> gen_node deploy_options ''k'' sample_keys"

abbreviation deploy_client :: ClientDataConfig where
  "deploy_client \<equiv> gen_client deploy_options ''k'' sample_keys [9]"

definition deploy_pki :: pki where
  "deploy_pki = sample_pki\<lparr>
     MarshalNodeData := \<lambda>d. if d = deploy_node 0 then Some [10] else if d = deploy_node 1 then Some [11]
       else if d = deploy_node 2 then Some [12] else None,
     UnmarshalNodeData := \<lambda>b. if b = [10] then Some (deploy_node 0) else if b = [11] then Some (deploy_node 1)
       else if b = [12] then Some (deploy_node 2) else None,
     MarshalClientData := \<lambda>d. if d = deploy_client then Some [20] else None,
     UnmarshalClientData := \<lambda>b. if b = [20] then Some deploy_client else None\<rparr>"

definition file_content :: "bytes \<Rightarrow> 'c file_reader" where
  "file_content b f c = bind_r (f b c) (\<lambda>(c', _). Inr c')"

definition sample_net :: client_net where
  "sample_net = \<lparr>host_ok = True, Connect = \<lambda>i _. i \<noteq> 2, NewStream = \<lambda>_ k. k = 3\<rparr>"

lemma file_content_reads: "reads_file (file_content b) b"
  by (simp add: reads_file_def file_content_def)

lemma deploy_client_run:
  "(case file_content [20] (ClientConfig_UnmarshalBinary deploy_pki) ClientConfig_zero of
      Inr conf \<Rightarrow> ProtoInfo_GetBlockSize (cl_ProtoInfo conf) = 2 \<and>
       (case client_peers deploy_pki conf (client_ids conf) of
          Inr peers \<Rightarrow> map fst peers = [0, 1, 2] \<and> connected_ids sample_net peers = [0, 1] | Inl _ \<Rightarrow> False)
    | Inl _ \<Rightarrow> False)"
  "(case client_main deploy_pki (file_content [20]) sample_net 1 of Some (Inr (Some s)) \<Rightarrow> True | _ \<Rightarrow> False)"
  by code_simp+

lemma deploy_client_facts:
  obtains conf peers s where "file_content [20] (ClientConfig_UnmarshalBinary deploy_pki) ClientConfig_zero = Inr conf"
    "client_peers deploy_pki conf (client_ids conf) = Inr peers" "map fst peers = [0, 1, 2]" "connected_ids sample_net peers = [0, 1]"
    "ProtoInfo_GetBlockSize (cl_ProtoInfo conf) = 2" "client_main deploy_pki (file_content [20]) sample_net 1 = Some (Inr (Some s))"
proof -
  obtain s where s: "client_main deploy_pki (file_content [20]) sample_net 1 = Some (Inr (Some s))"
    using deploy_client_run(2) by (auto split: option.splits sum.splits)
  obtain conf where conf: "file_content [20] (ClientConfig_UnmarshalBinary deploy_pki) ClientConfig_zero = Inr conf"
    using deploy_client_run(1) by (auto split: sum.splits)
  then obtain peers where "client_peers deploy_pki conf (client_ids conf) = Inr peers"
    using deploy_client_run(1) by (auto split: sum.splits)
  with deploy_client_run(1) conf s that show thesis
    by simp
qed

section \<open>Properties\<close>

text \<open>C31. The client program ends its connection phase exactly when every node that accepted the
  connection eventually opens a stream; otherwise it waits for ever, since the attempts are not bounded.\<close>

theorem client_main_terminates:
  assumes "R (ClientConfig_UnmarshalBinary P) ClientConfig_zero = Inr conf" and "host_ok N"
    and "client_peers P conf (client_ids conf) = Inr peers"
  shows "(\<exists>r. client_main P R N payload = Some r)
    \<longleftrightarrow> (\<forall>(i, peer) \<in> set peers. Connect N i peer \<longrightarrow> (\<exists>k. NewStream N i k))"
proof -
  have "client_main P R N payload = None \<longleftrightarrow> connect_nodes N peers (client_zero payload, 0) = None"
    using assms by (auto simp: client_main_def split: bind_splits)
  then show ?thesis
    using connect_nodes_None [of N peers "(client_zero payload, 0)"] by (auto simp: not_Some_eq [symmetric] simp del: not_Some_eq)
qed

theorem client_main_terminates_witness:
  "(\<exists>r. client_main deploy_pki (file_content [20]) sample_net 1 = Some r)
   \<and> client_main deploy_pki (file_content [20]) (sample_net\<lparr>NewStream := \<lambda>_ _. False\<rparr>) 1 = None"
proof -
  obtain conf peers where c: "file_content [20] (ClientConfig_UnmarshalBinary deploy_pki) ClientConfig_zero = Inr conf"
    "client_peers deploy_pki conf (client_ids conf) = Inr peers" "map fst peers = [0, 1, 2]"
    by (rule deploy_client_facts)
  let ?N = "sample_net\<lparr>NewStream := \<lambda>_ _. False\<rparr>"
  obtain p where "(0, p) \<in> set peers"
    using c(3) by (cases peers) auto
  then have "\<not> (\<forall>(i, peer) \<in> set peers. Connect ?N i peer \<longrightarrow> (\<exists>k. NewStream ?N i k))"
    by (force simp: sample_net_def)
  moreover have "host_ok ?N" "host_ok sample_net" "\<forall>(i, peer) \<in> set peers. Connect sample_net i peer \<longrightarrow> (\<exists>k. NewStream sample_net i k)"
    by (auto simp: sample_net_def)
  ultimately show ?thesis
    using client_main_terminates [where R = "file_content [20]", OF c(1) _ c(2), of ?N 1]
      client_main_terminates [where R = "file_content [20]", OF c(1) _ c(2), of sample_net 1] by auto
qed

text \<open>C32. What a client that gets past its connections does: it is connected to more nodes than its
  configured number of faults, exactly to those that accepted, and has started as many commands as a
  block has, numbered from zero and pairwise different.\<close>

theorem client_main_starts:
  assumes "R (ClientConfig_UnmarshalBinary P) ClientConfig_zero = Inr conf"
    and "client_peers P conf (client_ids conf) = Inr peers" and "client_main P R N payload = Some (Inr (Some s))"
  shows "set (mkeys (ca_rwMap s)) = set (connected_ids N peers)
    \<and> ProtoInfo_GetFaults (cl_ProtoInfo conf) < word_of_nat (length (connected_ids N peers))
    \<and> ca_idx s = ProtoInfo_GetBlockSize (cl_ProtoInfo conf)
    \<and> distinct (ca_sending s) \<and> length (ca_sending s) = unat (ProtoInfo_GetBlockSize (cl_ProtoInfo conf))"
proof -
  let ?b = "unat (ProtoInfo_GetBlockSize (cl_ProtoInfo conf))"
  obtain t n where t: "connect_nodes N peers (client_zero payload, 0) = Some (t, n)"
    "\<not> n \<le> ProtoInfo_GetFaults (cl_ProtoInfo conf)" "start_cmds ?b t = Inr s"
    using assms by (auto simp: client_main_def bind_r_eq_Inr split: if_splits bind_splits)
  have "distinct (map fst peers)"
    using client_peers_ids [OF assms(2)] distinct_client_ids by simp
  from connect_nodes_Some [OF t(1) this] have c: "t = (client_zero payload)\<lparr>ca_rwMap := ca_rwMap t\<rparr>"
    "n = word_of_nat (length (connected_ids N peers))" "set (mkeys (ca_rwMap t)) = set (connected_ids N peers)"
    by (simp_all add: client_zero_def)
  have "ca_idx t = 0" "ca_sending t = []"
    by (subst c(1), simp add: client_zero_def)+
  then obtain cs where s: "ca_rwMap s = ca_rwMap t" "ca_idx s = word_of_nat ?b" "ca_sending s = map Msg_Tx cs"
    "map Inr cs = map (\<lambda>k. build_cmd (ca_payload t) (0 + word_of_nat k)) [0..<?b]"
    using start_cmds_Inr [OF t(3)] by auto
  have "?b < 2 ^ 64"
    using unsigned_less [of "ProtoInfo_GetBlockSize (cl_ProtoInfo conf)"] by simp
  from build_cmds_distinct [OF s(4) this] have "distinct cs" "length cs = ?b"
    by simp_all
  then show ?thesis
    using s c t(2) by (simp add: distinct_map inj_on_def not_le)
qed

theorem client_main_starts_witness:
  "\<exists>s. client_main deploy_pki (file_content [20]) sample_net 1 = Some (Inr (Some s))
     \<and> set (mkeys (ca_rwMap s)) = {0, 1} \<and> ca_idx s = 2 \<and> distinct (ca_sending s) \<and> length (ca_sending s) = 2"
proof -
  obtain conf peers s where c: "file_content [20] (ClientConfig_UnmarshalBinary deploy_pki) ClientConfig_zero = Inr conf"
    "client_peers deploy_pki conf (client_ids conf) = Inr peers" "connected_ids sample_net peers = [0, 1]"
    "ProtoInfo_GetBlockSize (cl_ProtoInfo conf) = 2" "client_main deploy_pki (file_content [20]) sample_net 1 = Some (Inr (Some s))"
    by (rule deploy_client_facts)
  show ?thesis
    using client_main_starts [where R = "file_content [20]", OF c(1,2,5)] c(3,4,5) by simp
qed

end
