(* ===== verification/Eth_Engine.thy ===== *)
theory Eth_Engine
  imports Go_Prelude
begin

text \<open>
  The adapter that offers the replica as a consensus engine of go-ethereum:
  \<^verbatim>\<open>ethereum/consensus/synchs.go\<close> and \<^verbatim>\<open>errors.go\<close>. Hashing, the state database and the constants of the
  Ethereum parameters are arguments. Nothing in the consensus package uses the adapter.
\<close>

section \<open>Headers and errors\<close>

text \<open>The header of go-ethereum; \<open>Number\<close> and \<open>Difficulty\<close> are pointers to big integers.\<close>

record eth_header =
  hd_ParentHash :: bytes
  hd_UncleHash :: bytes
  hd_Coinbase :: bytes
  hd_Root :: bytes
  hd_TxHash :: bytes
  hd_ReceiptHash :: bytes
  hd_Bloom :: bytes
  hd_Difficulty :: "int option"
  hd_Number :: "int option"
  hd_GasLimit :: u64
  hd_GasUsed :: u64
  hd_Time :: u64
  hd_Extra :: bytes
  hd_MixDigest :: bytes
  hd_Nonce :: bytes

datatype eth_error = UnknownBlock | FutureBlock | OlderBlockTime | GasLimitTooLarge | GasUsedTooLarge
  | InvalidGasLimit | InvalidNumber | InvalidView | InvalidCoinbase

section \<open>The engine\<close>

record ChainContext =
  cc_leader :: bytes
  cc_view :: u64
  cc_nodes :: "(u64, bytes) gomap"
  cc_headersByNumber :: "(u64, eth_header option) gomap"

definition New :: ChainContext where
  "New = \<lparr>cc_leader = replicate 20 0, cc_view = 0, cc_nodes = [], cc_headersByNumber = []\<rparr>"

definition GetLeader :: "ChainContext \<Rightarrow> bytes" where
  "GetLeader cc = cc_leader cc"

definition Author :: "eth_header option \<Rightarrow> bytes result" where
  "Author header = bind_r (deref header) (\<lambda>h. Inr (hd_Coinbase h))"

definition SetHeader :: "u64 \<Rightarrow> eth_header option \<Rightarrow> ChainContext \<Rightarrow> ChainContext" where
  "SetHeader number header cc = cc\<lparr>cc_headersByNumber := mput number header (cc_headersByNumber cc)\<rparr>"

definition GetHeader :: "u64 \<Rightarrow> ChainContext \<Rightarrow> eth_header option" where
  "GetHeader number cc = (case mget (cc_headersByNumber cc) number of Some header \<Rightarrow> header | None \<Rightarrow> None)"

definition CalcDifficulty :: "int option" where
  "CalcDifficulty = None"

text \<open>\<open>FinalizeAndAssemble\<close> changes the header of the caller and gives the block that \<open>NewBlock\<close> makes of it;
  \<open>root\<close> is the intermediate root of the state database.\<close>

definition FinalizeAndAssemble :: "(eth_header \<Rightarrow> 't list \<Rightarrow> eth_header list \<Rightarrow> 'r list \<Rightarrow> 'b) \<Rightarrow> bytes \<Rightarrow> eth_header \<Rightarrow> 't list
    \<Rightarrow> eth_header list \<Rightarrow> 'r list \<Rightarrow> eth_header \<times> 'b" where
  "FinalizeAndAssemble NewBlock root header txs uncles receipts = (let h = header\<lparr>hd_Root := root\<rparr> in
     (h, NewBlock h txs uncles receipts))"

text \<open>\<open>Prepare\<close> writes through the pointer \<open>Difficulty\<close>.\<close>

definition Prepare :: "ChainContext \<Rightarrow> eth_header \<Rightarrow> eth_header result" where
  "Prepare cc header = bind_r (deref (hd_Difficulty header)) (\<lambda>_. Inr (header\<lparr>hd_Difficulty := Some (uint (cc_view cc))\<rparr>))"

text \<open>The block that \<open>Seal\<close> sends, if somebody is ready to receive it.\<close>

definition Seal :: "bool \<Rightarrow> eth_header \<Rightarrow> eth_header option" where
  "Seal ready header = (let h = header\<lparr>hd_Nonce := replicate 8 0, hd_MixDigest := replicate 32 0\<rparr> in
     if ready then Some h else None)"

text \<open>The hash of the list of all fields but the seal; its encoding and \<open>Keccak256\<close> are the argument
  \<open>keccak\<close>.\<close>

datatype rlp_item = Rlp_Bytes bytes | Rlp_BigInt "int option" | Rlp_Uint64 u64

definition SealHash :: "(rlp_item list \<Rightarrow> bytes) \<Rightarrow> eth_header \<Rightarrow> bytes" where
  "SealHash keccak header = keccak
     [Rlp_Bytes (hd_ParentHash header), Rlp_Bytes (hd_UncleHash header), Rlp_Bytes (hd_Coinbase header),
      Rlp_Bytes (hd_Root header), Rlp_Bytes (hd_TxHash header), Rlp_Bytes (hd_ReceiptHash header),
      Rlp_Bytes (hd_Bloom header), Rlp_BigInt (hd_Difficulty header), Rlp_BigInt (hd_Number header),
      Rlp_Uint64 (hd_GasLimit header), Rlp_Uint64 (hd_GasUsed header), Rlp_Uint64 (hd_Time header),
      Rlp_Bytes (hd_Extra header)]"

text \<open>\<open>Uint64\<close> of a big integer takes its low bits.\<close>

definition VerifySeal :: "ChainContext \<Rightarrow> eth_header \<Rightarrow> eth_error option result" where
  "VerifySeal cc header = bind_r (deref (hd_Difficulty header)) (\<lambda>d.
     let blkView = (word_of_int \<bar>d\<bar> :: u64) in
     if blkView \<noteq> cc_view cc then Inr (Some InvalidView)
     else if hd_Coinbase header \<noteq> cc_leader cc then Inr (Some InvalidCoinbase)
     else Inr None)"

definition VerifyUncles :: "eth_error option" where
  "VerifyUncles = None"

text \<open>
  \<open>verifyHeader\<close> uses two identifiers that the source does not declare, \<open>parent\<close> and \<open>seal\<close>: they are
  arguments here, next to the current time and the two Ethereum parameters. \<open>int64\<close> reinterprets the bits,
  and the subtraction wraps.
\<close>

record eth_params =
  GasLimitBoundDivisor :: u64
  MinGasLimit :: u64

definition gas_diff :: "u64 \<Rightarrow> u64 \<Rightarrow> u64" where
  "gas_diff p h = (let diff = p - h in if sint diff < 0 then - diff else diff)"

definition verifyHeader :: "eth_params \<Rightarrow> u64 \<Rightarrow> eth_header \<Rightarrow> bool \<Rightarrow> ChainContext \<Rightarrow> eth_header \<Rightarrow> eth_error option result" where
  "verifyHeader P now parent seal cc header = (case hd_Number header of
       None \<Rightarrow> Inr (Some UnknownBlock)
     | Some number \<Rightarrow>
        if now < hd_Time header then Inr (Some FutureBlock)
        else if hd_Time header \<le> hd_Time parent then Inr (Some OlderBlockTime)
        else if 0x7fffffffffffffff < hd_GasLimit header then Inr (Some GasLimitTooLarge)
        else if hd_GasLimit header < hd_GasUsed header then Inr (Some GasUsedTooLarge)
        else let diff = gas_diff (hd_GasLimit parent) (hd_GasLimit header);
                 limit = hd_GasLimit parent div GasLimitBoundDivisor P in
          if limit \<le> diff \<or> hd_GasLimit header < MinGasLimit P then Inr (Some InvalidGasLimit)
          else bind_r (deref (hd_Number parent)) (\<lambda>n.
            if number - n \<noteq> 1 then Inr (Some InvalidNumber)
            else if seal then VerifySeal cc header else Inr None))"

definition VerifyHeader :: "eth_params \<Rightarrow> u64 \<Rightarrow> eth_header \<Rightarrow> bool \<Rightarrow> ChainContext \<Rightarrow> eth_header \<Rightarrow> eth_error option result" where
  "VerifyHeader P now parent seal cc header = verifyHeader P now parent seal cc header"

text \<open>The goroutine of \<open>VerifyHeaders\<close> sends one result per header, in the order of the headers, until the
  \<^verbatim>\<open>select\<close> takes the case of the abort channel (\<open>aborted i\<close>). The channel of the results has room for all.
  The time of the check, \<open>parent\<close> and \<open>seal\<close> are those of header \<open>i\<close>.\<close>

fun VerifyHeaders :: "eth_params \<Rightarrow> (nat \<Rightarrow> u64 \<times> eth_header \<times> bool) \<Rightarrow> (nat \<Rightarrow> bool) \<Rightarrow> ChainContext \<Rightarrow> nat \<Rightarrow> eth_header list
    \<Rightarrow> eth_error option list result" where
  "VerifyHeaders P args aborted cc i [] = Inr []"
| "VerifyHeaders P args aborted cc i (header # headers) = (let (now, parent, seal) = args i in
     bind_r (verifyHeader P now parent seal cc header) (\<lambda>err.
       if aborted i then Inr []
       else bind_r (VerifyHeaders P args aborted cc (Suc i) headers) (\<lambda>errs. Inr (err # errs))))"

section \<open>Laws\<close>

lemma GetHeader_SetHeader: "GetHeader n (SetHeader m h cc) = (if n = m then h else GetHeader n cc)"
  by (simp add: GetHeader_def SetHeader_def)

lemma SealHash_Seal: "Seal ready h = Some h' \<Longrightarrow> SealHash k h' = SealHash k h"
  by (auto simp: Seal_def SealHash_def Let_def split: if_splits)

text \<open>Without an abort there is one result per header, each the result of checking that header.\<close>

lemma VerifyHeaders_results:
  assumes "VerifyHeaders P args aborted cc i hs = Inr errs" and "\<forall>k. \<not> aborted k"
  shows "length errs = length hs \<and> (\<forall>k < length hs. case args (i + k) of
    (now, parent, seal) \<Rightarrow> verifyHeader P now parent seal cc (hs ! k) = Inr (errs ! k))"
  using assms(1)
proof (induction hs arbitrary: i errs)
  case (Cons h hs)
  obtain now parent seal where args: "args i = (now, parent, seal)"
    by (cases "args i")
  obtain err es where e: "verifyHeader P now parent seal cc h = Inr err" "VerifyHeaders P args aborted cc (Suc i) hs = Inr es"
    "errs = err # es"
    using Cons.prems assms(2) [rule_format, of i] by (auto simp: args bind_r_eq_Inr)
  show ?case
    using Cons.IH [OF e(2)] e(1,3) args by (auto simp: nth_Cons less_Suc_eq_0_disj split: nat.split)
qed simp

section \<open>Gas limits\<close>

lemma sint_cases:
  fixes x :: u64
  shows "sint x < 0 \<longleftrightarrow> 2 ^ 63 \<le> unat x"
proof -
  have u: "uint x < 2 ^ 64" "uint x = int (unat x)"
    using unsigned_less [of x, where ?'a = int] by simp_all
  have "sint x < 0 \<longleftrightarrow> odd (uint x div 2 ^ 63)"
    by (simp add: sint_uint signed_take_bit_negative_iff bit_iff_odd)
  also have "\<dots> \<longleftrightarrow> 2 ^ 63 \<le> uint x"
  proof (cases "uint x < 2 ^ 63")
    case True
    then show ?thesis
      by (simp add: div_pos_pos_trivial)
  next
    case False
    then have "uint x div 2 ^ 63 = 1"
      using u(1) int_div_pos_eq [of "uint x" "2 ^ 63" 1 "uint x - 2 ^ 63"] by simp
    then show ?thesis
      using False by simp
  qed
  also have "\<dots> \<longleftrightarrow> 2 ^ 63 \<le> unat x"
    unfolding u(2) using of_nat_le_iff [of "2 ^ 63" "unat x", where ?'a = int] by (simp only: of_nat_power of_nat_numeral)
  finally show ?thesis .
qed

text \<open>The wrapped difference of two gas limits below \<open>2 ^ 63\<close> is their distance.\<close>

lemma gas_diff_distance:
  assumes "unat p < 2 ^ 63" and "unat h < 2 ^ 63"
  shows "unat (gas_diff p h) = (if unat h \<le> unat p then unat p - unat h else unat h - unat p)"
proof (cases "h \<le> p")
  case True
  then have d: "unat (p - h) = unat p - unat h" "unat h \<le> unat p"
    by (simp_all add: unat_sub word_le_nat_alt)
  then have "\<not> sint (p - h) < 0"
    using assms(1) unfolding sint_cases by simp
  then show ?thesis
    using d by (simp add: gas_diff_def)
next
  case False
  then have d: "unat (h - p) = unat h - unat p" "unat p < unat h"
    by (simp_all add: unat_sub word_le_nat_alt word_less_nat_alt not_le)
  then have "unat (p - h) = unat p + 2 ^ 64 - unat h"
    by (simp add: unat_sub_if_size word_size)
  then have "sint (p - h) < 0"
    using d assms(2) unfolding sint_cases by simp
  then show ?thesis
    using d by (simp add: gas_diff_def)
qed

section \<open>Properties\<close>

text \<open>C33. The header check equals its specification. For a parent below the cap on gas limits, a header
  is accepted exactly when it is not from the future, newer than its parent, has the next number, uses no
  more gas than its limit, which is below \<open>2 ^ 63\<close>, at least the minimum, and less than the bound away
  from the limit of the parent, and, when the seal is checked, carries the current view and the current
  leader. The subtraction of the limits, which wraps, does not accept anything else.\<close>

theorem verifyHeader_iff:
  assumes "unat (hd_GasLimit parent) < 2 ^ 63" and "hd_Number parent = Some m" and "hd_Difficulty header = Some d"
  shows "verifyHeader P now parent seal cc header = Inr None \<longleftrightarrow>
    hd_Number header = Some (m + 1) \<and> hd_Time parent < hd_Time header \<and> hd_Time header \<le> now
    \<and> unat (hd_GasUsed header) \<le> unat (hd_GasLimit header) \<and> unat (hd_GasLimit header) < 2 ^ 63
    \<and> MinGasLimit P \<le> hd_GasLimit header
    \<and> unat (hd_GasLimit header) < unat (hd_GasLimit parent) + unat (hd_GasLimit parent div GasLimitBoundDivisor P)
    \<and> unat (hd_GasLimit parent) < unat (hd_GasLimit header) + unat (hd_GasLimit parent div GasLimitBoundDivisor P)
    \<and> (seal \<longrightarrow> word_of_int \<bar>d\<bar> = cc_view cc \<and> hd_Coinbase header = cc_leader cc)"
proof -
  let ?p = "hd_GasLimit parent" and ?h = "hd_GasLimit header"
  let ?limit = "?p div GasLimitBoundDivisor P"
  have cap: "\<not> 0x7fffffffffffffff < ?h \<longleftrightarrow> unat ?h < 2 ^ 63"
    by (auto simp: word_less_nat_alt)
  have gas: "\<not> ?limit \<le> gas_diff ?p ?h \<longleftrightarrow> unat ?h < unat ?p + unat ?limit \<and> unat ?p < unat ?h + unat ?limit"
    if "unat ?h < 2 ^ 63"
    using gas_diff_distance [OF assms(1) that] by (auto simp: word_le_nat_alt)
  have seal: "VerifySeal cc header = Inr None \<longleftrightarrow> word_of_int \<bar>d\<bar> = cc_view cc \<and> hd_Coinbase header = cc_leader cc"
    using assms(3) by (simp add: VerifySeal_def Let_def)
  have used: "\<not> ?h < hd_GasUsed header \<longleftrightarrow> unat (hd_GasUsed header) \<le> unat ?h"
    by (simp add: word_le_nat_alt not_less)
  have accept: "verifyHeader P now parent seal cc header = Inr None \<longleftrightarrow>
    hd_Number header = Some (m + 1) \<and> \<not> now < hd_Time header \<and> \<not> hd_Time header \<le> hd_Time parent
      \<and> \<not> 0x7fffffffffffffff < ?h \<and> \<not> ?h < hd_GasUsed header \<and> \<not> ?limit \<le> gas_diff ?p ?h \<and> \<not> ?h < MinGasLimit P
      \<and> (seal \<longrightarrow> VerifySeal cc header = Inr None)"
    by (cases "hd_Number header") (simp_all add: verifyHeader_def Let_def assms(2) diff_eq_eq add.commute [of 1])
  show ?thesis
    unfolding accept cap used seal using gas by (auto simp only: not_less not_le)
qed

text \<open>C34. Sealing. A header prepared in a view passes the seal check of an engine exactly when the engine is
  in the same view and its leader is the coinbase of the header; in another view it is refused for its
  view, and in the same view with another leader for its coinbase. Preparing a header without a
  difficulty dereferences a nil pointer.\<close>

theorem prepared_header_seal:
  "(hd_Difficulty header = None \<longrightarrow> Prepare cc header = Inl NilDereference)
   \<and> (hd_Difficulty header \<noteq> None \<longrightarrow> (\<exists>h. Prepare cc header = Inr h
        \<and> VerifySeal cc' h = Inr (if cc_view cc' \<noteq> cc_view cc then Some InvalidView
             else if hd_Coinbase header \<noteq> cc_leader cc' then Some InvalidCoinbase else None)))"
  by (cases "hd_Difficulty header") (simp_all add: Prepare_def VerifySeal_def)

definition sample_header :: "int \<Rightarrow> u64 \<Rightarrow> eth_header" where
  "sample_header n gas = \<lparr>hd_ParentHash = [], hd_UncleHash = [], hd_Coinbase = [7], hd_Root = [], hd_TxHash = [],
     hd_ReceiptHash = [], hd_Bloom = [], hd_Difficulty = Some 3, hd_Number = Some n, hd_GasLimit = gas,
     hd_GasUsed = 1000, hd_Time = word_of_int n, hd_Extra = [], hd_MixDigest = [], hd_Nonce = []\<rparr>"

definition sample_engine :: ChainContext where
  "sample_engine = New\<lparr>cc_leader := [7], cc_view := 3\<rparr>"

theorem verifyHeader_iff_witness:
  "verifyHeader \<lparr>GasLimitBoundDivisor = 1024, MinGasLimit = 5000\<rparr> 10 (sample_header 4 20480) True sample_engine (sample_header 5 20499) = Inr None
   \<and> verifyHeader \<lparr>GasLimitBoundDivisor = 1024, MinGasLimit = 5000\<rparr> 10 (sample_header 4 20480) True sample_engine (sample_header 5 20500) \<noteq> Inr None"
  using verifyHeader_iff [of "sample_header 4 20480" 4 "sample_header 5 20499" 3]
    verifyHeader_iff [of "sample_header 4 20480" 4 "sample_header 5 20500" 3]
  by (simp add: sample_header_def sample_engine_def)

theorem prepared_header_seal_witness:
  "\<exists>h. Prepare sample_engine (sample_header 5 20499) = Inr h \<and> VerifySeal sample_engine h = Inr None
     \<and> VerifySeal (sample_engine\<lparr>cc_view := 4\<rparr>) h = Inr (Some InvalidView)
     \<and> VerifySeal (sample_engine\<lparr>cc_leader := [8]\<rparr>) h = Inr (Some InvalidCoinbase)"
  using prepared_header_seal [of "sample_header 5 20499" sample_engine sample_engine]
    prepared_header_seal [of "sample_header 5 20499" sample_engine "sample_engine\<lparr>cc_view := 4\<rparr>"]
    prepared_header_seal [of "sample_header 5 20499" sample_engine "sample_engine\<lparr>cc_leader := [8]\<rparr>"]
  by (auto simp: sample_header_def sample_engine_def)

end
