(* ===== verification/Spec2Isabelle.thy ===== *)
theory Spec2Isabelle
  imports Quorum_Progress State_Types Evidence_Properties Main_Programs Eth_Engine
begin

text \<open>
  A replicated state machine in Go whose replicas weigh votes by reputation: a model of the replica,
  its clients and its configuration, and theorems about it. All paths are below \<^verbatim>\<open>src/\<close>.

  \<^bold>\<open>The program.\<close> A client (\<^verbatim>\<open>client/client.go\<close>) sends numbered commands to all replicas. A replica
  (\<^verbatim>\<open>consensus/\<close>) collects them; when it has enough for a block it starts a round and its timer
  (\<^verbatim>\<open>util/timer.go\<close>). The leader proposes a block over the certificate of the head, the others forward
  the proposal, vote for it and count the votes. Once the reputation of the voters exceeds half of the
  total, a certificate is built and stored. When the timer expires, every replica recomputes all
  reputations from the recorded behaviour, and, if the view is certified, acknowledges the block to the
  clients and moves to the next view and the next leader. Misbehaviour can be injected, detected and
  reported as evidence. Messages and blocks are protocol buffers (\<^verbatim>\<open>msg/\<close>, \<^verbatim>\<open>chain/\<close>); the files that
  configure nodes and clients (\<^verbatim>\<open>config/\<close>) are written by a generator (\<^verbatim>\<open>tools/genConfig.go\<close>).

  \<^bold>\<open>Conventions.\<close>
  \<^item> A run-time panic is a value: a fallible operation returns \<open>'a result\<close>, \<open>Inl\<close> the panic. A pointer that
    may be nil is an \<open>option\<close>, and \<open>deref\<close> panics on \<open>None\<close>.
  \<^item> A map is an association list, and a \<^verbatim>\<open>range\<close> loop over it runs in the order of an argument, any
    permutation of the keys; theorems hold for all of them.
  \<^item> \<^verbatim>\<open>uint64\<close> is \<open>64 word\<close>, \<^verbatim>\<open>big.Float\<close> and \<^verbatim>\<open>float64\<close> are dyadic numbers rounded as the library does.
  \<^item> A \<^verbatim>\<open>go\<close> statement appends a goroutine, a list of actions, to the state. A handler that loops over a
    channel is one operation per message; its local variables are fields of the state.
  \<^item> Code outside of the repository is an argument: \<open>env\<close> (hashing, signatures, protocol buffer encoding,
    the hyperbolic tangent, writing to a stream) and \<open>pki\<close> (key algorithms, decoding of files). What a
    theorem needs of them is one of its hypotheses, and \<open>Sample_Node\<close> has an instance for which they hold.

  \<^bold>\<open>Theories\<close>, in the order of their imports:
  \<^item> \<open>Go_Prelude\<close>: panics, maps, loop orders. \<open>Big_Float\<close>: rounding, addition, multiplication and
    comparison of floating-point numbers with bounds of the errors.
  \<^item> \<open>Msg_Types\<close>, \<open>Chain_Block\<close>, \<open>Msg_Cert\<close>: the structs of \<^verbatim>\<open>chain/*.go\<close> and \<^verbatim>\<open>msg/*.go\<close> with their
    getters, caches and conversions. \<open>Cert_Laws\<close>: the contract of a cached wire form (locales \<open>wire_codec\<close>
    and \<open>wire_roundtrip\<close>, interpreted on votes and certificates); certificates survive encoding
    (C27), and decoding panics exactly on a lack of signatures (C28).
  \<^item> \<open>Node_Config\<close>, \<open>Client_Config\<close>: \<^verbatim>\<open>config/*.go\<close>; loading files (locale \<open>config_loader\<close>, lemma
    \<open>config_load\<close>), and a configuration survives its file (locale \<open>config_file\<close>, C29).
  \<^item> \<open>Round_Timer\<close>, \<open>Node_State\<close>, \<open>Node_Ops\<close>: the timer, the struct \<open>SyncHS\<close>, \<open>Init\<close>, \<open>Setup\<close>, leader,
    command pool and the maps that record behaviour.
  \<^item> \<open>Reputation\<close>: \<^verbatim>\<open>consensus/Reputation.go\<close>. The score is a function of the net conduct
    (C11), bounded (C12), fair (lemma \<open>reputation_fair\<close>), and every recorder
    moves it in the right direction (C13), through the locales \<open>behaviour_record\<close>,
    \<open>accumulating_record\<close> and \<open>behaviour_count\<close>, each interpreted on all six maps; the update at the end of a
    round is complete (C14).
  \<^item> \<open>Quorum_Cert\<close>: \<^verbatim>\<open>consensus/cert.go\<close> and the counting of \<^verbatim>\<open>consensus/vote.go\<close>. Quorums intersect up
    to the rounding and enough reputation is accepted (lemmas \<open>quorum_intersection\<close>, \<open>quorum_complete\<close>);
    what an accepted certificate weighs (C15), and the limits of the checks (C16 to
    C18). The locale \<open>weighted_quorum\<close> is interpreted for voting, for checking certificates
    and, in \<open>Quorum_Progress\<close>, for comparing the certificates of two replicas.
  \<^item> \<open>Voting\<close>, \<open>Proposal_Forward\<close>, \<open>Evidence_Handling\<close>, \<open>Attack_Injection\<close>, \<open>Client_Service\<close>: the remaining
    files of \<^verbatim>\<open>consensus/\<close>, one definition per function.
  \<^item> \<open>Node_Protocol\<close>: \<^verbatim>\<open>consensus/reactor.go\<close>, and the whole replica as a step relation \<open>node_step\<close> over
    goroutines, handlers, timer and environment, with \<open>reachable\<close> states. The set of handlers is a
    parameter, since \<open>Start\<close> leaves some of them commented out.
  \<^item> \<open>Node_Invariants\<close>, \<open>Node_Safety\<close>: three locales, each extending the one before, reduce what a step keeps
    to the elementary updates: \<open>node_frame\<close> for steps that neither handle a vote nor end a round, \<open>vote_frame\<close>
    for steps that do not end a round, \<open>node_invariant\<close> for all steps. Interpretations of the first two show
    that only the vote handler changes the count of votes, and that view and leader only change together;
    six interpretations of the third give the invariants. \<open>State_Types\<close> adds a seventh, and the type of the
    state of a replica (C8).
  \<^item> \<open>Replica_Properties\<close>: what holds in every reachable state (C1, C3, C6, C7, C9, C10, C35, C40), and
    how leaders rotate along a run (C5). \<open>Quorum_Progress\<close>: the certificates of two replicas that agree on the
    reputations share a signer (C2), and enough votes in a run that stays in its view certify it (C4).
  \<^item> \<open>Protocol_Properties\<close>: the end of a round, proposing, forwarding (C19,
    C20, C22, C23, C36).
    \<open>Evidence_Properties\<close>: equivocation and evidence (C24 to C26,
    C37, C38).
  \<^item> \<open>Client_Acks\<close>: the client; a committed block starts its successors once (C30), and where
    this fails (C39). \<open>Gen_Config\<close>: the generated files fit together.
  \<^item> \<open>Main_Programs\<close>: the files of the generator, and the main functions of node and client. The client gets
    past its connections exactly when every node that accepts also opens a stream (C31), and
    then has started one block of different commands (C32).
  \<^item> \<open>Eth_Engine\<close>: \<^verbatim>\<open>ethereum/consensus/synchs.go\<close>. The header check with its wrapping subtraction equals its
    specification over integers (C33); what a prepared header passes (C34).
  \<^item> \<open>Sample_Node\<close>, \<open>Sample_Run\<close>: concrete nodes, an executable scheduler that is sound for \<open>node_step\<close>, and
    runs of a leader and of a follower, on which the theorems with hypotheses are applied.
  \<^item> This theory: replicas started from generated files accept the votes of each other (C21).

  \<^bold>\<open>Bounds.\<close> No definition uses fuel; every recursion is structural or has a decreasing argument, except
  the unbounded attempts of the client to open a stream, a \<open>partial_function\<close> whose value \<open>None\<close> is not
  returning. A loop that never ends is a sequence of steps. Views are 64-bit numbers and wrap; C5 counts
  the steps of a run to exclude this. Sums of reputations are compared up to an explicit rounding
  slack (\<open>rep_slack\<close>). Counts of recorded behaviour stay below the width of the counters by hypothesis.

  \<^bold>\<open>Atomicity.\<close> A handler, an action and the end of a round are atomic steps; the locks of the code are
  not modelled. A send on a full channel is not enabled in the step of a goroutine and of the dispatcher.

  \<^bold>\<open>Not modelled.\<close>
  \<^item> libp2p: hosts, streams, the parsing of addresses. Whether dialling a peer succeeds is an argument.
  \<^item> The wire format of protocol buffers and the parts of \<^verbatim>\<open>*.pb.go\<close> that only serve the library's
    reflection; getters that nothing calls; \<^verbatim>\<open>msg/blame.pb.go\<close>, which nothing uses.
  \<^item> Limits of memory: a slice can be made in every size below \<open>2 ^ 64\<close>.
  \<^item> Of the main programs: parsing the command line, profiling, file access (the content of a file is an
    argument) and printing. \<^verbatim>\<open>tools/browser\<close> only reads a web service.
  \<^item> \<^verbatim>\<open>ethereum/\<close> apart from the engine: code that is commented out and calls of external servers. The
    identifiers that \<open>verifyHeader\<close> uses without declaring them are arguments of its model.
  \<^item> \<^verbatim>\<open>p2p/\<close>, \<^verbatim>\<open>state/\<close>, \<^verbatim>\<open>mempool/\<close>, \<^verbatim>\<open>version/\<close>, \<^verbatim>\<open>chain/genesis.go\<close>, \<^verbatim>\<open>chain/commands.go\<close>,
    \<^verbatim>\<open>chain/candidateBlock.go\<close>: declarations, and functions that nothing uses and that only call external
    libraries.
\<close>

section \<open>Replicas started from generated files\<close>

text \<open>C21. Replicas started from the generated files understand each other. Two replicas are
  started by the node program from the files that the generator wrote for \<open>i\<close> and \<open>j\<close>, and have run
  since then in any way. When the first one votes for a block, the vote names its author, the view, the
  block and the owner of the proposal, is recorded by its author, and passes the check of the second
  one, provided that decoding inverts encoding and every generated key pair matches.\<close>

theorem deployed_votes_accepted:
  assumes "GetAlgo P alg = Some a" and "i < nReplicas opts"
    and "\<forall>d b. MarshalNodeData P d = Some b \<longrightarrow> UnmarshalNodeData P b = Some d"
    and "gen_node_file P opts alg keys i = Inr (Some b)" and "gen_node_file P opts alg keys j = Inr (Some b')"
    and "reads_file R b" and "node_main E P R connect dial = Inr s0" and "node_runs H E s0 s"
    and "reads_file R' b'" and "node_main E P R' connect' dial' = Inr t0" and "node_runs H E t0 t"
    and "\<forall>x. keys_match E (PrivKeyFromBytes P a (fst (keys x))) (PubKeyFromBytes P a (snd (keys x)))"
    and "\<forall>k d. \<not> snd (Sign E k d)" and "\<forall>d. \<not> snd (MarshalVoteData E d)"
    and "voteForBlock E ep s = Inr s'" and "ExtBlock_GetBlockHash E (ep_ExtBlock ep) = Inr bh"
  shows "\<exists>pv. goroutines s' = goroutines s @ [[Act_Broadcast (Msg_Vote pv), Act_sendVote (Vote_FromProto pv)]]
    \<and> pv_Data pv = Some \<lparr>vd_BlockHash = HashBytes E bh, vd_View = view s, vd_Owner = pr_Miner (ep_Proposal ep)\<rparr>
    \<and> Vote_GetVoter (Vote_FromProto pv) = i \<and> isVoteValid E t (Vote_FromProto pv) = Inr True
    \<and> mget2 (voteMap s') (view s) i = Some 1"
proof -
  note c = generated_node [OF assms(1) node_main_runs(1) [OF assms(3,4,6,7,8)]]
    and c' = generated_node [OF assms(1) node_main_runs(1) [OF assms(3,5,9,10,11)]]
  have "keys_match E (GetMyKey (cfg s)) (PubKeyFromBytes P a (snd (keys i)))"
    "GetPubKeyFromID (cfg t) (GetID (cfg s)) = Some (PubKeyFromBytes P a (snd (keys i)))"
    using assms(2,12) by (simp_all add: c c')
  moreover have "\<forall>d. \<not> snd (Sign E (GetMyKey (cfg s)) d)"
    using assms(13) by blast
  ultimately show ?thesis
    using cast_vote_valid [OF assms(15,16,14), of _ t] c(1) by simp
qed

text \<open>The replicas 1 and 2 of the sample deployment, just started.\<close>

lemma deployed_replica:
  assumes "gen_node_file deploy_pki deploy_options ''k'' sample_keys i = Inr (Some b)"
  shows "\<exists>s. node_main sample_env deploy_pki (file_content b) (\<lambda>_. round_peers) (\<lambda>_ _. True) = Inr s \<and> view s = 1"
proof -
  have law: "\<forall>d b. MarshalNodeData deploy_pki d = Some b \<longrightarrow> UnmarshalNodeData deploy_pki b = Some d"
    by (simp add: deploy_pki_def)
  obtain c where "NewNodeConfig deploy_pki (deploy_node i) = Inr c" "NodeConfig_MarshalBinary deploy_pki c = Some b"
    using assms by (auto simp: gen_node_file_def bind_r_eq_Inr)
  then have "NodeConfig_UnmarshalBinary deploy_pki b NodeConfig_zero = Inr (c, False)"
    using node_file.save_load [OF law, of "deploy_node i" c b] by (simp add: NewNodeConfig_def)
  then show ?thesis
    by (simp add: node_main_def file_content_def Setup_def Init_def)
qed

theorem deployed_votes_accepted_witness:
  "\<exists>s t s' pv. node_main sample_env deploy_pki (file_content [11]) (\<lambda>_. round_peers) (\<lambda>_ _. True) = Inr s
     \<and> node_main sample_env deploy_pki (file_content [12]) (\<lambda>_. round_peers) (\<lambda>_ _. True) = Inr t
     \<and> voteForBlock sample_env sample_ext_proposal s = Inr s' \<and> isVoteValid sample_env t (Vote_FromProto pv) = Inr True
     \<and> Vote_GetVoter (Vote_FromProto pv) = 1 \<and> mget2 (voteMap s') 1 1 = Some 1"
proof -
  have law: "\<forall>d b. MarshalNodeData deploy_pki d = Some b \<longrightarrow> UnmarshalNodeData deploy_pki b = Some d"
    and p: "GetAlgo deploy_pki ''k'' = Some ''k''" "1 < nReplicas deploy_options" "\<forall>k d. \<not> snd (Sign sample_env k d)"
    by (simp_all add: deploy_pki_def deploy_options_def sample_options_def sample_env_def sample_pki_def)
  have keys: "\<forall>x. keys_match sample_env (PrivKeyFromBytes deploy_pki ''k'' (fst (sample_keys x))) (PubKeyFromBytes deploy_pki ''k'' (snd (sample_keys x)))"
    by (simp add: deploy_pki_def sample_pki_def sample_keys_def sample_keys_match)
  have f: "gen_node_file deploy_pki deploy_options ''k'' sample_keys 1 = Inr (Some [11])"
    "gen_node_file deploy_pki deploy_options ''k'' sample_keys 2 = Inr (Some [12])"
    by code_simp+
  obtain s t where s: "node_main sample_env deploy_pki (file_content [11]) (\<lambda>_. round_peers) (\<lambda>_ _. True) = Inr s" "view s = 1"
    and t: "node_main sample_env deploy_pki (file_content [12]) (\<lambda>_. round_peers) (\<lambda>_ _. True) = Inr t"
    using deployed_replica f by blast
  obtain s' bh where s': "voteForBlock sample_env sample_ext_proposal s = Inr s'"
    "ExtBlock_GetBlockHash sample_env (ep_ExtBlock sample_ext_proposal) = Inr bh"
    by (auto simp: voteForBlock_def cast_vote_def addVotetoMap_def sample_env_def sample_ext_proposal_def Let_def
        GetBlockHash_ext_of)
  from deployed_votes_accepted [OF p(1,2) law f file_content_reads s(1) rtranclp.rtrancl_refl
      file_content_reads t rtranclp.rtrancl_refl keys p(3) sample_signing(1) s']
  show ?thesis
    using s t s'(1) by auto
qed

end
